(* ===== verification/Resurrect_Prelude.thy ===== *)
theory Resurrect_Prelude
  imports Main "HOL-Library.Word"
begin

text \<open>
  The vocabulary every component shares: the machine integers of the Rust code as words,
  the saturating operations of Rust's standard library, big-endian byte strings, decimal
  text, results (\<open>error + 'a\<close>, \<open>Inl\<close> being Rust's \<open>Err\<close>), effectful procedures
  (a result together with the next state of the outside world, so that an \<open>async\<close>
  call of a provider, a transport or a database is a step of that world), and Rust's
  three-valued \<open>Ordering\<close>.
\<close>

named_theorems proc_simps "unfolding of effectful procedures"
named_theorems result_elims "elimination of successful results"

section \<open>Machine integers\<close>

type_synonym u8 = "8 word"
type_synonym u16 = "16 word"
type_synonym u32 = "32 word"
type_synonym u64 = "64 word"
type_synonym u256 = "256 word"
type_synonym b256 = "256 word"
type_synonym bytes = "u8 list"

definition saturating_add :: "'a::len word \<Rightarrow> 'a word \<Rightarrow> 'a word" where
  "saturating_add a b = (if unat a + unat b < 2 ^ LENGTH('a) then a + b else - 1)"

definition saturating_sub :: "'a::len word \<Rightarrow> 'a word \<Rightarrow> 'a word" where
  "saturating_sub a b = (if b \<le> a then a - b else 0)"

lemma unat_max_word: "unat (- 1 :: 'a::len word) = 2 ^ LENGTH('a) - 1"
  by (simp add: unsigned_minus_1_eq_mask mask_eq_exp_minus_1)

lemma unat_less_pow: "unat (a :: 'a::len word) < 2 ^ LENGTH('a)"
  by (rule unsigned_less)

lemma unat_saturating_add [simp]:
  "unat (saturating_add a (b :: 'a::len word)) = min (unat a + unat b) (2 ^ LENGTH('a) - 1)"
  by (auto simp: saturating_add_def unat_max_word unat_word_ariths)

lemma unat_sub_le: "b \<le> a \<Longrightarrow> unat (a - (b :: 'a::len word)) = unat a - unat b"
  by (simp add: unat_sub word_le_nat_alt)

lemma unat_saturating_sub [simp]: "unat (saturating_sub a (b :: 'a::len word)) = unat a - unat b"
  by (auto simp: saturating_sub_def unat_sub_le word_le_nat_alt)

lemma unat_add_one: "a < b \<Longrightarrow> unat (a + 1 :: 'a::len word) = Suc (unat a)"
proof -
  assume "a < b"
  then have "unat a < unat b" by (simp add: word_less_nat_alt)
  moreover have "unat b < 2 ^ LENGTH('a)" by (rule unat_less_pow)
  ultimately have "unat a + 1 < 2 ^ LENGTH('a)" by linarith
  then show ?thesis by (simp add: unat_word_ariths)
qed

lemma unat_half: "unat (a div 2 :: u64) = unat a div 2"
  by (simp add: unat_div_distrib)

lemma unat_midpoint:
  fixes low high :: u64
  assumes "low < high"
  shows "unat (low + (high - low) div 2) = unat low + (unat high - unat low) div 2"
proof -
  have lt: "unat low < unat high" using assms by (simp add: word_less_nat_alt)
  have "unat ((high - low) div 2) = (unat high - unat low) div 2"
    using assms by (simp add: unat_half unat_sub_le)
  moreover have "unat low + (unat high - unat low) div 2 < 2 ^ 64"
    using lt unat_less_pow [of high] by simp
  ultimately show ?thesis by (simp add: unat_word_ariths)
qed

section \<open>Bytes\<close>

text \<open>\<open>to_be_bytes\<close> of an \<open>n\<close>-byte integer, most significant byte first.\<close>

definition be_bytes :: "nat \<Rightarrow> 'a::len word \<Rightarrow> bytes" where
  "be_bytes n w = map (\<lambda>i. ucast (drop_bit (8 * (n - 1 - i)) w)) [0..<n]"

lemma length_be_bytes [simp]: "length (be_bytes n w) = n"
  by (simp add: be_bytes_def)

lemma be_bytes_bit:
  assumes "i < 8 * n"
  shows "bit w i = bit (be_bytes n w ! (n - 1 - i div 8)) (i mod 8)"
proof -
  from assms have k: "i div 8 < n" by auto
  then have "be_bytes n w ! (n - 1 - i div 8) = ucast (drop_bit (8 * (i div 8)) w)"
    by (simp add: be_bytes_def)
  then show ?thesis by (simp add: bit_simps)
qed

lemma be_bytes_inj:
  fixes v w :: "'a::len word"
  assumes "be_bytes n v = be_bytes n w" and "LENGTH('a) \<le> 8 * n"
  shows "v = w"
proof (rule bit_word_eqI)
  fix i assume "i < LENGTH('a)"
  with assms show "bit v i = bit w i"
    by (simp add: be_bytes_bit [of i n])
qed

text \<open>The bytes of a Rust string: a \<open>char\<close> of HOL is one byte of its UTF-8 encoding.\<close>

definition string_bytes :: "string \<Rightarrow> bytes" where
  "string_bytes s = map (\<lambda>c. word_of_nat (of_char c)) s"

lemma char_byte_inj: "(word_of_nat (of_char c) :: u8) = word_of_nat (of_char d) \<Longrightarrow> c = d"
proof -
  assume "(word_of_nat (of_char c) :: u8) = word_of_nat (of_char d)"
  then have "unat (word_of_nat (of_char c) :: u8) = unat (word_of_nat (of_char d) :: u8)" by simp
  then have "(of_char c :: nat) = of_char d" by (simp add: unsigned_of_nat take_bit_eq_mod)
  then show "c = d" by simp
qed

lemma string_bytes_inj: "string_bytes s = string_bytes t \<Longrightarrow> s = t"
  unfolding string_bytes_def by (rule map_inj_on [of _ s t]) (auto intro: inj_onI char_byte_inj)

section \<open>Decimal text\<close>

text \<open>
  \<open>u64::to_string\<close> and \<open>str::parse\<close> of Rust's standard library, over an unbounded
  value: \<open>decimal\<close> prints without leading zeros, \<open>parse_unsigned\<close> accepts an
  optional \<open>+\<close>, then digits, and fails on overflow of the given exclusive bound.
\<close>

definition digit_char :: "nat \<Rightarrow> char" where
  "digit_char d = char_of (48 + d)"

definition is_ascii_digit :: "char \<Rightarrow> bool" where
  "is_ascii_digit c \<longleftrightarrow> 48 \<le> (of_char c :: nat) \<and> (of_char c :: nat) \<le> 57"

definition digit_value :: "char \<Rightarrow> nat" where
  "digit_value c = of_char c - 48"

fun decimal :: "nat \<Rightarrow> string" where
  "decimal n = (if n < 10 then [digit_char n] else decimal (n div 10) @ [digit_char (n mod 10)])"

declare decimal.simps [simp del]

definition digits_value :: "string \<Rightarrow> nat" where
  "digits_value s = foldl (\<lambda>v c. 10 * v + digit_value c) 0 s"

definition parse_unsigned :: "nat \<Rightarrow> string \<Rightarrow> nat option" where
  "parse_unsigned bound s =
     (let t = (case s of CHR ''+'' # r \<Rightarrow> r | _ \<Rightarrow> s)
      in if t = [] \<or> \<not> list_all is_ascii_digit t then None
         else if digits_value t < bound then Some (digits_value t) else None)"

lemma of_char_digit_char [simp]: "d < 10 \<Longrightarrow> (of_char (digit_char d) :: nat) = 48 + d"
  by (simp add: digit_char_def)

lemma digit_value_digit_char [simp]: "d < 10 \<Longrightarrow> digit_value (digit_char d) = d"
  by (simp add: digit_value_def)

lemma is_ascii_digit_digit_char [simp]: "d < 10 \<Longrightarrow> is_ascii_digit (digit_char d)"
  by (simp add: is_ascii_digit_def)

lemma digit_char_digit_value: "is_ascii_digit c \<Longrightarrow> digit_char (digit_value c) = c"
  by (simp add: is_ascii_digit_def digit_value_def digit_char_def)

lemma digit_value_less: "is_ascii_digit c \<Longrightarrow> digit_value c < 10"
  unfolding is_ascii_digit_def digit_value_def by linarith

lemma decimal_0: "decimal 0 = [digit_char 0]"
  by (simp add: decimal.simps)

lemma decimal_nonempty [simp]: "decimal n \<noteq> []"
  by (subst decimal.simps) simp

lemma decimal_digits: "list_all is_ascii_digit (decimal n)"
proof (induction n rule: decimal.induct)
  case (1 n)
  then show ?case by (cases "n < 10") (simp_all add: decimal.simps [of n])
qed

lemma digits_value_append:
  "digits_value (s @ [c]) = 10 * digits_value s + digit_value c"
  by (simp add: digits_value_def)

lemma digits_value_decimal [simp]: "digits_value (decimal n) = n"
proof (induction n rule: decimal.induct)
  case (1 n)
  show ?case
  proof (cases "n < 10")
    case True
    then show ?thesis by (simp add: decimal.simps [of n]) (simp add: digits_value_def)
  next
    case False
    with 1 show ?thesis by (simp add: decimal.simps [of n] digits_value_append)
  qed
qed

lemma decimal_inj: "decimal m = decimal n \<Longrightarrow> m = n"
  by (metis digits_value_decimal)

lemma decimal_leading: "hd (decimal n) = CHR ''0'' \<Longrightarrow> n = 0"
proof (induction n rule: decimal.induct)
  case (1 n)
  show ?case
  proof (cases "n < 10")
    case True
    with "1.prems" have "digit_char n = CHR ''0''" by (simp add: decimal.simps [of n])
    then have "(of_char (digit_char n) :: nat) = 48" by simp
    with True show ?thesis by simp
  next
    case False
    with 1 have "n div 10 = 0" by (simp add: decimal.simps [of n])
    with False show ?thesis by simp
  qed
qed

text \<open>A canonical digit string (no leading zero) is the decimal text of its value.\<close>

lemma decimal_digits_value:
  assumes "s \<noteq> []" and "list_all is_ascii_digit s" and "length s > 1 \<Longrightarrow> hd s \<noteq> CHR ''0''"
  shows "decimal (digits_value s) = s"
  using assms
proof (induction s rule: rev_induct)
  case Nil
  then show ?case by simp
next
  case (snoc c s)
  then have c: "digit_value c < 10" "digit_char (digit_value c) = c"
    by (auto intro: digit_value_less digit_char_digit_value)
  show ?case
  proof (cases "s = []")
    case True
    with c show ?thesis by (simp add: digits_value_def decimal.simps)
  next
    case False
    with snoc have ih: "decimal (digits_value s) = s" by auto
    have "digits_value s \<noteq> 0"
    proof
      assume "digits_value s = 0"
      with ih have "s = decimal 0" by simp
      then have "s = ''0''" by (simp add: decimal.simps digit_char_def char_of_def bit_0)
      with snoc.prems show False by simp
    qed
    then have "\<not> 10 * digits_value s + digit_value c < 10" by simp
    with c ih show ?thesis
      by (subst decimal.simps) (simp add: digits_value_append)
  qed
qed

lemma decimal_no_plus: "decimal n \<noteq> CHR ''+'' # r"
proof
  assume "decimal n = CHR ''+'' # r"
  with decimal_digits [of n] show False by (simp add: is_ascii_digit_def)
qed

lemma parse_unsigned_digits:
  assumes "s \<noteq> []" and "list_all is_ascii_digit s"
  shows "parse_unsigned bound s = (if digits_value s < bound then Some (digits_value s) else None)"
proof (cases s)
  case (Cons c r)
  with assms have "c \<noteq> CHR ''+''" by (auto simp: is_ascii_digit_def)
  with Cons have "(case s of CHR ''+'' # r \<Rightarrow> r | _ \<Rightarrow> s) = s"
    by (auto split: char.splits bool.splits)
  with assms show ?thesis by (simp add: parse_unsigned_def)
qed (use assms in simp)

lemma parse_unsigned_decimal: "n < bound \<Longrightarrow> parse_unsigned bound (decimal n) = Some n"
  by (simp add: parse_unsigned_digits decimal_digits)

section \<open>Durations\<close>

text \<open>\<open>std::time::Duration\<close> as its number of nanoseconds, with the largest one the type holds.\<close>

type_synonym duration = nat

definition from_millis :: "nat \<Rightarrow> duration" where
  "from_millis n = n * 10 ^ 6"

definition from_secs :: "nat \<Rightarrow> duration" where
  "from_secs s = s * 10 ^ 9"

definition as_secs :: "duration \<Rightarrow> u64" where
  "as_secs d = word_of_nat (d div 10 ^ 9)"

definition duration_max :: duration where
  "duration_max = from_secs (2 ^ 64 - 1) + 999999999"

definition duration_saturating_add :: "duration \<Rightarrow> duration \<Rightarrow> duration" where
  "duration_saturating_add a b = min (a + b) duration_max"

definition duration_saturating_mul :: "duration \<Rightarrow> nat \<Rightarrow> duration" where
  "duration_saturating_mul a n = min (a * n) duration_max"

section \<open>Results and effectful procedures\<close>

text \<open>
  \<open>res_bind\<close> is the \<open>?\<close> operator on plain results. A procedure takes the state of the
  outside world and returns a result and the next state; \<open>and_then\<close> is \<open>?\<close> after an
  \<open>await\<close>: an error ends the computation at once, with the world the failing call left.
\<close>

type_synonym ('w, 'e, 'a) proc = "'w \<Rightarrow> ('e + 'a) \<times> 'w"

definition res_bind :: "('e + 'a) \<Rightarrow> ('a \<Rightarrow> 'e + 'b) \<Rightarrow> 'e + 'b" where
  "res_bind r f = (case r of Inl e \<Rightarrow> Inl e | Inr x \<Rightarrow> f x)"

definition map_err :: "('e \<Rightarrow> 'f) \<Rightarrow> ('e + 'a) \<Rightarrow> 'f + 'a" where
  "map_err f r = (case r of Inl e \<Rightarrow> Inl (f e) | Inr x \<Rightarrow> Inr x)"

definition succeed :: "'a \<Rightarrow> ('w, 'e, 'a) proc" where
  "succeed x w = (Inr x, w)"

definition fail :: "'e \<Rightarrow> ('w, 'e, 'a) proc" where
  "fail e w = (Inl e, w)"

definition and_then :: "('w, 'e, 'a) proc \<Rightarrow> ('a \<Rightarrow> ('w, 'e, 'b) proc) \<Rightarrow> ('w, 'e, 'b) proc" where
  "and_then m f w = (case m w of (Inl e, v) \<Rightarrow> (Inl e, v) | (Inr x, v) \<Rightarrow> f x v)"

definition proc_err :: "('e \<Rightarrow> 'f) \<Rightarrow> ('w, 'e, 'a) proc \<Rightarrow> ('w, 'f, 'a) proc" where
  "proc_err f m w = (case m w of (r, v) \<Rightarrow> (map_err f r, v))"

definition ensure :: "bool \<Rightarrow> 'e \<Rightarrow> ('w, 'e, unit) proc" where
  "ensure b e = (if b then succeed () else fail e)"

definition lift_res :: "('e + 'a) \<Rightarrow> ('w, 'e, 'a) proc" where
  "lift_res r w = (r, w)"

lemmas proc_defs = succeed_def fail_def and_then_def proc_err_def ensure_def lift_res_def

declare succeed_def [proc_simps] fail_def [proc_simps] ensure_def [proc_simps]
  lift_res_def [proc_simps]

lemma res_bind_simps [simp]:
  "res_bind (Inl e) f = Inl e" "res_bind (Inr x) f = f x"
  by (simp_all add: res_bind_def)

lemma res_bind_Inr_iff: "res_bind r f = Inr y \<longleftrightarrow> (\<exists>x. r = Inr x \<and> f x = Inr y)"
  by (cases r) auto

lemma map_err_simps [simp]:
  "map_err f (Inl e) = Inl (f e)" "map_err f (Inr x) = Inr x"
  by (simp_all add: map_err_def)

lemma map_err_Inr_iff [simp]: "map_err f r = Inr x \<longleftrightarrow> r = Inr x"
  by (cases r) auto

lemma and_then_Inr_iff:
  "and_then m f w = (Inr y, u) \<longleftrightarrow> (\<exists>x v. m w = (Inr x, v) \<and> f x v = (Inr y, u))"
  by (auto simp: and_then_def split: prod.splits sum.splits)

lemma and_then_InrE [result_elims]:
  assumes "and_then m f w = (Inr y, u)"
  obtains x v where "m w = (Inr x, v)" and "f x v = (Inr y, u)"
  using assms by (auto simp: and_then_Inr_iff)

lemma proc_err_Inr_iff [simp]: "proc_err f m w = (Inr x, v) \<longleftrightarrow> m w = (Inr x, v)"
  by (auto simp: proc_err_def split: prod.splits)

lemma ensure_Inr_iff [simp]: "ensure b e w = (Inr x, v) \<longleftrightarrow> b \<and> v = w"
  by (auto simp: ensure_def succeed_def fail_def)

lemma lift_res_Inr_iff [simp]: "lift_res r w = (Inr x, v) \<longleftrightarrow> r = Inr x \<and> v = w"
  by (auto simp: lift_res_def)

lemma and_then_Inr: "m w = (Inr x, v) \<Longrightarrow> and_then m f w = f x v"
  by (simp add: and_then_def)

lemma and_then_Inl: "m w = (Inl e, v) \<Longrightarrow> and_then m f w = (Inl e, v)"
  by (simp add: and_then_def)

text \<open>\<open>collect\<close> into a \<open>Result\<close>: all the values in order, or the first error.\<close>

primrec traverse :: "('a \<Rightarrow> 'e + 'b) \<Rightarrow> 'a list \<Rightarrow> 'e + 'b list" where
  "traverse f [] = Inr []"
| "traverse f (x # xs) = res_bind (f x) (\<lambda>y. res_bind (traverse f xs) (\<lambda>ys. Inr (y # ys)))"

lemma traverse_Inr_iff: "traverse f xs = Inr ys \<longleftrightarrow> list_all2 (\<lambda>x y. f x = Inr y) xs ys"
  by (induction xs arbitrary: ys) (auto simp: res_bind_Inr_iff list_all2_Cons1)

section \<open>Text\<close>

text \<open>\<open>str::contains\<close> and \<open>str::to_ascii_lowercase\<close>.\<close>

fun str_contains :: "string \<Rightarrow> string \<Rightarrow> bool" where
  "str_contains [] needle = (needle = [])"
| "str_contains (c # cs) needle = (take (length needle) (c # cs) = needle \<or> str_contains cs needle)"

definition to_ascii_lowercase :: "string \<Rightarrow> string" where
  "to_ascii_lowercase = map (\<lambda>c. if 65 \<le> (of_char c :: nat) \<and> (of_char c :: nat) \<le> 90
     then char_of ((of_char c :: nat) + 32) else c)"

lemma str_contains_iff: "str_contains s needle \<longleftrightarrow> (\<exists>us vs. s = us @ needle @ vs)"
proof (induction s)
  case (Cons c cs)
  have "take (length needle) (c # cs) = needle \<longleftrightarrow> (\<exists>vs. c # cs = needle @ vs)"
    by (metis append_eq_conv_conj append_take_drop_id)
  moreover have "(\<exists>us vs. c # cs = us @ needle @ vs) \<longleftrightarrow>
      (\<exists>vs. c # cs = needle @ vs) \<or> (\<exists>us vs. cs = us @ needle @ vs)"
    by (metis append_Cons append_Nil neq_Nil_conv list.inject)
  ultimately show ?case using Cons by simp
qed simp

section \<open>Observed procedures\<close>

text \<open>
  A procedure run with a log of the calls it makes: what a component asks of the outside, and
  in which order, is a statement about that log. \<open>asks Q m\<close> says that every call \<open>m\<close> adds
  to the log satisfies \<open>Q\<close>, whether it succeeds or fails.
\<close>

definition logged :: "'c \<Rightarrow> ('w, 'e, 'a) proc \<Rightarrow> ('w \<times> 'c list, 'e, 'a) proc" where
  "logged call m w = (case w of (v, calls) \<Rightarrow> (case m v of (r, v') \<Rightarrow> (r, (v', calls @ [call]))))"

definition asks :: "('c \<Rightarrow> bool) \<Rightarrow> ('w \<times> 'c list, 'e, 'a) proc \<Rightarrow> bool" where
  "asks Q m \<longleftrightarrow> (\<forall>w calls. \<exists>qs. snd (snd (m (w, calls))) = calls @ qs \<and> (\<forall>q \<in> set qs. Q q))"

named_theorems asks_intros "introduction rules for the calls of a procedure"

lemma logged_iff [simp]:
  "logged c m (v, calls) = (r, (v', calls')) \<longleftrightarrow> m v = (r, v') \<and> calls' = calls @ [c]"
  by (auto simp: logged_def split: prod.splits)

lemma logged_eq: "logged c m (v, calls) = (fst (m v), (snd (m v), calls @ [c]))"
  by (simp add: logged_def split: prod.splits)

lemma asksI:
  assumes "\<And>w calls r v calls'. m (w, calls) = (r, (v, calls')) \<Longrightarrow>
    \<exists>qs. calls' = calls @ qs \<and> (\<forall>q \<in> set qs. Q q)"
  shows "asks Q m"
  unfolding asks_def using assms by (metis prod.collapse)

lemma asksE:
  assumes "asks Q m" and "m (w, calls) = (r, (v, calls'))"
  obtains qs where "calls' = calls @ qs" and "\<And>q. q \<in> set qs \<Longrightarrow> Q q"
  using assms unfolding asks_def by (metis snd_conv)

lemma asks_weaken: "asks Q m \<Longrightarrow> (\<And>q. Q q \<Longrightarrow> R q) \<Longrightarrow> asks R m"
  unfolding asks_def by blast

lemma asks_logged [asks_intros]: "Q c \<Longrightarrow> asks Q (logged c m)"
  by (auto simp: asks_def logged_eq)

lemma asks_pure [asks_intros]:
  "asks Q (succeed x)" "asks Q (fail e)" "asks Q (lift_res r)" "asks Q (ensure b e)"
  by (simp_all add: asks_def proc_defs)

lemma asks_proc_err [asks_intros]: "asks Q m \<Longrightarrow> asks Q (proc_err f m)"
  by (simp add: asks_def proc_err_def split_beta)

lemma asks_and_then [asks_intros]:
  assumes "asks Q m" and "\<And>x w v. m w = (Inr x, v) \<Longrightarrow> asks Q (f x)"
  shows "asks Q (and_then m f)"
proof (rule asksI)
  fix w calls r v calls'
  assume run: "and_then m f (w, calls) = (r, (v, calls'))"
  obtain a u calls1 where m: "m (w, calls) = (a, (u, calls1))" by (metis prod.collapse)
  from asksE [OF assms(1) m] obtain qs where qs: "calls1 = calls @ qs" "\<And>q. q \<in> set qs \<Longrightarrow> Q q"
    by blast
  show "\<exists>qs. calls' = calls @ qs \<and> (\<forall>q \<in> set qs. Q q)"
  proof (cases a)
    case (Inl e)
    with m run qs show ?thesis by (auto simp: and_then_def)
  next
    case (Inr x)
    with m run have "f x (u, calls1) = (r, (v, calls'))" by (simp add: and_then_def)
    from asksE [OF assms(2) [OF m [unfolded Inr]] this] obtain rs where
      "calls' = calls1 @ rs" "\<And>q. q \<in> set rs \<Longrightarrow> Q q" by blast
    with qs show ?thesis by (intro exI [of _ "qs @ rs"]) auto
  qed
qed

section \<open>Invariants of procedures\<close>

text \<open>Operations that keep a property of the world, whatever they answer.\<close>

definition keeps :: "('w \<Rightarrow> bool) \<Rightarrow> ('w \<Rightarrow> 'a \<times> 'w) \<Rightarrow> bool" where
  "keeps I m \<longleftrightarrow> (\<forall>w. I w \<longrightarrow> I (snd (m w)))"

lemma keepsD: "keeps I m \<Longrightarrow> I w \<Longrightarrow> I (snd (m w))"
  by (simp add: keeps_def)

lemma keeps_rules:
  "keeps I (succeed x)" "keeps I (fail e)" "keeps I (lift_res r)" "keeps I (ensure b e)"
  "keeps I m \<Longrightarrow> keeps I (proc_err f m)"
  by (simp_all add: keeps_def proc_defs split_beta)

lemma keeps_and_then:
  assumes "keeps I m" and "\<And>x. keeps I (f x)"
  shows "keeps I (and_then m f)"
  using assms by (fastforce simp: keeps_def and_then_def split: prod.split sum.split)

section \<open>Three-valued comparison\<close>

datatype ordering = Less | Equal | Greater

definition compare :: "'a::linorder \<Rightarrow> 'a \<Rightarrow> ordering" where
  "compare a b = (if a < b then Less else if a = b then Equal else Greater)"

definition then_with :: "ordering \<Rightarrow> ordering \<Rightarrow> ordering" where
  "then_with a b = (if a = Equal then b else a)"

lemma compare_Greater_iff [simp]: "compare a b = Greater \<longleftrightarrow> b < a"
  by (auto simp: compare_def)

lemma compare_Equal_iff [simp]: "compare a b = Equal \<longleftrightarrow> a = b"
  by (auto simp: compare_def)

lemma compare_Less_iff [simp]: "compare a b = Less \<longleftrightarrow> a < b"
  by (auto simp: compare_def)

lemma then_with_Greater_iff: "then_with a b = Greater \<longleftrightarrow> a = Greater \<or> a = Equal \<and> b = Greater"
  by (auto simp: then_with_def)

section \<open>Iterators\<close>

text \<open>
  \<open>Iterator::max_by_key\<close>: the last of the elements whose key is maximal, \<open>None\<close> on an
  empty iterator.
\<close>

fun max_by_key :: "('a \<Rightarrow> 'b::linorder) \<Rightarrow> 'a list \<Rightarrow> 'a option" where
  "max_by_key f [] = None"
| "max_by_key f (x # xs) = Some (foldl (\<lambda>m y. if f m \<le> f y then y else m) x xs)"

lemma foldl_max_by_key:
  "foldl (\<lambda>m y. if f m \<le> f y then y else m) x xs \<in> insert x (set xs) \<and>
   (\<forall>y \<in> insert x (set xs). (f y :: 'b::linorder) \<le> f (foldl (\<lambda>m y. if f m \<le> f y then y else m) x xs))"
proof (induction xs arbitrary: x)
  case Nil
  then show ?case by simp
next
  case (Cons z xs)
  from Cons [of "if f x \<le> f z then z else x"] show ?case
    by (auto split: if_splits)
qed

lemma max_by_key_Some:
  assumes "max_by_key f xs = Some m"
  shows "m \<in> set xs" and "\<And>y. y \<in> set xs \<Longrightarrow> f y \<le> f m"
proof -
  from assms obtain x ys where "xs = x # ys" by (cases xs) auto
  with assms foldl_max_by_key [of f x ys] show "m \<in> set xs" and "\<And>y. y \<in> set xs \<Longrightarrow> f y \<le> f m"
    by auto
qed

lemma max_by_key_None [simp]: "max_by_key f xs = None \<longleftrightarrow> xs = []"
  by (cases xs) auto

end
