(* ===== verification/Core_Record.thy ===== *)
theory Core_Record
  imports Resurrect_Prelude
begin

text \<open>
  \<open>crates/resurrect-core/src/peer_record.rs\<close>: the normalized peer candidate, the codec
  interface with its errors, and the identity key under which candidates are stored.
\<close>

section \<open>Data\<close>

definition RECORD_TYPE_ENR :: u32 where "RECORD_TYPE_ENR = 1"
definition RECORD_TYPE_LIBP2P :: u32 where "RECORD_TYPE_LIBP2P = 2"

datatype dial_context = NativeServer | Browser | Mobile | RestrictedEgress

record endpoint =
  ep_address :: string

datatype discovery_source_kind = LocalCache | Native | ResurrectRegistry

record peer_candidate =
  pc_record_type :: u32
  pc_peer_id :: bytes
  pc_sequence :: u64
  pc_endpoints :: "endpoint list"
  pc_raw_signed_record :: bytes
  pc_expires_at :: u64
  pc_source :: discovery_source_kind
  pc_announcement_block :: "u64 option"
  pc_announcement_log_index :: "u64 option"

datatype peer_record_error =
    InvalidSize nat
  | Malformed string
  | InvalidSignature
  | IdentityMismatch
  | NoUsableEndpoint dial_context
  | TooManyEndpoints nat

section \<open>Identity keys\<close>

definition make_key :: "u32 \<Rightarrow> bytes \<Rightarrow> bytes" where
  "make_key record_type peer = be_bytes 4 record_type @ peer"

definition identity_key :: "peer_candidate \<Rightarrow> bytes" where
  "identity_key c = be_bytes 4 (pc_record_type c) @ pc_peer_id c"

lemma identity_key_make_key: "identity_key c = make_key (pc_record_type c) (pc_peer_id c)"
  by (simp add: identity_key_def make_key_def)

lemma make_key_inj: "make_key t p = make_key u q \<Longrightarrow> t = u \<and> p = q"
proof -
  assume "make_key t p = make_key u q"
  then have "be_bytes 4 t = be_bytes 4 u \<and> p = q" by (simp add: make_key_def)
  then show ?thesis using be_bytes_inj [of 4 t u] by simp
qed

text \<open>
  The identity key is injective on the pair of record type and peer identity, so two
  candidates share a key exactly when the same codec gave them the same identity. Records of
  different codecs never collide, whatever their identity bytes.
\<close>

theorem identity_key_separates:
  "identity_key a = identity_key b \<longleftrightarrow>
   pc_record_type a = pc_record_type b \<and> pc_peer_id a = pc_peer_id b"
  using make_key_inj by (auto simp: identity_key_make_key)

section \<open>Byte strings in JSON\<close>

text \<open>
  The serde module \<open>hex_bytes\<close>: \<open>0x\<close> and the digits of the \<open>hex\<close> package, which are arguments. A
  string that a record was written as is read back; without the prefix nothing is.
\<close>

definition hex_bytes_serialize :: "(bytes \<Rightarrow> string) \<Rightarrow> bytes \<Rightarrow> string" where
  "hex_bytes_serialize hex_encode b = ''0x'' @ hex_encode b"

definition hex_bytes_deserialize :: "(string \<Rightarrow> string + bytes) \<Rightarrow> string \<Rightarrow> string + bytes" where
  "hex_bytes_deserialize hex_decode s =
     (case s of
        c # d # stripped \<Rightarrow> if [c, d] = ''0x'' then hex_decode stripped else Inl ''byte strings must be 0x-prefixed''
      | _ \<Rightarrow> Inl ''byte strings must be 0x-prefixed'')"

lemma hex_bytes_roundtrip:
  "hex_decode (hex_encode b) = Inr b \<Longrightarrow> hex_bytes_deserialize hex_decode (hex_bytes_serialize hex_encode b) = Inr b"
  by (simp add: hex_bytes_deserialize_def hex_bytes_serialize_def)

lemma hex_bytes_prefix:
  "hex_bytes_deserialize hex_decode s = Inr b \<Longrightarrow> \<exists>digits. s = ''0x'' @ digits \<and> hex_decode digits = Inr b"
  by (auto simp: hex_bytes_deserialize_def split: list.splits if_splits)

section \<open>Codecs\<close>

text \<open>
  The trait \<open>PeerRecordCodec\<close>: an identifier and a verifying decoder. Codecs are pure: they
  read the raw bytes and the dial context and nothing else.
\<close>

record peer_codec =
  codec_record_type :: u32
  decode_and_verify :: "bytes \<Rightarrow> dial_context \<Rightarrow> peer_record_error + peer_candidate"

text \<open>
  The contract the registry scanner relies on: an accepted record carries the codec's own type,
  the raw bytes it was decoded from, and at least one endpoint.
\<close>

locale verifying_codec =
  fixes codec :: peer_codec
  assumes decoded_type:
      "decode_and_verify codec raw ctx = Inr c \<Longrightarrow> pc_record_type c = codec_record_type codec"
    and decoded_raw:
      "decode_and_verify codec raw ctx = Inr c \<Longrightarrow> pc_raw_signed_record c = raw"
    and decoded_endpoints:
      "decode_and_verify codec raw ctx = Inr c \<Longrightarrow> pc_endpoints c \<noteq> []"
    and decoded_nonempty:
      "decode_and_verify codec raw ctx = Inr c \<Longrightarrow> raw \<noteq> []"
begin

lemmas decoded = decoded_type decoded_raw decoded_endpoints decoded_nonempty

lemma decoded_key:
  "decode_and_verify codec raw ctx = Inr c \<Longrightarrow>
   identity_key c = make_key (codec_record_type codec) (pc_peer_id c)"
  by (simp add: identity_key_make_key decoded_type)

lemma empty_record_rejected: "\<exists>e. decode_and_verify codec [] ctx = Inl e"
  using decoded_nonempty [of "[]" ctx] by (cases "decode_and_verify codec [] ctx") auto

end

end
