(* ===== verification/Core_Namespace.thy ===== *)
theory Core_Namespace
  imports Resurrect_Prelude
begin

text \<open>
  \<open>crates/resurrect-core/src/namespace.rs\<close>: namespaces and their derivation. The hash
  \<open>keccak256\<close> of the \<open>alloy-primitives\<close> package is the parameter \<open>keccak\<close>; 32-byte values
  (\<open>B256\<close>) are words of 256 bits, whose unsigned order is the byte-wise order of Rust's
  derived \<open>Ord\<close>. The textual form of a \<open>B256\<close> is printed and parsed by the same package, so
  \<open>show_b256\<close> and \<open>parse_b256\<close> are parameters too.
\<close>

datatype namespace = Namespace (as_b256: b256)

datatype namespace_error = InvalidHex

definition as_bytes :: "namespace \<Rightarrow> bytes" where
  "as_bytes ns = be_bytes 32 (as_b256 ns)"

text \<open>\<open>B256::new\<close> of 32 bytes, most significant byte first.\<close>

definition of_be_bytes :: "bytes \<Rightarrow> 'a::len word" where
  "of_be_bytes bs = foldl (\<lambda>a b. or (push_bit 8 a) (ucast b)) 0 bs"

definition namespace_from_bytes :: "bytes \<Rightarrow> namespace" where
  "namespace_from_bytes bs = Namespace (of_be_bytes bs)"

lemma bit_of_be_bytes:
  "bit (of_be_bytes bs :: 'a::len word) i \<longleftrightarrow>
     i < LENGTH('a) \<and> i < 8 * length bs \<and> bit (bs ! (length bs - 1 - i div 8)) (i mod 8)"
proof (induction bs arbitrary: i rule: rev_induct)
  case (snoc b bs)
  have step: "of_be_bytes (bs @ [b]) = or (push_bit 8 (of_be_bytes bs :: 'a word)) (ucast b)"
    by (simp add: of_be_bytes_def)
  show ?case
  proof (cases "i < 8")
    case True
    then show ?thesis by (auto simp: step bit_simps nth_append dest: bit_imp_le_length)
  next
    case False
    then have i: "(i - 8) div 8 = i div 8 - 1" "(i - 8) mod 8 = i mod 8" by (simp_all add: le_div_geq le_mod_geq)
    have "\<not> bit (ucast b :: 'a word) i" using False by (auto simp: bit_simps dest: bit_imp_le_length)
    then show ?thesis using False by (auto simp: step bit_or_iff bit_push_bit_iff snoc.IH i nth_append)
  qed
qed (simp add: of_be_bytes_def)

lemma namespace_from_as_bytes [simp]: "namespace_from_bytes (as_bytes ns) = ns"
proof -
  have "of_be_bytes (be_bytes 32 w) = w" for w :: b256
    by (rule bit_word_eqI) (simp add: bit_of_be_bytes be_bytes_bit [of _ 32 w])
  then show ?thesis by (simp add: namespace_from_bytes_def as_bytes_def)
qed

definition derive_preimage :: "string \<Rightarrow> u64 \<Rightarrow> string" where
  "derive_preimage application major =
     ''resurrect:'' @ application @ '':'' @ decimal (unat major)"

definition derive :: "(bytes \<Rightarrow> b256) \<Rightarrow> string \<Rightarrow> u64 \<Rightarrow> namespace" where
  "derive keccak application major =
     Namespace (keccak (string_bytes (derive_preimage application major)))"

definition namespace_display :: "(b256 \<Rightarrow> string) \<Rightarrow> namespace \<Rightarrow> string" where
  "namespace_display show_b256 ns = show_b256 (as_b256 ns)"

definition namespace_from_str :: "(string \<Rightarrow> b256 option) \<Rightarrow> string \<Rightarrow> namespace_error + namespace" where
  "namespace_from_str parse_b256 s =
     (case parse_b256 s of None \<Rightarrow> Inl InvalidHex | Some b \<Rightarrow> Inr (Namespace b))"

text \<open>Serde writes the canonical text and reads what \<open>FromStr\<close> accepts.\<close>

definition namespace_serialize :: "(b256 \<Rightarrow> string) \<Rightarrow> namespace \<Rightarrow> string" where
  "namespace_serialize show_b256 ns = namespace_display show_b256 ns"

definition namespace_deserialize ::
  "(string \<Rightarrow> b256 option) \<Rightarrow> (namespace_error \<Rightarrow> string) \<Rightarrow> string \<Rightarrow> string + namespace"
where
  "namespace_deserialize parse_b256 error_text s = map_err error_text (namespace_from_str parse_b256 s)"

lemma namespace_serde:
  "parse_b256 (show_b256 (as_b256 ns)) = Some (as_b256 ns) \<Longrightarrow>
     namespace_deserialize parse_b256 error_text (namespace_serialize show_b256 ns) = Inr ns"
  by (simp add: namespace_deserialize_def namespace_serialize_def namespace_display_def namespace_from_str_def)

lemma as_bytes_inj: "as_bytes a = as_bytes b \<Longrightarrow> a = b"
  using be_bytes_inj [of 32 "as_b256 a" "as_b256 b"] by (simp add: as_bytes_def namespace.expand)

lemma length_as_bytes [simp]: "length (as_bytes ns) = 32"
  by (simp add: as_bytes_def)

text \<open>The version digits contain no colon, so the last colon of a preimage ends the identifier.\<close>

lemma decimal_no_colon: "CHR '':'' \<notin> set (decimal n)"
  using decimal_digits [of n] by (auto simp: list_all_iff is_ascii_digit_def)

lemma split_last_colon:
  assumes "a @ CHR '':'' # x = b @ CHR '':'' # y"
    and "CHR '':'' \<notin> set x" and "CHR '':'' \<notin> set y"
  shows "a = b \<and> x = y"
  using assms
proof (induction a arbitrary: b)
  case Nil
  then show ?case by (cases b) auto
next
  case (Cons c a)
  then show ?case by (cases b) auto
qed

lemma derive_preimage_inj:
  assumes "derive_preimage a m = derive_preimage b n"
  shows "a = b \<and> m = n"
proof -
  from assms have "a @ CHR '':'' # decimal (unat m) = b @ CHR '':'' # decimal (unat n)"
    by (simp add: derive_preimage_def)
  from split_last_colon [OF this decimal_no_colon decimal_no_colon]
  have "a = b \<and> decimal (unat m) = decimal (unat n)" .
  then show ?thesis using decimal_inj [of "unat m" "unat n"] by (auto simp: word_unat_eq_iff)
qed

text \<open>
  Two applications (or two major versions) share a derived namespace only through a hash
  collision: if the hash separates the two preimages, the namespaces are equal exactly when
  the identifiers and the versions are. The identifier may itself contain colons and digits.
\<close>

theorem derive_separates:
  assumes "inj_on keccak {string_bytes (derive_preimage a m), string_bytes (derive_preimage b n)}"
  shows "derive keccak a m = derive keccak b n \<longleftrightarrow> a = b \<and> m = n"
proof
  assume "derive keccak a m = derive keccak b n"
  with assms have "string_bytes (derive_preimage a m) = string_bytes (derive_preimage b n)"
    by (auto simp: derive_def dest: inj_onD)
  then show "a = b \<and> m = n" by (blast dest: string_bytes_inj derive_preimage_inj)
qed auto

theorem derive_separates_witness:
  "derive (\<lambda>bs. foldl (\<lambda>a b. a * 256 + ucast b) 0 bs) ''a:1'' 2 \<noteq>
         derive (\<lambda>bs. foldl (\<lambda>a b. a * 256 + ucast b) 0 bs) ''a'' 12"
proof -
  have "inj_on (\<lambda>bs. foldl (\<lambda>a b. a * 256 + ucast b) (0 :: b256) bs)
     {string_bytes (derive_preimage ''a:1'' 2), string_bytes (derive_preimage ''a'' 12)}"
    by (simp add: string_bytes_def derive_preimage_def decimal.simps digit_char_def)
  from derive_separates [OF this] show ?thesis by simp
qed

end
