(* ===== verification/Core_Descriptor.thy ===== *)
theory Core_Descriptor
  imports Core_Namespace
begin

text \<open>
  \<open>crates/resurrect-core/src/descriptor.rs\<close>: network descriptors, their validation, their
  canonical form and the JSON encodings of the chain identifier and the deployment block. The
  JSON library is not modelled: \<open>from_json\<close> and \<open>canonical_json\<close> take its parser and printer
  as parameters, and the two field encodings are modelled as functions to and from the JSON
  scalar that the library hands to the visitor. The decimal text of a 256-bit integer is
  printed and parsed by the \<open>alloy-primitives\<close> package, hence also a parameter; that of a
  64-bit integer by Rust's standard library, hence modelled.
\<close>

section \<open>Data and constants\<close>

type_synonym address = "160 word"

definition MAX_TTL_SECONDS :: u32 where "MAX_TTL_SECONDS = 90 * 24 * 60 * 60"
definition RESURRECT_VERSION :: u32 where "RESURRECT_VERSION = 1"
definition ETHEREUM_MAINNET_CHAIN_ID :: u64 where "ETHEREUM_MAINNET_CHAIN_ID = 1"

definition ETHEREUM_MAINNET_REGISTRY_ADDRESS :: address where
  "ETHEREUM_MAINNET_REGISTRY_ADDRESS = 0x136c191B5e6541532E42Ecd7C719C29D7ecdf468"

definition ETHEREUM_MAINNET_REGISTRY_DEPLOYMENT_BLOCK :: u64 where
  "ETHEREUM_MAINNET_REGISTRY_DEPLOYMENT_BLOCK = 25943058"

record registry_descriptor =
  rd_chain_id :: u256
  rd_address :: address
  rd_deployment_block :: u64
  rd_max_ttl_seconds :: u32

record network_descriptor =
  nd_resurrect_version :: u32
  nd_registry :: registry_descriptor
  nd_namespace :: namespace
  nd_accepted_record_types :: "u32 list"

datatype descriptor_error =
    Json string
  | UnsupportedVersion u32
  | UnexpectedMaxTtl u32 u32 \<comment> \<open>expected, actual\<close>
  | NoAcceptedRecordTypes
  | DuplicateRecordType u32
  | DescriptorWrongChain u256 u256 \<comment> \<open>expected, actual\<close>

definition ethereum_mainnet_registry :: registry_descriptor where
  "ethereum_mainnet_registry =
     \<lparr> rd_chain_id = ucast ETHEREUM_MAINNET_CHAIN_ID,
       rd_address = ETHEREUM_MAINNET_REGISTRY_ADDRESS,
       rd_deployment_block = ETHEREUM_MAINNET_REGISTRY_DEPLOYMENT_BLOCK,
       rd_max_ttl_seconds = MAX_TTL_SECONDS \<rparr>"

section \<open>Validation\<close>

text \<open>The loop over a \<open>HashSet\<close>: the first record type that was already inserted.\<close>

fun first_duplicate :: "u32 set \<Rightarrow> u32 list \<Rightarrow> u32 option" where
  "first_duplicate unique [] = None"
| "first_duplicate unique (t # ts) =
     (if t \<in> unique then Some t else first_duplicate (insert t unique) ts)"

definition validate :: "network_descriptor \<Rightarrow> descriptor_error + unit" where
  "validate d =
     (if nd_resurrect_version d \<noteq> RESURRECT_VERSION
      then Inl (UnsupportedVersion (nd_resurrect_version d))
      else if rd_max_ttl_seconds (nd_registry d) \<noteq> MAX_TTL_SECONDS
      then Inl (UnexpectedMaxTtl MAX_TTL_SECONDS (rd_max_ttl_seconds (nd_registry d)))
      else if nd_accepted_record_types d = [] then Inl NoAcceptedRecordTypes
      else (case first_duplicate {} (nd_accepted_record_types d) of
              Some t \<Rightarrow> Inl (DuplicateRecordType t)
            | None \<Rightarrow> Inr ()))"

definition verify_chain_id :: "network_descriptor \<Rightarrow> u256 \<Rightarrow> descriptor_error + unit" where
  "verify_chain_id d actual =
     (if actual \<noteq> rd_chain_id (nd_registry d)
      then Inl (DescriptorWrongChain (rd_chain_id (nd_registry d)) actual) else Inr ())"

definition ethereum_mainnet :: "namespace \<Rightarrow> u32 list \<Rightarrow> descriptor_error + network_descriptor" where
  "ethereum_mainnet ns types =
     (let descriptor = \<lparr> nd_resurrect_version = RESURRECT_VERSION,
                         nd_registry = ethereum_mainnet_registry,
                         nd_namespace = ns, nd_accepted_record_types = types \<rparr>
      in res_bind (validate descriptor) (\<lambda>_. Inr descriptor))"

definition from_json ::
  "(string \<Rightarrow> string + network_descriptor) \<Rightarrow> string \<Rightarrow> descriptor_error + network_descriptor"
where
  "from_json parse json =
     res_bind (map_err Json (parse json)) (\<lambda>descriptor.
       res_bind (validate descriptor) (\<lambda>_. Inr descriptor))"

definition normalized :: "network_descriptor \<Rightarrow> network_descriptor" where
  "normalized d = d\<lparr> nd_accepted_record_types := sort (nd_accepted_record_types d) \<rparr>"

definition canonical_json ::
  "(network_descriptor \<Rightarrow> string + string) \<Rightarrow> network_descriptor \<Rightarrow> descriptor_error + string"
where
  "canonical_json print d = res_bind (validate d) (\<lambda>_. map_err Json (print (normalized d)))"

lemma first_duplicate_None:
  "first_duplicate U ts = None \<longleftrightarrow> distinct ts \<and> set ts \<inter> U = {}"
  by (induction ts arbitrary: U) auto

lemma first_duplicate_SomeD:
  "first_duplicate U ts = Some t \<Longrightarrow>
   \<exists>us vs. ts = us @ t # vs \<and> distinct us \<and> set us \<inter> U = {} \<and> t \<in> set us \<union> U"
proof (induction ts arbitrary: U)
  case Nil
  then show ?case by simp
next
  case (Cons x ts)
  show ?case
  proof (cases "x \<in> U")
    case True
    with Cons.prems show ?thesis by (intro exI [of _ "[]"] exI [of _ ts]) auto
  next
    case False
    with Cons.prems have "first_duplicate (insert x U) ts = Some t" by simp
    from Cons.IH [OF this] obtain us vs where
      "ts = us @ t # vs" "distinct us" "set us \<inter> insert x U = {}" "t \<in> set us \<union> insert x U"
      by blast
    with False show ?thesis by (intro exI [of _ "x # us"] exI [of _ vs]) auto
  qed
qed

definition valid_descriptor :: "network_descriptor \<Rightarrow> bool" where
  "valid_descriptor d \<longleftrightarrow>
     nd_resurrect_version d = RESURRECT_VERSION \<and>
     rd_max_ttl_seconds (nd_registry d) = MAX_TTL_SECONDS \<and>
     nd_accepted_record_types d \<noteq> [] \<and> distinct (nd_accepted_record_types d)"

definition ethereum_mainnet_descriptor :: "u32 list \<Rightarrow> network_descriptor" where
  "ethereum_mainnet_descriptor types =
     \<lparr> nd_resurrect_version = RESURRECT_VERSION, nd_registry = ethereum_mainnet_registry,
       nd_namespace = Namespace 0, nd_accepted_record_types = types \<rparr>"

lemma validate_Inr_iff: "validate d = Inr () \<longleftrightarrow> valid_descriptor d"
proof -
  let ?ts = "nd_accepted_record_types d"
  have "(case first_duplicate {} ?ts of Some t \<Rightarrow> Inl (DuplicateRecordType t) | None \<Rightarrow> Inr ()) = Inr ()
        \<longleftrightarrow> distinct ?ts"
    using first_duplicate_None [of "{}" ?ts] by (auto split: option.splits)
  then show ?thesis by (simp add: validate_def valid_descriptor_def)
qed

text \<open>
  C36: validation accepts exactly the version 1 descriptors with the protocol's TTL and a
  non-empty list of pairwise different record types; a rejected one reports the first violated
  invariant, with the offending value: the version before the TTL, the TTL before the record
  types; a duplicate is the first record type that already occurred, everything before it
  being pairwise different.
\<close>

theorem validate_outcome:
  "(validate d = Inr () \<longleftrightarrow> valid_descriptor d) \<and>
   (validate d = Inl e \<longrightarrow>
    (case e of
      UnsupportedVersion v \<Rightarrow> v = nd_resurrect_version d \<and> v \<noteq> RESURRECT_VERSION
    | UnexpectedMaxTtl expected actual \<Rightarrow>
        nd_resurrect_version d = RESURRECT_VERSION \<and> expected = MAX_TTL_SECONDS \<and>
        actual = rd_max_ttl_seconds (nd_registry d) \<and> actual \<noteq> expected
    | NoAcceptedRecordTypes \<Rightarrow>
        nd_resurrect_version d = RESURRECT_VERSION \<and>
        rd_max_ttl_seconds (nd_registry d) = MAX_TTL_SECONDS \<and> nd_accepted_record_types d = []
    | DuplicateRecordType t \<Rightarrow>
        nd_resurrect_version d = RESURRECT_VERSION \<and>
        rd_max_ttl_seconds (nd_registry d) = MAX_TTL_SECONDS \<and>
        (\<exists>us vs. nd_accepted_record_types d = us @ t # vs \<and> distinct us \<and> t \<in> set us)
    | _ \<Rightarrow> False))"
  using first_duplicate_SomeD [of "{}" "nd_accepted_record_types d"]
  by (auto simp: validate_Inr_iff) (auto simp: validate_def split: if_splits option.splits, blast)

theorem validate_outcome_witness:
  "validate (ethereum_mainnet_descriptor [2, 1, 2]) = Inl (DuplicateRecordType 2) \<and>
   (\<exists>us vs. [2, 1, 2 :: u32] = us @ 2 # vs \<and> distinct us \<and> 2 \<in> set us)"
proof -
  have "validate (ethereum_mainnet_descriptor [2, 1, 2]) = Inl (DuplicateRecordType 2)"
    by (simp add: validate_def ethereum_mainnet_descriptor_def ethereum_mainnet_registry_def)
  with validate_outcome [of "ethereum_mainnet_descriptor [2, 1, 2]" "DuplicateRecordType 2"]
  show ?thesis by (simp add: ethereum_mainnet_descriptor_def)
qed

section \<open>Canonical form\<close>

lemma valid_normalized: "valid_descriptor d \<Longrightarrow> valid_descriptor (normalized d)"
  by (simp add: valid_descriptor_def normalized_def) (metis set_empty set_sort)

lemma normalized_idem: "normalized (normalized d) = normalized d"
  by (simp add: normalized_def sorted_sort_id)

lemma normalized_set_eq:
  assumes "valid_descriptor d" and "valid_descriptor d'"
    and "nd_registry d = nd_registry d'" and "nd_namespace d = nd_namespace d'"
    and "set (nd_accepted_record_types d) = set (nd_accepted_record_types d')"
  shows "normalized d = normalized d'"
proof -
  have "sort (nd_accepted_record_types d) = sort (nd_accepted_record_types d')"
    using assms by (intro sorted_distinct_set_unique) (auto simp: valid_descriptor_def)
  with assms show ?thesis
    by (cases d, cases d') (simp add: normalized_def valid_descriptor_def)
qed

text \<open>
  The canonical JSON is canonical: two valid descriptors that agree on registry and
  namespace and accept the same set of record types, in whatever order, have the same text,
  and a printer whose output the parser reads back makes parsing that text give the descriptor
  with sorted record types, which is valid and is its own canonical form.
\<close>

theorem canonical_json_canonical:
  assumes "print (normalized d) = Inr json" and "parse json = Inr (normalized d)"
    and "valid_descriptor d" and "valid_descriptor d'"
    and "nd_registry d = nd_registry d'" and "nd_namespace d = nd_namespace d'"
    and "set (nd_accepted_record_types d) = set (nd_accepted_record_types d')"
  shows "canonical_json print d = Inr json \<and> canonical_json print d' = Inr json \<and>
    from_json parse json = Inr (normalized d) \<and> canonical_json print (normalized d) = Inr json"
proof -
  have v: "validate d = Inr ()" "validate d' = Inr ()" "validate (normalized d) = Inr ()"
    using assms(3,4) by (simp_all add: validate_Inr_iff valid_normalized)
  have "normalized d = normalized d'" using assms by (intro normalized_set_eq)
  with v assms(1,2) show ?thesis
    by (simp add: canonical_json_def from_json_def normalized_idem)
qed

theorem canonical_json_canonical_witness:
  "canonical_json (\<lambda>_. Inr ''{}'') (ethereum_mainnet_descriptor [1, 2]) =
   canonical_json (\<lambda>_. Inr ''{}'') (ethereum_mainnet_descriptor [2, 1])"
proof -
  let ?d = "ethereum_mainnet_descriptor [1, 2]" and ?d' = "ethereum_mainnet_descriptor [2, 1]"
  have v: "valid_descriptor ?d" "valid_descriptor ?d'"
    by (simp_all add: valid_descriptor_def ethereum_mainnet_descriptor_def
        ethereum_mainnet_registry_def)
  have "nd_registry ?d = nd_registry ?d'" "nd_namespace ?d = nd_namespace ?d'"
    "set (nd_accepted_record_types ?d) = set (nd_accepted_record_types ?d')"
    by (auto simp: ethereum_mainnet_descriptor_def)
  from canonical_json_canonical [where print = "\<lambda>_. Inr ''{}''" and parse = "\<lambda>_. Inr (normalized ?d)",
      OF refl refl v this]
  show ?thesis by simp
qed

section \<open>The JSON encodings of the chain identifier and the deployment block\<close>

datatype json_scalar = JsonU64 u64 | JsonStr string | JsonOther

definition MAX_SAFE_JSON_INTEGER :: u64 where "MAX_SAFE_JSON_INTEGER = 9007199254740991"

text \<open>The canonical unsigned decimal check that both visitors apply to a string.\<close>

definition canonical_digits :: "string \<Rightarrow> bool" where
  "canonical_digits s \<longleftrightarrow>
     \<not> (s = [] \<or> (1 < length s \<and> hd s = CHR ''0'') \<or> \<not> list_all is_ascii_digit s)"

definition u64_to_string :: "u64 \<Rightarrow> string" where
  "u64_to_string v = decimal (unat v)"

definition u64_from_str :: "string \<Rightarrow> u64 option" where
  "u64_from_str s = map_option word_of_nat (parse_unsigned (2 ^ 64) s)"

definition deployment_block_serialize :: "u64 \<Rightarrow> json_scalar" where
  "deployment_block_serialize v =
     (if v \<le> MAX_SAFE_JSON_INTEGER then JsonU64 v else JsonStr (u64_to_string v))"

fun deployment_block_deserialize :: "json_scalar \<Rightarrow> string + u64" where
  "deployment_block_deserialize (JsonU64 v) = Inr v"
| "deployment_block_deserialize (JsonStr s) =
     (if \<not> canonical_digits s
      then Inl ''deploymentBlock must be a canonical unsigned decimal integer''
      else (case u64_from_str s of None \<Rightarrow> Inl ''parse error'' | Some v \<Rightarrow> Inr v))"
| "deployment_block_deserialize JsonOther = Inl ''invalid type''"

definition chain_id_serialize :: "(u256 \<Rightarrow> string) \<Rightarrow> u256 \<Rightarrow> json_scalar" where
  "chain_id_serialize u256_to_string v =
     (if unat v < 2 ^ 64 \<and> (ucast v :: u64) \<le> MAX_SAFE_JSON_INTEGER
      then JsonU64 (ucast v) else JsonStr (u256_to_string v))"

fun chain_id_deserialize :: "(string \<Rightarrow> string + u256) \<Rightarrow> json_scalar \<Rightarrow> string + u256" where
  "chain_id_deserialize u256_parse (JsonU64 v) = Inr (ucast v)"
| "chain_id_deserialize u256_parse (JsonStr s) =
     (if \<not> canonical_digits s
      then Inl ''chainId must be a canonical unsigned decimal integer''
      else u256_parse s)"
| "chain_id_deserialize u256_parse JsonOther = Inl ''invalid type''"

lemma canonical_digits_decimal [simp]: "canonical_digits (decimal n)"
proof -
  have "\<not> (1 < length (decimal n) \<and> hd (decimal n) = CHR ''0'')"
    using decimal_leading [of n] by (cases "n = 0") (auto simp: decimal_0)
  then show ?thesis by (simp add: canonical_digits_def decimal_digits)
qed

lemma canonical_digits_iff: "canonical_digits s \<longleftrightarrow> (\<exists>n. s = decimal n)"
proof
  assume "canonical_digits s"
  then have "decimal (digits_value s) = s"
    by (intro decimal_digits_value) (auto simp: canonical_digits_def)
  then show "\<exists>n. s = decimal n" by metis
qed auto

lemma u64_from_str_decimal:
  "u64_from_str (decimal n) = (if n < 2 ^ 64 then Some (word_of_nat n) else None)"
  by (simp add: u64_from_str_def parse_unsigned_digits decimal_digits)

text \<open>
  The deployment block round-trips through its JSON encoding, never as a number that a
  double-precision reader could round, and a string is accepted exactly when it is the decimal
  text, without sign or leading zero, of a 64-bit value, which it then denotes.
\<close>

theorem deployment_block_roundtrip:
  "deployment_block_deserialize (deployment_block_serialize b) = Inr b \<and>
   (\<forall>v. deployment_block_serialize b = JsonU64 v \<longrightarrow> unat v < 2 ^ 53) \<and>
   (deployment_block_deserialize (JsonStr s) = Inr b \<longleftrightarrow> s = decimal (unat b))"
proof (intro conjI allI impI)
  have b: "unat b < 2 ^ 64" using unat_less_pow [of b] by simp
  show "deployment_block_deserialize (deployment_block_serialize b) = Inr b"
    using b by (simp add: deployment_block_serialize_def u64_to_string_def u64_from_str_decimal)
  show "unat v < 2 ^ 53" if "deployment_block_serialize b = JsonU64 v" for v
    using that by (auto simp: deployment_block_serialize_def MAX_SAFE_JSON_INTEGER_def
        word_le_nat_alt split: if_splits)
  show "deployment_block_deserialize (JsonStr s) = Inr b \<longleftrightarrow> s = decimal (unat b)"
  proof
    assume a: "deployment_block_deserialize (JsonStr s) = Inr b"
    then obtain n where "s = decimal n" by (auto simp: canonical_digits_iff split: if_splits)
    with a show "s = decimal (unat b)"
      by (auto simp: u64_from_str_decimal unsigned_of_nat take_bit_nat_eq_self split: if_splits)
  next
    assume "s = decimal (unat b)"
    with b show "deployment_block_deserialize (JsonStr s) = Inr b"
      by (simp add: u64_from_str_decimal)
  qed
qed

theorem deployment_block_roundtrip_witness:
  "deployment_block_deserialize (deployment_block_serialize 18446744073709551615) = Inr 18446744073709551615 \<and>
   deployment_block_deserialize (JsonStr ''5'') = Inr 5"
proof -
  have "''5'' = decimal (unat (5 :: u64))" by code_simp
  with deployment_block_roundtrip [of 5 "''5''"] deployment_block_roundtrip [of 18446744073709551615 "''5''"]
  show ?thesis by blast
qed

text \<open>
  A chain identifier of any width round-trips, given that the 256-bit integer library
  prints decimal text and reads it back; identifiers beyond the range that JSON numbers carry
  exactly are written as strings.
\<close>

theorem chain_id_roundtrip:
  assumes "\<And>v. u256_to_string v = decimal (unat v)"
    and "\<And>n. n < 2 ^ 256 \<Longrightarrow> u256_parse (decimal n) = Inr (word_of_nat n)"
  shows "chain_id_deserialize u256_parse (chain_id_serialize u256_to_string c) = Inr c \<and>
    (chain_id_serialize u256_to_string c = JsonStr (decimal (unat c)) \<longleftrightarrow> 2 ^ 53 \<le> unat c)"
proof -
  have c: "unat c < 2 ^ 256" using unat_less_pow [of c] by simp
  have u: "unat (ucast c :: u64) = unat c" if "unat c < 2 ^ 64"
    using that by (simp add: unsigned_ucast_eq take_bit_nat_eq_self)
  then have "(ucast (ucast c :: u64) :: u256) = c" if "unat c < 2 ^ 64"
    using that u by (simp add: word_unat_eq_iff unsigned_ucast_eq unsigned_take_bit_eq take_bit_nat_eq_self)
  with assms c u show ?thesis
    by (auto simp: chain_id_serialize_def MAX_SAFE_JSON_INTEGER_def word_le_nat_alt
        split: if_splits)
qed

theorem chain_id_roundtrip_witness:
  "chain_id_deserialize (\<lambda>s. case parse_unsigned (2 ^ 256) s of None \<Rightarrow> Inl ''overflow''
       | Some n \<Rightarrow> Inr (word_of_nat n))
     (chain_id_serialize (\<lambda>v. decimal (unat v)) (- 1)) = Inr (- 1)"
proof -
  have "(case parse_unsigned (2 ^ 256) (decimal n) of None \<Rightarrow> Inl ''overflow''
       | Some n \<Rightarrow> Inr (word_of_nat n)) = Inr (word_of_nat n :: u256)" if "n < 2 ^ 256" for n
    using that by (simp add: parse_unsigned_decimal)
  from chain_id_roundtrip [OF refl this, of "- 1"] show ?thesis by simp
qed

end
