(* ===== verification/Core_Validation.thy ===== *)
theory Core_Validation
  imports Core_Record Core_Descriptor
begin

text \<open>
  The envelope validation of \<open>crates/resurrect-core/src/validation.rs\<close>: announcements, the
  policy they are checked against, the registry of accepted codecs and
  \<open>CodecRegistry::validate_announcement\<close>.
\<close>

section \<open>Data\<close>

definition DEFAULT_MAX_RECORD_BYTES :: nat where "DEFAULT_MAX_RECORD_BYTES = 4096"
definition DEFAULT_MAX_ENDPOINTS_PER_RECORD :: nat where "DEFAULT_MAX_ENDPOINTS_PER_RECORD = 16"
definition DEFAULT_MAX_ACTIVE_CANDIDATES :: nat where "DEFAULT_MAX_ACTIVE_CANDIDATES = 256"

record announcement =
  an_namespace :: namespace
  an_record_type :: u32
  an_valid_until :: u64
  an_peer_record :: bytes
  an_block_number :: u64
  an_log_index :: u64
  an_block_hash :: "b256 option"

record announcement_policy =
  ap_expected_namespace :: namespace
  ap_accepted_record_types :: "u32 list"
  ap_chain_time :: u64
  ap_max_record_bytes :: nat
  ap_max_endpoints :: nat
  ap_dial_context :: dial_context

datatype announcement_error =
    WrongNamespace
  | UnsupportedRecordType u32
  | Expired u64 u64 \<comment> \<open>valid until, chain time\<close>
  | InvalidRecordSize nat
  | CodecTypeMismatch u32 u32 \<comment> \<open>announced, decoded\<close>
  | PeerRecord peer_record_error

section \<open>The codec registry\<close>

type_synonym codec_registry = "u32 \<rightharpoonup> peer_codec"

definition new_registry :: codec_registry where
  "new_registry = Map.empty"

definition register :: "codec_registry \<Rightarrow> peer_codec \<Rightarrow> codec_registry" where
  "register codecs codec = codecs(codec_record_type codec \<mapsto> codec)"

definition registry_contains :: "codec_registry \<Rightarrow> u32 \<Rightarrow> bool" where
  "registry_contains codecs record_type = (codecs record_type \<noteq> None)"

definition validate_announcement ::
  "codec_registry \<Rightarrow> announcement \<Rightarrow> announcement_policy \<Rightarrow> announcement_error + peer_candidate"
where
  "validate_announcement codecs announcement policy =
     (if an_namespace announcement \<noteq> ap_expected_namespace policy then Inl WrongNamespace
      else if an_record_type announcement \<notin> set (ap_accepted_record_types policy)
      then Inl (UnsupportedRecordType (an_record_type announcement))
      else if an_valid_until announcement \<le> ap_chain_time policy
      then Inl (Expired (an_valid_until announcement) (ap_chain_time policy))
      else if an_peer_record announcement = [] \<or>
              ap_max_record_bytes policy < length (an_peer_record announcement)
      then Inl (InvalidRecordSize (length (an_peer_record announcement)))
      else (case codecs (an_record_type announcement) of
              None \<Rightarrow> Inl (UnsupportedRecordType (an_record_type announcement))
            | Some codec \<Rightarrow>
               (case decode_and_verify codec (an_peer_record announcement) (ap_dial_context policy) of
                  Inl e \<Rightarrow> Inl (PeerRecord e)
                | Inr candidate \<Rightarrow>
                   (if pc_record_type candidate \<noteq> an_record_type announcement
                    then Inl (CodecTypeMismatch (an_record_type announcement)
                               (pc_record_type candidate))
                    else if ap_max_endpoints policy < length (pc_endpoints candidate)
                    then Inl (PeerRecord (TooManyEndpoints (ap_max_endpoints policy)))
                    else Inr (candidate\<lparr> pc_expires_at := an_valid_until announcement,
                               pc_source := ResurrectRegistry,
                               pc_announcement_block := Some (an_block_number announcement),
                               pc_announcement_log_index := Some (an_log_index announcement) \<rparr>)))))"

text \<open>The envelope tests, in the order of the code, that run before any codec.\<close>

definition envelope_ok :: "announcement \<Rightarrow> announcement_policy \<Rightarrow> bool" where
  "envelope_ok a p \<longleftrightarrow>
     an_namespace a = ap_expected_namespace p \<and>
     an_record_type a \<in> set (ap_accepted_record_types p) \<and>
     ap_chain_time p < an_valid_until a \<and>
     0 < length (an_peer_record a) \<and> length (an_peer_record a) \<le> ap_max_record_bytes p"

definition stamped :: "announcement \<Rightarrow> peer_candidate \<Rightarrow> peer_candidate" where
  "stamped a c = c\<lparr> pc_expires_at := an_valid_until a, pc_source := ResurrectRegistry,
     pc_announcement_block := Some (an_block_number a),
     pc_announcement_log_index := Some (an_log_index a) \<rparr>"

lemma stamped_simps [simp]:
  "pc_record_type (stamped a c) = pc_record_type c"
  "pc_peer_id (stamped a c) = pc_peer_id c"
  "pc_sequence (stamped a c) = pc_sequence c"
  "pc_endpoints (stamped a c) = pc_endpoints c"
  "pc_raw_signed_record (stamped a c) = pc_raw_signed_record c"
  "pc_expires_at (stamped a c) = an_valid_until a"
  "pc_source (stamped a c) = ResurrectRegistry"
  "pc_announcement_block (stamped a c) = Some (an_block_number a)"
  "pc_announcement_log_index (stamped a c) = Some (an_log_index a)"
  by (simp_all add: stamped_def)

lemma envelope_simp:
  "envelope_ok a p \<Longrightarrow> validate_announcement codecs a p =
     (case codecs (an_record_type a) of
        None \<Rightarrow> Inl (UnsupportedRecordType (an_record_type a))
      | Some codec \<Rightarrow>
         (case decode_and_verify codec (an_peer_record a) (ap_dial_context p) of
            Inl e \<Rightarrow> Inl (PeerRecord e)
          | Inr c \<Rightarrow>
             (if pc_record_type c \<noteq> an_record_type a
              then Inl (CodecTypeMismatch (an_record_type a) (pc_record_type c))
              else if ap_max_endpoints p < length (pc_endpoints c)
              then Inl (PeerRecord (TooManyEndpoints (ap_max_endpoints p)))
              else Inr (stamped a c))))"
  unfolding validate_announcement_def envelope_ok_def stamped_def by auto

text \<open>The error of the first failing test.\<close>

definition envelope_error :: "announcement \<Rightarrow> announcement_policy \<Rightarrow> announcement_error" where
  "envelope_error a p =
     (if an_namespace a \<noteq> ap_expected_namespace p then WrongNamespace
      else if an_record_type a \<notin> set (ap_accepted_record_types p)
      then UnsupportedRecordType (an_record_type a)
      else if an_valid_until a \<le> ap_chain_time p
      then Expired (an_valid_until a) (ap_chain_time p)
      else InvalidRecordSize (length (an_peer_record a)))"

lemma envelope_fails:
  "\<not> envelope_ok a p \<Longrightarrow> validate_announcement codecs a p = Inl (envelope_error a p)"
  unfolding validate_announcement_def envelope_ok_def envelope_error_def
  by (cases "an_valid_until a \<le> ap_chain_time p"; cases "an_peer_record a = []") auto

lemma validate_announcement_Inr_iff:
  "validate_announcement codecs a p = Inr c \<longleftrightarrow>
   envelope_ok a p \<and>
   (\<exists>codec d. codecs (an_record_type a) = Some codec \<and>
      decode_and_verify codec (an_peer_record a) (ap_dial_context p) = Inr d \<and>
      pc_record_type d = an_record_type a \<and> length (pc_endpoints d) \<le> ap_max_endpoints p \<and>
      c = stamped a d)"
proof (cases "envelope_ok a p")
  case True
  then show ?thesis
    by (auto simp: envelope_simp split: option.splits sum.splits if_splits)
next
  case False
  with envelope_fails [OF this] show ?thesis by simp
qed

lemma validate_announcement_InrD:
  assumes "validate_announcement codecs a p = Inr c"
  shows "envelope_ok a p" and "pc_record_type c = an_record_type a"
    and "pc_expires_at c = an_valid_until a" and "pc_source c = ResurrectRegistry"
    and "pc_announcement_block c = Some (an_block_number a)"
    and "pc_announcement_log_index c = Some (an_log_index a)"
    and "length (pc_endpoints c) \<le> ap_max_endpoints p"
    and "ap_chain_time p < pc_expires_at c"
    and "pc_record_type c \<in> set (ap_accepted_record_types p)"
    and "\<exists>codec d. codecs (an_record_type a) = Some codec \<and>
      decode_and_verify codec (an_peer_record a) (ap_dial_context p) = Inr d \<and>
      pc_peer_id c = pc_peer_id d \<and> pc_sequence c = pc_sequence d \<and>
      pc_endpoints c = pc_endpoints d \<and> pc_raw_signed_record c = pc_raw_signed_record d"
  using assms by (auto simp: validate_announcement_Inr_iff envelope_ok_def)

lemma validate_announcement_expired:
  "an_valid_until a \<le> ap_chain_time p \<Longrightarrow> \<exists>e. validate_announcement codecs a p = Inl e"
  using envelope_fails [of a p codecs] by (metis envelope_ok_def leD)

text \<open>
  C13: an announcement is accepted exactly when its envelope passes (namespace, record type,
  expiry, size), a registered codec decodes and verifies its record into a candidate of the
  announced type, and the endpoint cap holds; the candidate returned is the decoded one,
  with only expiry, source and chain position taken from the event. An error of the record
  itself is reported exactly when everything before it passed: the codec's own error, then a
  codec that answers another type, then too many endpoints.
\<close>

theorem validate_announcement_iff:
  "(validate_announcement codecs a p = Inr c \<longleftrightarrow>
      envelope_ok a p \<and>
      (\<exists>codec d. codecs (an_record_type a) = Some codec \<and>
         decode_and_verify codec (an_peer_record a) (ap_dial_context p) = Inr d \<and>
         pc_record_type d = an_record_type a \<and> length (pc_endpoints d) \<le> ap_max_endpoints p \<and>
         c = stamped a d)) \<and>
   (validate_announcement codecs a p = Inl (PeerRecord e) \<longleftrightarrow>
      envelope_ok a p \<and>
      (\<exists>codec. codecs (an_record_type a) = Some codec \<and>
        (decode_and_verify codec (an_peer_record a) (ap_dial_context p) = Inl e \<or>
         (\<exists>d. decode_and_verify codec (an_peer_record a) (ap_dial_context p) = Inr d \<and>
            pc_record_type d = an_record_type a \<and> ap_max_endpoints p < length (pc_endpoints d) \<and>
            e = TooManyEndpoints (ap_max_endpoints p))))) \<and>
   (validate_announcement codecs a p = Inl (CodecTypeMismatch t u) \<longleftrightarrow>
      envelope_ok a p \<and> t = an_record_type a \<and> t \<noteq> u \<and>
      (\<exists>codec d. codecs t = Some codec \<and>
         decode_and_verify codec (an_peer_record a) (ap_dial_context p) = Inr d \<and> pc_record_type d = u))"
proof (cases "envelope_ok a p")
  case True
  then show ?thesis
    by (auto simp: validate_announcement_Inr_iff envelope_simp split: option.splits sum.splits if_splits)
next
  case False
  with envelope_fails [OF this, of codecs] show ?thesis by (simp add: envelope_error_def)
qed

text \<open>
  The registry is deny-by-default: no codec ever runs on an announcement whose envelope is
  rejected (the answer is the error of the first failing test, whatever the registry), an empty registry accepts nothing,
  and registering a codec changes the answer only for announcements of that codec's type.
\<close>

theorem codec_registry_deny_by_default:
  "(\<not> envelope_ok a p \<longrightarrow>
      validate_announcement codecs a p = Inl (envelope_error a p)) \<and>
   (\<forall>c. validate_announcement new_registry a p \<noteq> Inr c) \<and>
   (an_record_type a \<noteq> codec_record_type codec \<longrightarrow>
      validate_announcement (register codecs codec) a p = validate_announcement codecs a p) \<and>
   (registry_contains (register codecs codec) t \<longleftrightarrow>
      t = codec_record_type codec \<or> registry_contains codecs t)"
proof (intro conjI impI allI)
  show "validate_announcement codecs a p = Inl (envelope_error a p)" if "\<not> envelope_ok a p"
    using envelope_fails [OF that] .
  show "validate_announcement new_registry a p \<noteq> Inr c" for c
    by (simp add: validate_announcement_Inr_iff new_registry_def)
  show "validate_announcement (register codecs codec) a p = validate_announcement codecs a p"
    if "an_record_type a \<noteq> codec_record_type codec"
    using that unfolding validate_announcement_def register_def by simp
  show "registry_contains (register codecs codec) t \<longleftrightarrow>
      t = codec_record_type codec \<or> registry_contains codecs t"
    by (auto simp: registry_contains_def register_def)
qed

theorem codec_registry_deny_by_default_witness:
  "validate_announcement (register new_registry
       \<lparr> codec_record_type = 2, decode_and_verify = (\<lambda>_ _. Inl InvalidSignature) \<rparr>)
     \<lparr> an_namespace = Namespace 1, an_record_type = 1, an_valid_until = 5, an_peer_record = [],
       an_block_number = 0, an_log_index = 0, an_block_hash = None \<rparr>
     \<lparr> ap_expected_namespace = Namespace 1, ap_accepted_record_types = [1], ap_chain_time = 4,
       ap_max_record_bytes = 4096, ap_max_endpoints = 16, ap_dial_context = Browser \<rparr> =
   Inl (InvalidRecordSize 0)"
proof -
  let ?codec = "\<lparr> codec_record_type = 2, decode_and_verify = (\<lambda>_ _. Inl InvalidSignature) \<rparr> :: peer_codec"
  let ?a = "\<lparr> an_namespace = Namespace 1, an_record_type = 1, an_valid_until = 5, an_peer_record = [],
       an_block_number = 0, an_log_index = 0, an_block_hash = None \<rparr>"
  let ?p = "\<lparr> ap_expected_namespace = Namespace 1, ap_accepted_record_types = [1], ap_chain_time = 4,
       ap_max_record_bytes = 4096, ap_max_endpoints = 16, ap_dial_context = Browser \<rparr>"
  have h: "\<not> envelope_ok ?a ?p" "an_record_type ?a \<noteq> codec_record_type ?codec"
    by (simp_all add: envelope_ok_def)
  from codec_registry_deny_by_default [of ?a ?p new_registry ?codec] h
  have "validate_announcement (register new_registry ?codec) ?a ?p = Inl (envelope_error ?a ?p)"
    by simp
  then show ?thesis by (simp add: envelope_error_def)
qed

section \<open>Registries of codecs that keep their contract\<close>

definition lawful_registry :: "codec_registry \<Rightarrow> bool" where
  "lawful_registry codecs \<longleftrightarrow>
     (\<forall>t codec. codecs t = Some codec \<longrightarrow> codec_record_type codec = t \<and> verifying_codec codec)"

lemma lawful_new [simp]: "lawful_registry new_registry"
  by (simp add: lawful_registry_def new_registry_def)

lemma lawful_register: "lawful_registry codecs \<Longrightarrow> verifying_codec codec \<Longrightarrow>
    lawful_registry (register codecs codec)"
  by (auto simp: lawful_registry_def register_def)

lemma lawful_validated:
  assumes "lawful_registry codecs" and "validate_announcement codecs a p = Inr c"
  shows "pc_raw_signed_record c = an_peer_record a" and "pc_endpoints c \<noteq> []"
proof -
  from assms obtain codec d where c: "codecs (an_record_type a) = Some codec"
      "decode_and_verify codec (an_peer_record a) (ap_dial_context p) = Inr d" "c = stamped a d"
    by (auto simp: validate_announcement_Inr_iff)
  with assms(1) have "verifying_codec codec" by (auto simp: lawful_registry_def)
  from verifying_codec.decoded [OF this c(2)] c(3)
  show "pc_raw_signed_record c = an_peer_record a" and "pc_endpoints c \<noteq> []" by simp_all
qed

end
