(* ===== verification/Eth_Provider.thy ===== *)
theory Eth_Provider
  imports Core_Validation
begin

text \<open>
  \<open>crates/resurrect-ethereum/src/provider.rs\<close>: the provider interface through which all chain
  access goes. A provider is a record of effectful procedures over the state of the outside
  world, so that nothing is assumed about two calls giving consistent answers; what a
  well-behaved node promises is the locale \<open>chain_view\<close>.
\<close>

section \<open>Data\<close>

record registry_constants =
  rc_version :: u32
  rc_max_ttl :: u32
  rc_max_record_bytes :: u32

record block_info =
  bi_number :: u64
  bi_timestamp :: u64
  bi_hash :: b256

datatype block_reference = Number u64 | Latest | Safe | Finalized

datatype provider_error =
    Configuration string
  | Request string
  | RangeLimit string
  | Unsupported string
  | Missing string
  | ReadOnly

section \<open>The provider interface\<close>

record 'w registry_provider =
  rp_chain_id :: "('w, provider_error, u256) proc"
  rp_registry_constants :: "address \<Rightarrow> ('w, provider_error, registry_constants) proc"
  rp_block :: "block_reference \<Rightarrow> ('w, provider_error, block_info option) proc"
  rp_announcements ::
    "address \<Rightarrow> namespace \<Rightarrow> u64 \<Rightarrow> u64 \<Rightarrow> ('w, provider_error, announcement list) proc"
  rp_announce :: "address \<Rightarrow> namespace \<Rightarrow> u32 \<Rightarrow> u32 \<Rightarrow> bytes \<Rightarrow> ('w, provider_error, b256) proc"

text \<open>
  The same provider with a record of the calls made to it. Every definition over a provider
  can be run on the observed one, which answers alike, so statements about what a
  component asks of the chain, and in which order, are statements about that log.
\<close>

datatype provider_call =
    CallChainId
  | CallConstants address
  | CallBlock block_reference
  | CallAnnouncements address namespace u64 u64
  | CallAnnounce address namespace u32 u32 bytes

definition observed :: "'w registry_provider \<Rightarrow> ('w \<times> provider_call list) registry_provider" where
  "observed P =
     \<lparr> rp_chain_id = logged CallChainId (rp_chain_id P),
       rp_registry_constants = (\<lambda>a. logged (CallConstants a) (rp_registry_constants P a)),
       rp_block = (\<lambda>r. logged (CallBlock r) (rp_block P r)),
       rp_announcements = (\<lambda>a ns f t. logged (CallAnnouncements a ns f t) (rp_announcements P a ns f t)),
       rp_announce = (\<lambda>a ns rt ttl r. logged (CallAnnounce a ns rt ttl r) (rp_announce P a ns rt ttl r)) \<rparr>"

lemma observed_simps [simp]:
  "rp_chain_id (observed P) = logged CallChainId (rp_chain_id P)"
  "rp_registry_constants (observed P) a = logged (CallConstants a) (rp_registry_constants P a)"
  "rp_block (observed P) r = logged (CallBlock r) (rp_block P r)"
  "rp_announcements (observed P) a ns f t =
     logged (CallAnnouncements a ns f t) (rp_announcements P a ns f t)"
  "rp_announce (observed P) a ns rt ttl raw =
     logged (CallAnnounce a ns rt ttl raw) (rp_announce P a ns rt ttl raw)"
  by (simp_all add: observed_def)

section \<open>A well-behaved chain\<close>

definition in_range :: "u64 \<Rightarrow> u64 \<Rightarrow> announcement \<Rightarrow> bool" where
  "in_range f t a \<longleftrightarrow> f \<le> an_block_number a \<and> an_block_number a \<le> t"

text \<open>
  A provider that serves one consistent chain while it is queried: blocks by number have
  non-decreasing timestamps and no gaps, a log query is answered with the chain's
  announcements of that range in block order, or refused as too wide, and never refused
  when it spans at most \<open>narrow\<close> blocks.
\<close>

locale chain_view =
  fixes P :: "'w registry_provider"
    and blk :: "u64 \<Rightarrow> block_info option"
    and served :: "address \<Rightarrow> namespace \<Rightarrow> announcement list"
    and narrow :: nat
  assumes block_answer: "fst (rp_block P (Number n) w) = Inr (blk n)"
    and block_gapless: "blk n \<noteq> None \<Longrightarrow> m \<le> n \<Longrightarrow> blk m \<noteq> None"
    and block_time: "blk m = Some b \<Longrightarrow> blk n = Some c \<Longrightarrow> m \<le> n \<Longrightarrow> bi_timestamp b \<le> bi_timestamp c"
    and logs_answer: "f \<le> t \<Longrightarrow> fst (rp_announcements P a ns f t w) = Inr r \<Longrightarrow>
        r = filter (in_range f t) (served a ns)"
    and logs_refusal: "f \<le> t \<Longrightarrow> fst (rp_announcements P a ns f t w) = Inl e \<Longrightarrow>
        (\<exists>m. e = RangeLimit m) \<and> narrow \<le> unat t - unat f"
    and logs_sorted: "sorted (map an_block_number (served a ns))"
    and narrow_pos: "0 < narrow"
begin

lemma block_at: "\<exists>w'. rp_block P (Number n) w = (Inr (blk n), w')"
  by (metis block_answer prod.collapse)

lemma logs_cases:
  assumes "f \<le> t"
  obtains (served) w' where
      "rp_announcements P a ns f t w = (Inr (filter (in_range f t) (served a ns)), w')"
    | (refused) m w' where "rp_announcements P a ns f t w = (Inl (RangeLimit m), w')"
      "narrow \<le> unat t - unat f"
proof (cases "rp_announcements P a ns f t w")
  case (Pair r w')
  show thesis
  proof (cases r)
    case (Inl e)
    with logs_refusal [OF assms, of a ns w e] Pair refused show thesis by auto
  next
    case (Inr x)
    with logs_answer [OF assms, of a ns w x] Pair served show thesis by auto
  qed
qed

end

lemma filter_range_split:
  assumes "sorted (map an_block_number xs)" and "f \<le> t" and "t < u"
  shows "filter (in_range f u) xs = filter (in_range f t) xs @ filter (in_range (t + 1) u) xs"
proof -
  have shift: "t + 1 \<le> an_block_number a \<longleftrightarrow> t < an_block_number a" for a
    using assms(3) by (simp add: word_le_nat_alt word_less_nat_alt unat_add_one Suc_le_eq)
  from assms show ?thesis
  proof (induction xs)
    case Nil
    then show ?case by simp
  next
    case (Cons x xs)
    show ?case
    proof (cases "t < an_block_number x")
      case True
      with Cons.prems have "filter (\<lambda>a. f \<le> an_block_number a \<and> an_block_number a \<le> t) xs = []"
        by (auto simp: filter_empty_conv)
      with True Cons shift show ?thesis by (auto simp: in_range_def)
    next
      case False
      with Cons shift show ?thesis by (auto simp: in_range_def)
    qed
  qed
qed

end
