(* ===== verification/Eth_Alloy.thy ===== *)
theory Eth_Alloy
  imports Eth_Provider
begin

text \<open>
  \<open>crates/resurrect-ethereum/src/alloy_provider.rs\<close>: the JSON-RPC provider. The RPC client of
  the \<open>alloy\<close> library, its ABI decoding and its URL parser are parameters; what is modelled is
  what this code makes of their answers: which requests it sends, how it classifies
  their errors, which logs it drops and when it refuses to send a transaction.
\<close>

section \<open>The RPC client\<close>

datatype contract_view = VERSION | MAX_TTL | MAX_RECORD_BYTES

datatype block_number_or_tag = TagNumber u64 | TagLatest | TagSafe | TagFinalized

record rpc_header =
  rh_number :: u64
  rh_timestamp :: u64
  rh_hash :: b256

record log_filter =
  lf_address :: address
  lf_event_signature :: b256
  lf_topic1 :: b256
  lf_from_block :: u64
  lf_to_block :: u64

record rpc_log =
  lg_removed :: bool
  lg_block_number :: "u64 option"
  lg_log_index :: "u64 option"
  lg_block_hash :: "b256 option"
  lg_topics :: "b256 list"
  lg_data :: bytes

text \<open>The event \<open>PeerAnnounced\<close> of \<open>crates/resurrect-ethereum/src/abi.rs\<close>.\<close>

record peer_announced =
  ev_namespace :: b256
  ev_record_type :: u32
  ev_valid_until :: u64
  ev_peer_record :: bytes

text \<open>The methods of the library's provider that the code calls, errors as their text.\<close>

record ('w, 'p) eth_rpc =
  er_chain_id :: "('w, string, u256) proc"
  er_view :: "address \<Rightarrow> contract_view \<Rightarrow> ('w, string, u32) proc"
  er_block :: "block_number_or_tag \<Rightarrow> ('w, string, rpc_header option) proc"
  er_logs :: "log_filter \<Rightarrow> ('w, string, rpc_log list) proc"
  er_send :: "address \<Rightarrow> b256 \<Rightarrow> u32 \<Rightarrow> u32 \<Rightarrow> bytes \<Rightarrow> ('w, string, 'p) proc"
  er_receipt :: "'p \<Rightarrow> ('w, string, b256) proc"
  er_signature_hash :: b256
  er_decode :: "rpc_log \<Rightarrow> string + peer_announced"

section \<open>Errors\<close>

definition looks_unsupported :: "string \<Rightarrow> bool" where
  "looks_unsupported message =
     (let lower = to_ascii_lowercase message
      in str_contains lower ''unsupported'' \<or> str_contains lower ''not found''
         \<or> str_contains lower ''invalid argument'')"

definition map_block_error :: "block_reference \<Rightarrow> string \<Rightarrow> provider_error" where
  "map_block_error reference message =
     (if \<not> (case reference of Number _ \<Rightarrow> True | Latest \<Rightarrow> True | _ \<Rightarrow> False)
         \<and> looks_unsupported message
      then Unsupported message else Request message)"

definition map_log_error :: "string \<Rightarrow> provider_error" where
  "map_log_error message =
     (let lower = to_ascii_lowercase message
      in if str_contains lower ''range'' \<or> str_contains lower ''too many''
            \<or> str_contains lower ''response size'' \<or> str_contains lower ''limit exceeded''
            \<or> str_contains lower ''query returned more than''
         then RangeLimit message else Request message)"

section \<open>The provider\<close>

definition log_announcement ::
  "(rpc_log \<Rightarrow> string + peer_announced) \<Rightarrow> rpc_log \<Rightarrow> provider_error + announcement"
where
  "log_announcement decode log =
     (case lg_block_number log of
        None \<Rightarrow> Inl (Missing ''log block'')
      | Some block_number \<Rightarrow>
     (case lg_log_index log of
        None \<Rightarrow> Inl (Missing ''log index'')
      | Some log_index \<Rightarrow>
          res_bind (map_err Request (decode log)) (\<lambda>event.
          Inr \<lparr> an_namespace = Namespace (ev_namespace event), an_record_type = ev_record_type event,
            an_valid_until = ev_valid_until event, an_peer_record = ev_peer_record event,
            an_block_number = block_number, an_log_index = log_index,
            an_block_hash = lg_block_hash log \<rparr>)))"

definition block_tag :: "block_reference \<Rightarrow> block_number_or_tag" where
  "block_tag reference = (case reference of Number n \<Rightarrow> TagNumber n | Latest \<Rightarrow> TagLatest
     | Safe \<Rightarrow> TagSafe | Finalized \<Rightarrow> TagFinalized)"

definition header_info :: "rpc_header \<Rightarrow> block_info" where
  "header_info h = \<lparr> bi_number = rh_number h, bi_timestamp = rh_timestamp h, bi_hash = rh_hash h \<rparr>"

definition namespace_word :: "namespace \<Rightarrow> b256" where
  "namespace_word ns = (case ns of Namespace w \<Rightarrow> w)"

definition alloy_registry_constants ::
  "('w, 'p) eth_rpc \<Rightarrow> address \<Rightarrow> ('w, provider_error, registry_constants) proc"
where
  "alloy_registry_constants rpc address =
     and_then (proc_err Request (er_view rpc address VERSION)) (\<lambda>version.
     and_then (proc_err Request (er_view rpc address MAX_TTL)) (\<lambda>max_ttl.
     and_then (proc_err Request (er_view rpc address MAX_RECORD_BYTES)) (\<lambda>max_record_bytes.
     succeed \<lparr> rc_version = version, rc_max_ttl = max_ttl,
       rc_max_record_bytes = max_record_bytes \<rparr>)))"

definition alloy_block ::
  "('w, 'p) eth_rpc \<Rightarrow> block_reference \<Rightarrow> ('w, provider_error, block_info option) proc"
where
  "alloy_block rpc reference =
     and_then (proc_err (map_block_error reference) (er_block rpc (block_tag reference))) (\<lambda>block.
     succeed (map_option header_info block))"

definition alloy_announcements ::
  "('w, 'p) eth_rpc \<Rightarrow> address \<Rightarrow> namespace \<Rightarrow> u64 \<Rightarrow> u64 \<Rightarrow> ('w, provider_error, announcement list) proc"
where
  "alloy_announcements rpc address ns from_block to_block =
     and_then (proc_err map_log_error (er_logs rpc
         \<lparr> lf_address = address, lf_event_signature = er_signature_hash rpc,
           lf_topic1 = namespace_word ns, lf_from_block = from_block, lf_to_block = to_block \<rparr>)) (\<lambda>logs.
     lift_res (traverse (log_announcement (er_decode rpc)) (filter (\<lambda>log. \<not> lg_removed log) logs)))"

definition alloy_announce ::
  "('w, 'p) eth_rpc \<Rightarrow> bool \<Rightarrow> address \<Rightarrow> namespace \<Rightarrow> u32 \<Rightarrow> u32 \<Rightarrow> bytes \<Rightarrow> ('w, provider_error, b256) proc"
where
  "alloy_announce rpc writable address ns record_type ttl peer_record =
     and_then (ensure writable ReadOnly) (\<lambda>_.
     and_then (proc_err Request (er_send rpc address (namespace_word ns) record_type ttl peer_record)) (\<lambda>pending.
     proc_err Request (er_receipt rpc pending)))"

definition alloy_provider :: "('w, 'p) eth_rpc \<Rightarrow> bool \<Rightarrow> 'w registry_provider" where
  "alloy_provider rpc writable =
     \<lparr> rp_chain_id = proc_err Request (er_chain_id rpc),
       rp_registry_constants = alloy_registry_constants rpc,
       rp_block = alloy_block rpc,
       rp_announcements = alloy_announcements rpc,
       rp_announce = alloy_announce rpc writable \<rparr>"

text \<open>The URL check of both constructors; \<open>parse\<close> gives a URL's scheme.\<close>

definition parse_url :: "(string \<Rightarrow> string + string) \<Rightarrow> string \<Rightarrow> provider_error + string" where
  "parse_url parse rpc_url =
     res_bind (map_err Configuration (parse rpc_url)) (\<lambda>scheme.
     if scheme \<noteq> ''http'' \<and> scheme \<noteq> ''https''
     then Inl (Configuration ''only http and https JSON-RPC URLs are supported'')
     else Inr rpc_url)"

definition read_only ::
  "(string \<Rightarrow> string + string) \<Rightarrow> (string \<Rightarrow> ('w, 'p) eth_rpc) \<Rightarrow> string \<Rightarrow>
   provider_error + 'w registry_provider"
where
  "read_only parse connect rpc_url =
     res_bind (parse_url parse rpc_url) (\<lambda>url. Inr (alloy_provider (connect url) False))"

definition with_signer ::
  "(string \<Rightarrow> string + string) \<Rightarrow> ('s \<Rightarrow> string \<Rightarrow> ('w, 'p) eth_rpc) \<Rightarrow> string \<Rightarrow> 's \<Rightarrow>
   provider_error + 'w registry_provider"
where
  "with_signer parse connect rpc_url signer =
     res_bind (parse_url parse rpc_url) (\<lambda>url. Inr (alloy_provider (connect signer url) True))"

section \<open>What it makes of the client's answers\<close>

text \<open>
  C34: an answer of announcements is exactly the client's logs for the requested registry,
  event, namespace and range, in order, without those removed by a reorg: each has its
  position and decodes to its announcement. One log without a position, or one that does
  not decode, fails the whole query.
\<close>

theorem alloy_announcements_iff:
  "rp_announcements (alloy_provider rpc writable) address ns f t w = (Inr as, v) \<longleftrightarrow>
   (\<exists>logs. er_logs rpc \<lparr> lf_address = address, lf_event_signature = er_signature_hash rpc,
        lf_topic1 = namespace_word ns, lf_from_block = f, lf_to_block = t \<rparr> w = (Inr logs, v) \<and>
      list_all2 (\<lambda>log a. \<exists>event. er_decode rpc log = Inr event \<and>
          lg_block_number log = Some (an_block_number a) \<and>
          lg_log_index log = Some (an_log_index a) \<and>
          a = \<lparr> an_namespace = Namespace (ev_namespace event),
            an_record_type = ev_record_type event, an_valid_until = ev_valid_until event,
            an_peer_record = ev_peer_record event, an_block_number = an_block_number a,
            an_log_index = an_log_index a, an_block_hash = lg_block_hash log \<rparr>)
        (filter (\<lambda>log. \<not> lg_removed log) logs) as)"
proof -
  have "log_announcement (er_decode rpc) log = Inr a \<longleftrightarrow>
      (\<exists>event. er_decode rpc log = Inr event \<and>
          lg_block_number log = Some (an_block_number a) \<and>
          lg_log_index log = Some (an_log_index a) \<and>
          a = \<lparr> an_namespace = Namespace (ev_namespace event),
            an_record_type = ev_record_type event, an_valid_until = ev_valid_until event,
            an_peer_record = ev_peer_record event, an_block_number = an_block_number a,
            an_log_index = an_log_index a, an_block_hash = lg_block_hash log \<rparr>)" for log a
    by (cases a) (auto simp: log_announcement_def res_bind_Inr_iff split: option.splits)
  then show ?thesis
    by (auto simp: alloy_provider_def alloy_announcements_def and_then_Inr_iff traverse_Inr_iff)
qed

text \<open>What a message of the client says: the words in it, in any case.\<close>

definition says :: "string \<Rightarrow> string set \<Rightarrow> bool" where
  "says message needles \<longleftrightarrow> (\<exists>word \<in> needles. \<exists>us vs. to_ascii_lowercase message = us @ word @ vs)"

abbreviation limit_words :: "string set" where
  "limit_words \<equiv> {''range'', ''too many'', ''response size'', ''limit exceeded'', ''query returned more than''}"

abbreviation missing_words :: "string set" where
  "missing_words \<equiv> {''unsupported'', ''not found'', ''invalid argument''}"

lemma map_log_error_classifies:
  "map_log_error m = (if says m limit_words then RangeLimit m else Request m)"
  by (simp add: map_log_error_def says_def Let_def str_contains_iff)

lemma map_block_error_classifies:
  "map_block_error tag m =
     (if tag \<in> {Safe, Finalized} \<and> says m missing_words then Unsupported m else Request m)"
  by (cases tag) (simp_all add: map_block_error_def looks_unsupported_def says_def Let_def str_contains_iff)

lemma log_announcement_no_limit: "log_announcement decode log \<noteq> Inl (RangeLimit m)"
  by (auto simp: log_announcement_def res_bind_def map_err_def split: option.splits sum.splits)

lemma announcements_no_limit: "traverse (log_announcement decode) logs \<noteq> Inl (RangeLimit m)"
  by (induction logs) (auto simp: res_bind_def log_announcement_no_limit split: sum.splits)

text \<open>
  C35: a provider built without a signer refuses to announce before any network access, and the
  errors of the client are told apart as follows. A query of logs is a range limit exactly
  when the client failed with a message that speaks of a range, of too many, of the response
  size, of a limit exceeded or of a query returning more than; every other failure of the
  client, and every log that does not decode, is not. A block is an unsupported tag exactly
  when the safe or finalized block was asked for and the client failed with a message that
  says unsupported, not found or invalid argument; every other failure is an outage, so one of
  the latest block or of a numbered one is never taken for a missing finality tag.
\<close>

theorem alloy_errors:
  "(read_only parse connect rpc_url = Inr P \<longrightarrow>
      rp_announce P address ns record_type ttl record w = (Inl ReadOnly, w)) \<and>
   (let logs = er_logs rpc \<lparr> lf_address = address, lf_event_signature = er_signature_hash rpc,
        lf_topic1 = namespace_word ns, lf_from_block = f, lf_to_block = t \<rparr> u;
      answer = rp_announcements (alloy_provider rpc writable) address ns f t u
    in (answer = (Inl (RangeLimit m), v) \<longleftrightarrow> logs = (Inl m, v) \<and> says m limit_words) \<and>
       (logs = (Inl m, v) \<and> \<not> says m limit_words \<longrightarrow> answer = (Inl (Request m), v))) \<and>
   (let block = er_block rpc (block_tag tag) u;
      missing = tag \<in> {Safe, Finalized} \<and> says m missing_words;
      answer = rp_block (alloy_provider rpc writable) tag u
    in (answer = (Inl (Unsupported m), v) \<longleftrightarrow> block = (Inl m, v) \<and> missing) \<and>
       (block = (Inl m, v) \<and> \<not> missing \<longrightarrow> answer = (Inl (Request m), v)))"
proof (intro conjI)
  show "read_only parse connect rpc_url = Inr P \<longrightarrow>
      rp_announce P address ns record_type ttl record w = (Inl ReadOnly, w)"
    by (auto simp: read_only_def res_bind_Inr_iff alloy_provider_def alloy_announce_def and_then_def
      ensure_def fail_def)
  let ?filter = "\<lparr> lf_address = address, lf_event_signature = er_signature_hash rpc,
        lf_topic1 = namespace_word ns, lf_from_block = f, lf_to_block = t \<rparr>"
  obtain r x where logs: "er_logs rpc ?filter u = (r, x)" by fastforce
  have "rp_announcements (alloy_provider rpc writable) address ns f t u = (case r of
      Inl n \<Rightarrow> (Inl (map_log_error n), x)
    | Inr ls \<Rightarrow> (traverse (log_announcement (er_decode rpc)) (filter (\<lambda>log. \<not> lg_removed log) ls), x))"
    by (simp add: alloy_provider_def alloy_announcements_def and_then_def proc_err_def lift_res_def
        logs map_err_def split: sum.split)
  then show "let logs = er_logs rpc ?filter u;
      answer = rp_announcements (alloy_provider rpc writable) address ns f t u
    in (answer = (Inl (RangeLimit m), v) \<longleftrightarrow> logs = (Inl m, v) \<and> says m limit_words) \<and>
       (logs = (Inl m, v) \<and> \<not> says m limit_words \<longrightarrow> answer = (Inl (Request m), v))"
    by (cases r) (auto simp only: Let_def logs map_log_error_classifies announcements_no_limit
      sum.case prod.inject sum.inject if_True if_False provider_error.inject provider_error.distinct
      sum.distinct split: if_splits)
  obtain r x where block: "er_block rpc (block_tag tag) u = (r, x)" by fastforce
  have "rp_block (alloy_provider rpc writable) tag u = (case r of
      Inl n \<Rightarrow> (Inl (map_block_error tag n), x) | Inr b \<Rightarrow> (Inr (map_option header_info b), x))"
    by (simp add: alloy_provider_def alloy_block_def and_then_def proc_err_def succeed_def
        block map_err_def split: sum.split)
  then show "let block = er_block rpc (block_tag tag) u;
      missing = tag \<in> {Safe, Finalized} \<and> says m missing_words;
      answer = rp_block (alloy_provider rpc writable) tag u
    in (answer = (Inl (Unsupported m), v) \<longleftrightarrow> block = (Inl m, v) \<and> missing) \<and>
       (block = (Inl m, v) \<and> \<not> missing \<longrightarrow> answer = (Inl (Request m), v))"
    by (cases r) (auto simp only: Let_def block map_block_error_classifies sum.case prod.inject
      sum.inject if_True if_False provider_error.inject provider_error.distinct sum.distinct
      split: if_splits)
qed

definition empty_rpc :: "(nat, unit) eth_rpc" where
  "empty_rpc =
     \<lparr> er_chain_id = succeed 1, er_view = (\<lambda>_ _. succeed 0), er_block = (\<lambda>_. succeed None),
       er_logs = (\<lambda>_. succeed []), er_send = (\<lambda>_ _ _ _ _ n. (Inr (), n + 1)),
       er_receipt = (\<lambda>_. succeed 0), er_signature_hash = 0, er_decode = (\<lambda>_. Inl ''undecodable'') \<rparr>"

theorem alloy_errors_witness:
  "rp_announce (alloy_provider empty_rpc False) 0 (Namespace 0) 2 1 [1] 0 = (Inl ReadOnly, 0)"
proof -
  have "read_only (\<lambda>_. Inr ''http'') (\<lambda>_. empty_rpc) ''http://127.0.0.1:1'' =
      Inr (alloy_provider empty_rpc False)"
    by (simp add: read_only_def parse_url_def)
  from mp [OF conjunct1 [OF alloy_errors] this] show ?thesis .
qed

section \<open>An RPC node that serves one chain\<close>

text \<open>
  Over a node whose answers come from one chain, the provider keeps the contract of
  \<open>chain_view\<close>, so everything proved of scans on a consistent chain holds of it.
\<close>

lemma alloy_chain_view:
  assumes blocks: "\<And>n w. fst (er_block rpc (TagNumber n) w) = Inr (hdr n)"
    and gapless: "\<And>m n. hdr n \<noteq> None \<Longrightarrow> m \<le> n \<Longrightarrow> hdr m \<noteq> None"
    and time: "\<And>m n b c. hdr m = Some b \<Longrightarrow> hdr n = Some c \<Longrightarrow> m \<le> n \<Longrightarrow> rh_timestamp b \<le> rh_timestamp c"
    and logs: "\<And>a ns f t w r. f \<le> t \<Longrightarrow> fst (er_logs rpc \<lparr> lf_address = a,
        lf_event_signature = er_signature_hash rpc, lf_topic1 = namespace_word ns,
        lf_from_block = f, lf_to_block = t \<rparr> w) = Inr r \<Longrightarrow>
        traverse (log_announcement (er_decode rpc)) (filter (\<lambda>log. \<not> lg_removed log) r) =
          Inr (filter (in_range f t) (served a ns))"
    and refusal: "\<And>a ns f t w e. f \<le> t \<Longrightarrow> fst (er_logs rpc \<lparr> lf_address = a,
        lf_event_signature = er_signature_hash rpc, lf_topic1 = namespace_word ns,
        lf_from_block = f, lf_to_block = t \<rparr> w) = Inl e \<Longrightarrow>
        str_contains (to_ascii_lowercase e) ''range'' \<and> narrow \<le> unat t - unat f"
    and sorted: "\<And>a ns. sorted (map an_block_number (served a ns))"
    and narrow: "0 < narrow"
  shows "chain_view (alloy_provider rpc writable) (\<lambda>n. map_option header_info (hdr n)) served narrow"
proof
  fix n w show "fst (rp_block (alloy_provider rpc writable) (Number n) w) = Inr (map_option header_info (hdr n))"
    using blocks [of n w]
    by (cases "er_block rpc (TagNumber n) w") (simp add: alloy_provider_def alloy_block_def block_tag_def
        and_then_def proc_err_def succeed_def)
next
  fix f t :: u64 and a ns r w assume le: "f \<le> t"
  from logs [OF le, where a = a and ns = ns and w = w] refusal [OF le, where a = a and ns = ns and w = w]
  show "fst (rp_announcements (alloy_provider rpc writable) a ns f t w) = Inr r \<Longrightarrow>
      r = filter (in_range f t) (served a ns)"
    by (auto simp: alloy_provider_def alloy_announcements_def and_then_def proc_err_def lift_res_def
        split: prod.splits sum.splits)
next
  fix f t :: u64 and a ns w e assume le: "f \<le> t"
  from logs [OF le, where a = a and ns = ns and w = w] refusal [OF le, where a = a and ns = ns and w = w]
  show "fst (rp_announcements (alloy_provider rpc writable) a ns f t w) = Inl e \<Longrightarrow>
      (\<exists>m. e = RangeLimit m) \<and> narrow \<le> unat t - unat f"
    by (auto simp: alloy_provider_def alloy_announcements_def and_then_def proc_err_def lift_res_def
        map_log_error_def map_err_def split: prod.splits sum.splits)
qed (use gapless time sorted narrow in \<open>auto simp: header_info_def\<close>)

end
