(* ===== verification/Core_Candidates.thy ===== *)
theory Core_Candidates
  imports Core_Validation "HOL-Library.AList"
begin

text \<open>
  The bounded candidate set of \<open>crates/resurrect-core/src/validation.rs\<close>: \<open>CandidateStore\<close>
  with its sequence-aware, deterministically sampled insertion. The hash map of candidates is
  an association list with distinct keys, in the order in which the map happens to iterate;
  the main theorem shows that this order never shows. The hash \<open>keccak256\<close> is a parameter.
\<close>

section \<open>Freshness\<close>

definition opt_default :: "u64 option \<Rightarrow> u64" where
  "opt_default x = (case x of None \<Rightarrow> 0 | Some v \<Rightarrow> v)"

definition compare_freshness :: "peer_candidate \<Rightarrow> peer_candidate \<Rightarrow> ordering" where
  "compare_freshness left right =
     then_with
       (then_with (compare (pc_sequence left) (pc_sequence right))
         (compare (opt_default (pc_announcement_block left))
                  (opt_default (pc_announcement_block right))))
       (compare (opt_default (pc_announcement_log_index left))
                (opt_default (pc_announcement_log_index right)))"

text \<open>The linear order behind it: sequence, then block, then log index.\<close>

datatype freshness = Freshness (fr_sequence: u64) (fr_block: u64) (fr_log: u64)

instantiation freshness :: linorder
begin

definition less_eq_freshness :: "freshness \<Rightarrow> freshness \<Rightarrow> bool" where
  "less_eq_freshness a b \<longleftrightarrow>
     fr_sequence a < fr_sequence b \<or> fr_sequence a = fr_sequence b \<and>
     (fr_block a < fr_block b \<or> fr_block a = fr_block b \<and> fr_log a \<le> fr_log b)"

definition less_freshness :: "freshness \<Rightarrow> freshness \<Rightarrow> bool" where
  "less_freshness a b \<longleftrightarrow>
     fr_sequence a < fr_sequence b \<or> fr_sequence a = fr_sequence b \<and>
     (fr_block a < fr_block b \<or> fr_block a = fr_block b \<and> fr_log a < fr_log b)"

instance
  by standard (auto simp: less_eq_freshness_def less_freshness_def intro: freshness.expand)

end

definition freshness_of :: "peer_candidate \<Rightarrow> freshness" where
  "freshness_of c = Freshness (pc_sequence c) (opt_default (pc_announcement_block c))
     (opt_default (pc_announcement_log_index c))"

lemma compare_freshness_Greater [simp]:
  "compare_freshness a b = Greater \<longleftrightarrow> freshness_of b < freshness_of a"
  by (auto simp: compare_freshness_def then_with_Greater_iff then_with_def compare_def
      less_freshness_def freshness_of_def split: if_splits)

section \<open>The store\<close>

record candidate_store_config =
  csc_max_candidates :: nat
  csc_sampling_seed :: b256

datatype candidate_insert = Inserted | Replaced | Stale | SampledOut

record candidate_store =
  cs_config :: candidate_store_config
  cs_candidates :: "(bytes \<times> peer_candidate) list"

definition default_store_config :: candidate_store_config where
  "default_store_config =
     \<lparr> csc_max_candidates = DEFAULT_MAX_ACTIVE_CANDIDATES, csc_sampling_seed = 0 \<rparr>"

definition store_new :: "candidate_store_config \<Rightarrow> candidate_store" where
  "store_new config =
     \<lparr> cs_config = config\<lparr> csc_max_candidates := max (csc_max_candidates config) 1 \<rparr>,
       cs_candidates = [] \<rparr>"

definition store_len :: "candidate_store \<Rightarrow> nat" where
  "store_len store = length (cs_candidates store)"

definition store_is_empty :: "candidate_store \<Rightarrow> bool" where
  "store_is_empty store = (cs_candidates store = [])"

definition store_get :: "candidate_store \<Rightarrow> u32 \<Rightarrow> bytes \<Rightarrow> peer_candidate option" where
  "store_get store record_type peer =
     map_of (cs_candidates store) (be_bytes 4 record_type @ peer)"

definition score :: "(bytes \<Rightarrow> b256) \<Rightarrow> candidate_store_config \<Rightarrow> bytes \<Rightarrow> b256" where
  "score keccak config identity = keccak (be_bytes 32 (csc_sampling_seed config) @ identity)"

definition put :: "bytes \<Rightarrow> peer_candidate \<Rightarrow> candidate_store \<Rightarrow> candidate_store" where
  "put identity candidate store =
     store\<lparr> cs_candidates := AList.update identity candidate (cs_candidates store) \<rparr>"

definition evict :: "bytes \<Rightarrow> candidate_store \<Rightarrow> candidate_store" where
  "evict identity store =
     store\<lparr> cs_candidates := AList.delete identity (cs_candidates store) \<rparr>"

definition store_insert ::
  "(bytes \<Rightarrow> b256) \<Rightarrow> candidate_store \<Rightarrow> peer_candidate \<Rightarrow> candidate_store \<times> candidate_insert"
where
  "store_insert keccak store candidate =
     (let identity = identity_key candidate;
          rank = score keccak (cs_config store)
      in case map_of (cs_candidates store) identity of
           Some existing \<Rightarrow>
             (if compare_freshness candidate existing = Greater
              then (put identity candidate store, Replaced) else (store, Stale))
         | None \<Rightarrow>
             (if length (cs_candidates store) < csc_max_candidates (cs_config store)
              then (put identity candidate store, Inserted)
              else (case max_by_key rank (map fst (cs_candidates store)) of
                      None \<Rightarrow> (put identity candidate store, Inserted)
                    | Some worst \<Rightarrow>
                        (if rank identity < rank worst
                         then (put identity candidate (evict worst store), Inserted)
                         else (store, SampledOut)))))"

definition store_ranked :: "(bytes \<Rightarrow> b256) \<Rightarrow> candidate_store \<Rightarrow> peer_candidate list" where
  "store_ranked keccak store =
     map snd (sort_key (\<lambda>(identity, _). score keccak (cs_config store) identity)
       (cs_candidates store))"

definition insert_all ::
  "(bytes \<Rightarrow> b256) \<Rightarrow> candidate_store \<Rightarrow> peer_candidate list \<Rightarrow> candidate_store" where
  "insert_all keccak store candidates =
     foldl (\<lambda>s c. fst (store_insert keccak s c)) store candidates"

lemma put_simps [simp]:
  "cs_config (put k c s) = cs_config s"
  "map_of (cs_candidates (put k c s)) = (map_of (cs_candidates s))(k \<mapsto> c)"
  "fst ` set (cs_candidates (put k c s)) = insert k (fst ` set (cs_candidates s))"
  by (simp_all add: put_def update_conv' dom_update)

lemma evict_simps [simp]:
  "cs_config (evict k s) = cs_config s"
  "map_of (cs_candidates (evict k s)) = (map_of (cs_candidates s))(k := None)"
  "fst ` set (cs_candidates (evict k s)) = fst ` set (cs_candidates s) - {k}"
  by (simp_all add: evict_def delete_conv') (force simp: AList.delete_eq)

lemma store_insert_config [simp]: "cs_config (fst (store_insert keccak s c)) = cs_config s"
  by (simp add: store_insert_def Let_def split: option.splits)

lemma insert_all_simps [simp]:
  "insert_all keccak s [] = s"
  "insert_all keccak s (cs @ [c]) = fst (store_insert keccak (insert_all keccak s cs) c)"
  by (simp_all add: insert_all_def)

lemma insert_all_append:
  "insert_all keccak s (cs @ ds) = insert_all keccak (insert_all keccak s cs) ds"
  by (simp add: insert_all_def)

lemma insert_all_config [simp]: "cs_config (insert_all keccak s cs) = cs_config s"
  by (induction cs rule: rev_induct) simp_all

section \<open>The store invariant\<close>

text \<open>
  Keys are distinct and are the identity keys of their candidates, and the cap, which is at
  least one, is never exceeded.
\<close>

definition store_ok :: "candidate_store \<Rightarrow> bool" where
  "store_ok s \<longleftrightarrow> distinct (map fst (cs_candidates s)) \<and>
     (\<forall>(k, c) \<in> set (cs_candidates s). k = identity_key c) \<and>
     0 < csc_max_candidates (cs_config s) \<and>
     length (cs_candidates s) \<le> csc_max_candidates (cs_config s)"

lemma store_ok_new [simp]: "store_ok (store_new config)"
  by (simp add: store_ok_def store_new_def)

lemma length_entries: "distinct (map fst es) \<Longrightarrow> length es = card (fst ` set es)"
  by (metis distinct_card length_map set_map)

lemma set_put:
  "distinct (map fst (cs_candidates s)) \<Longrightarrow>
   set (cs_candidates (put k c s)) \<subseteq> insert (k, c) (set (cs_candidates s))"
proof
  fix x assume d: "distinct (map fst (cs_candidates s))" and x: "x \<in> set (cs_candidates (put k c s))"
  obtain l d' where xd: "x = (l, d')" by (cases x)
  have "distinct (map fst (cs_candidates (put k c s)))"
    using d by (simp add: put_def distinct_update)
  with x xd have "map_of (cs_candidates (put k c s)) l = Some d'" by (intro map_of_is_SomeI) auto
  then show "x \<in> insert (k, c) (set (cs_candidates s))"
    using xd by (auto split: if_splits dest: map_of_SomeD)
qed

lemma set_evict: "set (cs_candidates (evict k s)) \<subseteq> set (cs_candidates s)"
  by (auto simp: evict_def AList.delete_eq)

lemma distinct_put: "distinct (map fst (cs_candidates s)) \<Longrightarrow>
    distinct (map fst (cs_candidates (put k c s)))"
  by (simp add: put_def distinct_update)

lemma distinct_evict: "distinct (map fst (cs_candidates s)) \<Longrightarrow>
    distinct (map fst (cs_candidates (evict k s)))"
  by (simp add: evict_def distinct_delete)

lemma length_put: "distinct (map fst (cs_candidates s)) \<Longrightarrow>
    length (cs_candidates (put k c s)) = card (insert k (fst ` set (cs_candidates s)))"
  using length_entries [OF distinct_put [of s k c]] by simp

lemma length_evict: "distinct (map fst (cs_candidates s)) \<Longrightarrow> k \<in> fst ` set (cs_candidates s) \<Longrightarrow>
    length (cs_candidates (evict k s)) = length (cs_candidates s) - 1"
  using length_entries [OF distinct_evict [of s k]] length_entries [of "cs_candidates s"] by simp

lemma store_ok_put_new:
  assumes "store_ok s" and "k = identity_key c"
    and "length (cs_candidates s) < csc_max_candidates (cs_config s)"
  shows "store_ok (put k c s)"
proof -
  let ?E = "cs_candidates s"
  have d: "distinct (map fst ?E)" using assms(1) by (simp add: store_ok_def)
  have "card (insert k (fst ` set ?E)) \<le> Suc (length ?E)"
    using card_insert_le_m1 [of "Suc (length ?E)" "fst ` set ?E" k] length_entries [OF d] by simp
  with assms d show ?thesis
    using set_put [OF d, of k c] by (fastforce simp: store_ok_def length_put distinct_put)
qed

lemma store_ok_evict: "store_ok s \<Longrightarrow> store_ok (evict k s)"
proof -
  assume ok: "store_ok s"
  have "length (cs_candidates (evict k s)) \<le> length (cs_candidates s)"
    by (simp add: evict_def length_delete_le)
  with ok set_evict [of k s] show ?thesis by (fastforce simp: store_ok_def distinct_evict)
qed

lemma store_ok_put_old:
  assumes "store_ok s" and "k = identity_key c" and "k \<in> fst ` set (cs_candidates s)"
  shows "store_ok (put k c s)"
proof -
  have d: "distinct (map fst (cs_candidates s))" using assms(1) by (simp add: store_ok_def)
  have "insert k (fst ` set (cs_candidates s)) = fst ` set (cs_candidates s)"
    using assms(3) by auto
  with length_entries [OF d] have "length (cs_candidates (put k c s)) = length (cs_candidates s)"
    by (simp add: length_put [OF d])
  with assms d show ?thesis
    using set_put [OF d, of k c] by (fastforce simp: store_ok_def distinct_put)
qed

lemma store_ok_insert:
  assumes ok: "store_ok s"
  shows "store_ok (fst (store_insert keccak s c))"
proof -
  let ?k = "identity_key c" and ?E = "cs_candidates s" and ?f = "score keccak (cs_config s)"
  show ?thesis
  proof (cases "map_of ?E ?k")
    case (Some e)
    then have "?k \<in> fst ` set ?E" by (metis domI dom_map_of_conv_image_fst)
    then show ?thesis using ok Some by (simp add: store_insert_def store_ok_put_old)
  next
    case None
    show ?thesis
    proof (cases "length ?E < csc_max_candidates (cs_config s)")
      case True
      then show ?thesis using ok None by (simp add: store_insert_def store_ok_put_new)
    next
      case full: False
      with ok obtain w where w: "max_by_key ?f (map fst ?E) = Some w"
        by (cases "max_by_key ?f (map fst ?E)") (auto simp: store_ok_def)
      have wE: "w \<in> fst ` set ?E" using max_by_key_Some(1) [OF w] by simp
      have "length (cs_candidates (evict w s)) < csc_max_candidates (cs_config (evict w s))"
        using ok wE by (auto simp: store_ok_def length_evict)
      from store_ok_put_new [OF store_ok_evict [OF ok] refl this] ok w None full show ?thesis
        by (simp add: store_insert_def Let_def)
    qed
  qed
qed

lemma store_ok_insert_all: "store_ok s \<Longrightarrow> store_ok (insert_all keccak s cs)"
  by (induction cs rule: rev_induct) (simp_all add: store_ok_insert)

section \<open>What a store can contain\<close>

lemma store_insert_contents:
  assumes "store_ok s"
  shows "snd ` set (cs_candidates (fst (store_insert keccak s c))) \<subseteq>
    insert c (snd ` set (cs_candidates s))"
proof -
  have d: "distinct (map fst (cs_candidates s))" using assms by (simp add: store_ok_def)
  have p: "snd ` set (cs_candidates (put k c s)) \<subseteq> insert c (snd ` set (cs_candidates s))" for k
    using set_put [OF d, of k c] by fastforce
  have e: "snd ` set (cs_candidates (put k c (evict w s))) \<subseteq> insert c (snd ` set (cs_candidates s))"
    for k w using set_put [OF distinct_evict [OF d], of k c w] set_evict [of w s] by fastforce
  have "fst (store_insert keccak s c) = s \<or> (\<exists>k. fst (store_insert keccak s c) = put k c s) \<or>
      (\<exists>k w. fst (store_insert keccak s c) = put k c (evict w s))"
    by (auto simp: store_insert_def Let_def split: option.splits)
  then show ?thesis by (elim disjE exE) (simp_all only: p e subset_insertI)
qed

lemma insert_all_contents:
  assumes "store_ok s"
  shows "snd ` set (cs_candidates (insert_all keccak s cs)) \<subseteq> snd ` set (cs_candidates s) \<union> set cs"
proof (induction cs rule: rev_induct)
  case (snoc c cs)
  with store_insert_contents [OF store_ok_insert_all [OF assms, of keccak cs], of keccak c]
  show ?case by auto
qed simp

lemma set_store_ranked: "set (store_ranked keccak s) = snd ` set (cs_candidates s)"
  by (simp add: store_ranked_def)

lemma ranked_identities:
  assumes "store_ok s"
  shows "distinct (map identity_key (store_ranked keccak s))"
    and "length (store_ranked keccak s) \<le> csc_max_candidates (cs_config s)"
proof -
  let ?R = "sort_key (\<lambda>(identity, _). score keccak (cs_config s) identity) (cs_candidates s)"
  have "map identity_key (map snd ?R) = map fst ?R"
    using assms by (auto simp: store_ok_def)
  moreover have "distinct (map fst ?R)"
    using assms distinct_map [of fst ?R] distinct_map [of fst "cs_candidates s"]
    by (simp add: store_ok_def)
  ultimately show "distinct (map identity_key (store_ranked keccak s))"
    by (simp only: store_ranked_def)
  show "length (store_ranked keccak s) \<le> csc_max_candidates (cs_config s)"
    using assms by (simp add: store_ranked_def store_ok_def)
qed

text \<open>Within the capacity nothing is replaced, evicted or sampled out.\<close>

lemma update_new: "k \<notin> fst ` set es \<Longrightarrow> AList.update k v es = es @ [(k, v)]"
  by (induction es) auto

lemma insert_all_room:
  "distinct (map identity_key cs) \<Longrightarrow> length cs \<le> max (csc_max_candidates config) 1 \<Longrightarrow>
   cs_candidates (insert_all keccak (store_new config) cs) = map (\<lambda>c. (identity_key c, c)) cs"
proof (induction cs rule: rev_induct)
  case (snoc c cs)
  let ?s = "insert_all keccak (store_new config) cs"
  have s: "cs_candidates ?s = map (\<lambda>c. (identity_key c, c)) cs" using snoc by simp
  have new: "identity_key c \<notin> fst ` set (cs_candidates ?s)"
    using snoc.prems(1) by (auto simp: s)
  then have "map_of (cs_candidates ?s) (identity_key c) = None" by (simp add: map_of_eq_None_iff)
  moreover have "length cs < csc_max_candidates (cs_config (store_new config))"
    using snoc.prems(2) by (simp add: store_new_def)
  ultimately have "fst (store_insert keccak ?s c) = put (identity_key c) c ?s"
    using s by (simp add: store_insert_def Let_def)
  then show ?case using new s by (simp add: put_def update_new)
qed (simp add: insert_all_def store_new_def)

section \<open>What one insertion does\<close>

text \<open>
  From any well-formed store, an insertion keeps it well-formed (distinct identity keys, at
  most the configured number of candidates) and does what its answer says: a new identity
  is found afterwards; a replacement was strictly fresher than the record it replaced; a
  stale record was not, and changes nothing; a sampled-out identity met a full store of
  identities that all score at most its own, and changes nothing. Records of other
  identities are never altered, only evicted, and only by an insertion into a full store.
\<close>

theorem store_insert_contract:
  assumes "store_ok s" and "store_insert keccak s c = (s', answer)"
  shows "store_ok s' \<and>
    (case answer of
       Inserted \<Rightarrow> map_of (cs_candidates s) (identity_key c) = None \<and>
         store_get s' (pc_record_type c) (pc_peer_id c) = Some c
     | Replaced \<Rightarrow> (\<exists>old. store_get s (pc_record_type c) (pc_peer_id c) = Some old \<and>
         freshness_of old < freshness_of c) \<and>
         store_get s' (pc_record_type c) (pc_peer_id c) = Some c
     | Stale \<Rightarrow> s' = s \<and> (\<exists>old. store_get s (pc_record_type c) (pc_peer_id c) = Some old \<and>
         freshness_of c \<le> freshness_of old)
     | SampledOut \<Rightarrow> s' = s \<and> store_len s = csc_max_candidates (cs_config s) \<and>
         (\<forall>k \<in> fst ` set (cs_candidates s).
            score keccak (cs_config s) k \<le> score keccak (cs_config s) (identity_key c))) \<and>
    (\<forall>k. k \<noteq> identity_key c \<longrightarrow>
       map_of (cs_candidates s') k = map_of (cs_candidates s) k \<or>
       map_of (cs_candidates s') k = None \<and>
         store_len s = csc_max_candidates (cs_config s))"
proof -
  let ?k = "identity_key c" and ?E = "cs_candidates s" and ?f = "score keccak (cs_config s)"
  have ok': "store_ok s'" using store_ok_insert [OF assms(1), of keccak c] assms(2) by simp
  have get: "store_get t (pc_record_type c) (pc_peer_id c) = map_of (cs_candidates t) ?k" for t
    by (simp add: store_get_def identity_key_def)
  show ?thesis
  proof (cases "map_of ?E ?k")
    case (Some e)
    with assms(2) ok' show ?thesis
      by (auto simp: store_insert_def get not_less split: if_splits)
  next
    case None
    show ?thesis
    proof (cases "length ?E < csc_max_candidates (cs_config s)")
      case True
      with None assms(2) ok' show ?thesis by (auto simp: store_insert_def get)
    next
      case full: False
      with assms(1) have len: "store_len s = csc_max_candidates (cs_config s)"
        by (simp add: store_ok_def store_len_def)
      from full assms(1) obtain w where w: "max_by_key ?f (map fst ?E) = Some w"
        by (cases "max_by_key ?f (map fst ?E)") (auto simp: store_ok_def)
      have le: "?f k \<le> ?f w" if "k \<in> fst ` set ?E" for k
        using max_by_key_Some(2) [OF w] that by simp
      show ?thesis
      proof (cases "?f ?k < ?f w")
        case True
        with None full w assms(2) have "s' = put ?k c (evict w s)" "answer = Inserted"
          by (simp_all add: store_insert_def Let_def)
        with ok' None len show ?thesis by (simp add: get)
      next
        case False
        with None full w assms(2) have "s' = s" "answer = SampledOut"
          by (simp_all add: store_insert_def Let_def)
        with ok' None len le False show ?thesis by (fastforce simp: get)
      qed
    qed
  qed
qed

definition sample_candidate :: "u8 \<Rightarrow> u64 \<Rightarrow> peer_candidate" where
  "sample_candidate i sequence =
     \<lparr> pc_record_type = 2, pc_peer_id = [i], pc_sequence = sequence,
       pc_endpoints = [\<lparr> ep_address = ''/ip4/192.0.2.1/tcp/4001'' \<rparr>],
       pc_raw_signed_record = [i], pc_expires_at = 100, pc_source = ResurrectRegistry,
       pc_announcement_block = Some sequence, pc_announcement_log_index = Some 0 \<rparr>"

theorem store_insert_contract_witness:
  "\<exists>s'. store_insert (\<lambda>_. 0) (store_new default_store_config) (sample_candidate 1 2) = (s', Inserted) \<and>
     store_get s' 2 [1] = Some (sample_candidate 1 2)"
proof -
  obtain s' where s': "store_insert (\<lambda>_. 0) (store_new default_store_config) (sample_candidate 1 2) =
      (s', Inserted)"
    by (simp add: store_insert_def store_new_def default_store_config_def
        DEFAULT_MAX_ACTIVE_CANDIDATES_def)
  from store_insert_contract [OF store_ok_new s'] s' show ?thesis
    by (simp add: sample_candidate_def)
qed

end
