(* ===== verification/Core_Sample.thy ===== *)
theory Core_Sample
  imports Core_Candidates
begin

text \<open>
  What the candidate store computes, stated without a store: of all identities ever offered,
  those with the lowest scores, each with its freshest record. The incremental, bounded
  insertion of \<open>CandidateStore\<close> is shown to compute exactly this sample, so its result does
  not depend on the order of insertion.
\<close>

section \<open>Lowest-scoring subsets\<close>

definition lowest :: "('k \<Rightarrow> 's::linorder) \<Rightarrow> nat \<Rightarrow> 'k set \<Rightarrow> 'k set \<Rightarrow> bool" where
  "lowest f n S T \<longleftrightarrow> finite S \<and> T \<subseteq> S \<and> card T = min n (card S) \<and>
     (\<forall>x \<in> T. \<forall>y \<in> S - T. f x < f y)"

lemma lowest_empty [simp]: "lowest f n {} {}"
  by (simp add: lowest_def)

lemma lowest_less: "lowest f n S T \<Longrightarrow> x \<in> T \<Longrightarrow> y \<in> S \<Longrightarrow> y \<notin> T \<Longrightarrow> f x < f y"
  by (simp add: lowest_def)

lemma lowest_unique:
  assumes "lowest f n S T" and "lowest f n S U"
  shows "T = U"
proof -
  have fin: "finite T" "finite U" using assms by (auto simp: lowest_def intro: finite_subset)
  have card: "card T = card U" using assms by (simp add: lowest_def)
  have "T \<subseteq> U \<or> U \<subseteq> T"
  proof (rule ccontr)
    assume "\<not> (T \<subseteq> U \<or> U \<subseteq> T)"
    then obtain a b where "a \<in> T" "a \<notin> U" "b \<in> U" "b \<notin> T" by blast
    with assms have "f a < f b" "f b < f a" by (auto simp: lowest_def)
    then show False by simp
  qed
  with card fin show ?thesis by (metis card_subset_eq)
qed

lemma lowest_not_full: "lowest f n S T \<Longrightarrow> card T < n \<Longrightarrow> T = S"
  using card_subset_eq [of S T] by (auto simp: lowest_def min_def split: if_splits)

lemma lowest_room:
  assumes "lowest f n S T" and "card T < n" and "x \<notin> S"
  shows "lowest f n (insert x S) (insert x T)"
  using assms lowest_not_full [OF assms(1,2)] by (auto simp: lowest_def)

lemma lowest_evict:
  assumes low: "lowest f n S T" and full: "card T = n" and x: "x \<notin> S"
    and w: "w \<in> T" "\<And>y. y \<in> T \<Longrightarrow> f y \<le> f w" and better: "f x < f w" and inj: "inj_on f S"
  shows "lowest f n (insert x S) (insert x (T - {w}))"
proof -
  have fin: "finite S" "finite T" using low by (auto simp: lowest_def intro: finite_subset)
  have sub: "T \<subseteq> S" using low by (simp add: lowest_def)
  have strict: "f y < f w" if "y \<in> T" "y \<noteq> w" for y
  proof -
    have "f y \<noteq> f w" using inj sub w(1) that by (auto dest: inj_onD)
    with w(2) [OF that(1)] show ?thesis by simp
  qed
  have "card (insert x (T - {w})) = card T"
    using fin sub x w(1) by (metis Diff_iff card_Suc_Diff1 card_insert_disjoint finite_Diff subsetD)
  moreover have "card T \<le> card S" using fin sub by (simp add: card_mono)
  ultimately have "card (insert x (T - {w})) = min n (card (insert x S))"
    using full fin x by simp
  moreover have "\<forall>a \<in> insert x (T - {w}). \<forall>y \<in> insert x S - insert x (T - {w}). f a < f y"
  proof (intro ballI)
    fix a y
    assume a: "a \<in> insert x (T - {w})" and y: "y \<in> insert x S - insert x (T - {w})"
    from y consider "y = w" | "y \<in> S - T" by auto
    then show "f a < f y"
    proof cases
      case 1
      with a better strict show ?thesis by auto
    next
      case 2
      with low w(1) have "f w < f y" by (simp add: lowest_def)
      with a better strict show ?thesis by fastforce
    qed
  qed
  ultimately show ?thesis using fin sub by (auto simp: lowest_def)
qed

lemma lowest_reject:
  assumes low: "lowest f n S T" and full: "card T = n"
    and w: "\<And>y. y \<in> T \<Longrightarrow> f y < f x"
  shows "lowest f n (insert x S) T"
proof (cases "x \<in> S")
  case True
  with low show ?thesis by (simp add: insert_absorb)
next
  case False
  have "card T \<le> card S" using low by (auto simp: lowest_def intro: card_mono)
  with False low full w show ?thesis by (auto simp: lowest_def)
qed

lemma lowest_take:
  fixes f :: "'k \<Rightarrow> 's::linorder"
  assumes "inj_on f (set xs)"
  shows "lowest f n (set xs) (set (take n (sort_key f (remdups xs))))"
proof -
  let ?L = "sort_key f (remdups xs)"
  have d: "distinct ?L" and s: "sorted (map f ?L)" and st: "set ?L = set xs" by simp_all
  have "card (set (take n ?L)) = min n (card (set xs))"
    using d by (simp add: distinct_card min.commute) (metis distinct_card distinct_remdups
        length_remdups_card_conv min.commute)
  moreover have "f x < f y" if "x \<in> set (take n ?L)" and "y \<in> set xs - set (take n ?L)" for x y
  proof -
    have y: "y \<in> set (drop n ?L)" using that(2) st by (metis Diff_iff Un_iff append_take_drop_id set_append)
    have "sorted (map f (take n ?L) @ map f (drop n ?L))"
      using s by (simp flip: map_append)
    then have "f x \<le> f y" using that(1) y by (auto simp: sorted_append)
    moreover have "x \<in> set xs" "x \<noteq> y" using that st by (auto dest: in_set_takeD)
    then have "f x \<noteq> f y" using assms that(2) by (auto dest: inj_onD)
    ultimately show ?thesis by simp
  qed
  moreover have "set (take n ?L) \<subseteq> set xs" using st by (metis set_take_subset)
  ultimately show ?thesis by (simp add: lowest_def)
qed

section \<open>The freshest record of an identity\<close>

definition freshest :: "bytes \<Rightarrow> peer_candidate list \<Rightarrow> peer_candidate option" where
  "freshest k cs = foldl (\<lambda>b c. if identity_key c = k
     then (case b of None \<Rightarrow> Some c
           | Some old \<Rightarrow> if freshness_of old < freshness_of c then Some c else Some old)
     else b) None cs"

lemma freshest_Nil [simp]: "freshest k [] = None"
  by (simp add: freshest_def)

lemma freshest_snoc [simp]:
  "freshest k (cs @ [c]) = (if identity_key c = k
     then (case freshest k cs of None \<Rightarrow> Some c
           | Some old \<Rightarrow> if freshness_of old < freshness_of c then Some c else Some old)
     else freshest k cs)"
  by (simp add: freshest_def)

lemma freshest_None_iff: "freshest k cs = None \<longleftrightarrow> k \<notin> identity_key ` set cs"
  by (induction cs rule: rev_induct) (auto split: option.splits)

lemma freshest_Some:
  "freshest k cs = Some c \<Longrightarrow> c \<in> set cs \<and> identity_key c = k \<and>
     (\<forall>d \<in> set cs. identity_key d = k \<longrightarrow> freshness_of d \<le> freshness_of c)"
proof (induction cs arbitrary: c rule: rev_induct)
  case Nil
  then show ?case by simp
next
  case (snoc d cs)
  show ?case
  proof (cases "freshest k cs")
    case None
    with snoc.prems have "identity_key d = k" "c = d" by (auto split: if_splits)
    moreover from None have "\<forall>e \<in> set cs. identity_key e \<noteq> k" by (auto simp: freshest_None_iff)
    ultimately show ?thesis by auto
  next
    case (Some old)
    with snoc show ?thesis by (fastforce split: if_splits)
  qed
qed

lemma freshest_unique:
  assumes "inj_on (\<lambda>c. (identity_key c, freshness_of c)) (set cs)" and "set cs = set ds"
  shows "freshest k cs = freshest k ds"
proof (cases "freshest k cs")
  case None
  with assms(2) show ?thesis by (simp add: freshest_None_iff) (metis freshest_None_iff)
next
  case (Some c)
  with assms(2) have "freshest k ds \<noteq> None"
    by (metis freshest_None_iff option.distinct(1))
  then obtain d where d: "freshest k ds = Some d" by blast
  from freshest_Some [OF Some] freshest_Some [OF d] assms(2)
  have "c \<in> set cs" "d \<in> set cs" "identity_key c = identity_key d" "freshness_of c = freshness_of d"
    by (auto intro: order_antisym)
  with assms(1) have "c = d" by (auto dest: inj_onD)
  with Some d show ?thesis by simp
qed

section \<open>The store computes the sample\<close>

definition sampled :: "(bytes \<Rightarrow> b256) \<Rightarrow> candidate_store \<Rightarrow> peer_candidate list \<Rightarrow> bool" where
  "sampled keccak s cs \<longleftrightarrow> store_ok s \<and>
     lowest (score keccak (cs_config s)) (csc_max_candidates (cs_config s))
       (identity_key ` set cs) (fst ` set (cs_candidates s)) \<and>
     (\<forall>k \<in> fst ` set (cs_candidates s). map_of (cs_candidates s) k = freshest k cs)"

lemma sampled_new: "sampled keccak (store_new config) []"
  by (simp add: sampled_def) (simp add: store_new_def)

lemma store_full_iff:
  assumes "store_ok s"
  shows "length (cs_candidates s) < csc_max_candidates (cs_config s) \<longleftrightarrow>
         card (fst ` set (cs_candidates s)) < csc_max_candidates (cs_config s)"
  using assms length_entries [of "cs_candidates s"] by (simp add: store_ok_def)

lemma sampled_insert_known:
  assumes "sampled keccak s cs" and "map_of (cs_candidates s) (identity_key c) = Some old"
  shows "sampled keccak (fst (store_insert keccak s c)) (cs @ [c])"
proof -
  let ?k = "identity_key c" and ?E = "cs_candidates s"
  have ok: "store_ok (fst (store_insert keccak s c))"
    using assms(1) by (simp add: sampled_def store_ok_insert)
  have kE: "?k \<in> fst ` set ?E" using assms(2) by (metis domI dom_map_of_conv_image_fst)
  then have kS: "insert ?k (fst ` set ?E) = fst ` set ?E"
    and kC: "insert ?k (identity_key ` set cs) = identity_key ` set cs"
    using assms(1) by (auto simp: sampled_def lowest_def)
  have old: "freshest ?k cs = Some old" using assms kE by (auto simp: sampled_def)
  show ?thesis
  proof (cases "freshness_of old < freshness_of c")
    case True
    with assms(2) have "fst (store_insert keccak s c) = put ?k c s" by (simp add: store_insert_def)
    with assms(1) ok old True kS kC show ?thesis by (auto simp: sampled_def)
  next
    case False
    with assms(2) have "fst (store_insert keccak s c) = s" by (simp add: store_insert_def)
    with assms old False kC show ?thesis by (auto simp: sampled_def)
  qed
qed

lemma sampled_insert_new:
  assumes s: "sampled keccak s cs" and None: "map_of (cs_candidates s) (identity_key c) = None"
    and inj: "inj_on (score keccak (cs_config s)) (identity_key ` set (cs @ [c]))"
  shows "sampled keccak (fst (store_insert keccak s c)) (cs @ [c])"
proof -
  let ?k = "identity_key c" and ?E = "cs_candidates s" and ?S = "identity_key ` set cs"
  let ?T = "fst ` set (cs_candidates s)" and ?n = "csc_max_candidates (cs_config s)"
  let ?f = "score keccak (cs_config s)"
  have ok: "store_ok s" and low: "lowest ?f ?n ?S ?T"
    and fresh: "\<And>k. k \<in> ?T \<Longrightarrow> map_of ?E k = freshest k cs"
    using s by (auto simp: sampled_def)
  have kT: "?k \<notin> ?T" using None by (simp add: map_of_eq_None_iff)
  have ok': "store_ok (fst (store_insert keccak s c))" using ok by (rule store_ok_insert)
  have TS: "?T \<subseteq> ?S" using low by (simp add: lowest_def)
  show ?thesis
  proof (cases "card ?T < ?n")
    case True
    then have kS: "?k \<notin> ?S" using lowest_not_full [OF low True] kT by simp
    then have "freshest ?k cs = None" by (simp add: freshest_None_iff)
    moreover have "fst (store_insert keccak s c) = put ?k c s"
      using True None store_full_iff [OF ok] by (simp add: store_insert_def)
    ultimately show ?thesis
      using ok' fresh kT lowest_room [OF low True kS] by (auto simp: sampled_def)
  next
    case full: False
    with ok low have card: "card ?T = ?n"
      using store_full_iff [OF ok] by (auto simp: lowest_def)
    from full ok store_full_iff [OF ok] obtain w where w: "max_by_key ?f (map fst ?E) = Some w"
      by (cases "max_by_key ?f (map fst ?E)") (auto simp: store_ok_def)
    have wT: "w \<in> ?T" and wmax: "\<And>k. k \<in> ?T \<Longrightarrow> ?f k \<le> ?f w"
      using max_by_key_Some [OF w] by auto
    have step: "fst (store_insert keccak s c) =
        (if ?f ?k < ?f w then put ?k c (evict w s) else s)"
      using None full w store_full_iff [OF ok] by (simp add: store_insert_def Let_def)
    show ?thesis
    proof (cases "?f ?k < ?f w")
      case True
      have kS: "?k \<notin> ?S"
      proof
        assume "?k \<in> ?S"
        from lowest_less [OF low wT this kT] True show False by simp
      qed
      then have "freshest ?k cs = None" by (simp add: freshest_None_iff)
      moreover have "inj_on ?f ?S" using inj by (rule inj_on_subset) auto
      ultimately show ?thesis
        using ok' fresh kT True step lowest_evict [OF low card kS wT wmax True]
        by (auto simp: sampled_def)
    next
      case False
      have "?f y < ?f ?k" if "y \<in> ?T" for y
      proof -
        have "y \<noteq> ?k" using that kT by blast
        moreover have "y \<in> identity_key ` set (cs @ [c])" using TS that by auto
        moreover have "?k \<in> identity_key ` set (cs @ [c])" by simp
        ultimately have "?f y \<noteq> ?f ?k" using inj_on_eq_iff [OF inj] by blast
        with wmax [OF that] False show ?thesis by simp
      qed
      from lowest_reject [OF low card this] step False ok fresh kT show ?thesis
        by (auto simp: sampled_def)
    qed
  qed
qed

lemma sampled_insert_all:
  "inj_on (score keccak config) (identity_key ` set cs) \<Longrightarrow> cs_config s = config \<Longrightarrow>
   sampled keccak s [] \<Longrightarrow> sampled keccak (insert_all keccak s cs) cs"
proof (induction cs rule: rev_induct)
  case Nil
  then show ?case by simp
next
  case (snoc c cs)
  have "inj_on (score keccak config) (identity_key ` set cs)"
    using snoc.prems(1) by (rule inj_on_subset) auto
  with snoc have ih: "sampled keccak (insert_all keccak s cs) cs" by simp
  with snoc.prems show ?case
    by (cases "map_of (cs_candidates (insert_all keccak s cs)) (identity_key c)")
      (simp_all only: insert_all_simps sampled_insert_known sampled_insert_new insert_all_config)
qed

lemma sampled_of_new:
  assumes "inj_on (score keccak config) (identity_key ` set cs)"
  shows "sampled keccak (insert_all keccak (store_new config) cs) cs"
proof -
  let ?c = "config\<lparr> csc_max_candidates := max (csc_max_candidates config) 1 \<rparr>"
  have "score keccak ?c = score keccak config" by (simp add: fun_eq_iff score_def)
  with assms show ?thesis
    using sampled_new by (intro sampled_insert_all [where config = ?c]) (simp_all add: store_new_def)
qed

lemma sampled_len:
  assumes "sampled keccak s cs"
  shows "store_len s = min (csc_max_candidates (cs_config s)) (card (identity_key ` set cs))"
  using assms length_entries [of "cs_candidates s"] by (simp add: sampled_def lowest_def store_ok_def store_len_def)

text \<open>Reading the store out in score order gives the sample's identities in score order.\<close>

definition sample_keys :: "(bytes \<Rightarrow> b256) \<Rightarrow> candidate_store_config \<Rightarrow> bytes list \<Rightarrow> bytes list" where
  "sample_keys keccak config ids =
     take (csc_max_candidates config) (sort_key (score keccak config) (remdups ids))"

lemma sorted_take: "sorted (xs :: 'a::linorder list) \<Longrightarrow> sorted (take n xs)"
  by (metis append_take_drop_id sorted_append)

lemma sample_keys_unique:
  assumes inj: "inj_on (score keccak config) (set ids)"
    and ks: "distinct ks" "sorted (map (score keccak config) ks)"
      "lowest (score keccak config) (csc_max_candidates config) (set ids) (set ks)"
  shows "ks = sample_keys keccak config ids"
proof -
  let ?f = "score keccak config" and ?L = "sample_keys keccak config ids"
  have "lowest ?f (csc_max_candidates config) (set ids) (set ?L)"
    unfolding sample_keys_def using inj by (rule lowest_take)
  from lowest_unique [OF ks(3) this] have eq: "set ks = set ?L" .
  have sub: "set ks \<subseteq> set ids" using ks(3) by (simp add: lowest_def)
  have "sorted (map ?f ?L)"
    unfolding sample_keys_def by (subst take_map [symmetric]) (intro sorted_take sorted_sort_key)
  moreover have "distinct ?L" by (simp add: sample_keys_def)
  ultimately have "map ?f ks = map ?f ?L"
    using ks eq inj_on_subset [OF inj] sub
    by (intro sorted_distinct_set_unique) (auto simp: distinct_map)
  then show ?thesis
    using inj_on_subset [OF inj, of "set ks \<union> set ?L"] eq sub by (auto intro: map_inj_on)
qed

lemma ranked_entries:
  assumes "sampled keccak s cs" and inj: "inj_on (score keccak (cs_config s)) (identity_key ` set cs)"
  shows "map Some (store_ranked keccak s) =
    map (\<lambda>k. freshest k cs) (sample_keys keccak (cs_config s) (map identity_key cs))"
proof -
  let ?f = "score keccak (cs_config s)"
  let ?R = "sort_key (\<lambda>(k, _). ?f k) (cs_candidates s)"
  have d: "distinct (map fst ?R)"
    using assms(1) distinct_map [of fst ?R] distinct_map [of fst "cs_candidates s"]
    by (simp add: sampled_def store_ok_def)
  have "map ?f (map fst ?R) = map (\<lambda>(k, _). ?f k) ?R" by (simp add: case_prod_unfold)
  then have "sorted (map ?f (map fst ?R))" by (metis sorted_sort_key)
  with d assms have keys: "map fst ?R = sample_keys keccak (cs_config s) (map identity_key cs)"
    by (intro sample_keys_unique) (simp_all add: sampled_def)
  have "Some (snd e) = freshest (fst e) cs" if "e \<in> set ?R" for e
  proof -
    have "map_of (cs_candidates s) (fst e) = Some (snd e)"
      using that assms(1) by (intro map_of_is_SomeI) (auto simp: sampled_def store_ok_def)
    moreover have "fst e \<in> fst ` set (cs_candidates s)" using that by simp
    ultimately show ?thesis using assms(1) by (auto simp: sampled_def)
  qed
  then have "map Some (map snd ?R) = map (\<lambda>k. freshest k cs) (map fst ?R)" by simp
  with keys show ?thesis by (simp add: store_ranked_def)
qed

lemma ranked_order_independent:
  assumes s: "sampled keccak s cs" and t: "sampled keccak t ds" and c: "cs_config s = cs_config t"
    and eq: "set cs = set ds"
    and inj: "inj_on (score keccak (cs_config s)) (identity_key ` set cs)"
    and fresh: "inj_on (\<lambda>c. (identity_key c, freshness_of c)) (set cs)"
  shows "store_ranked keccak s = store_ranked keccak t"
proof -
  let ?c = "cs_config s"
  have keys: "sample_keys keccak ?c (map identity_key cs) = sample_keys keccak ?c (map identity_key ds)"
  proof (rule sample_keys_unique)
    show "inj_on (score keccak ?c) (set (map identity_key ds))" using inj eq by simp
    show "distinct (sample_keys keccak ?c (map identity_key cs))" by (simp add: sample_keys_def)
    show "sorted (map (score keccak ?c) (sample_keys keccak ?c (map identity_key cs)))"
      unfolding sample_keys_def by (subst take_map [symmetric]) (intro sorted_take sorted_sort_key)
    show "lowest (score keccak ?c) (csc_max_candidates ?c) (set (map identity_key ds))
        (set (sample_keys keccak ?c (map identity_key cs)))"
      using lowest_take [of "score keccak ?c" "map identity_key cs" "csc_max_candidates ?c"] eq inj
      by (simp add: sample_keys_def)
  qed
  have "map Some (store_ranked keccak s) = map Some (store_ranked keccak t)"
    using ranked_entries [OF s] ranked_entries [OF t] c eq inj keys freshest_unique [OF fresh eq] by simp
  then show ?thesis by (rule map_injective) simp
qed

text \<open>
  C6: the candidates a store returns after any sequence of insertions are exactly, in score
  order, the identities with the lowest scores of all those offered, as many as the cap (at
  least one) allows, each with the freshest record offered for it, provided the hash does
  not give two of the offered identities the same score. Early or late, often or once, a
  record inserted into the bounded store has the effect it has on this specification.
\<close>

theorem store_refines_sample:
  assumes "inj_on (score keccak config) (identity_key ` set cs)"
  shows "map Some (store_ranked keccak (insert_all keccak (store_new config) cs)) =
    map (\<lambda>k. freshest k cs)
      (take (max (csc_max_candidates config) 1)
        (sort_key (score keccak config) (remdups (map identity_key cs))))"
proof -
  let ?c = "config\<lparr> csc_max_candidates := max (csc_max_candidates config) 1 \<rparr>"
  have f: "score keccak ?c = score keccak config" by (simp add: fun_eq_iff score_def)
  have c: "cs_config (store_new config) = ?c" by (simp add: store_new_def)
  from ranked_entries [OF sampled_of_new [OF assms]] assms c f show ?thesis by (simp add: sample_keys_def)
qed

text \<open>A toy hash for the concrete instances: the bytes read as one big-endian number.\<close>

definition sum_hash :: "bytes \<Rightarrow> b256" where
  "sum_hash bs = foldl (\<lambda>a b. a * 256 + ucast b) 0 bs"

lemma sum_hash_zeros: "foldl (\<lambda>a b. a * 256 + ucast b) (0 :: b256) (replicate n (0 :: u8)) = 0"
  by (induction n) simp_all

lemma be_bytes_0: "be_bytes n (0 :: 'a::len word) = replicate n 0"
  by (rule nth_equalityI) (simp_all add: be_bytes_def)

lemma identity_key_sample: "identity_key (sample_candidate i n) = [0, 0, 0, 2, i]"
  by (simp add: identity_key_def sample_candidate_def be_bytes_def upt_rec)

lemma score_sample:
  "score sum_hash \<lparr> csc_max_candidates = m, csc_sampling_seed = 0 \<rparr> [0, 0, 0, 2, i] = 512 + ucast i"
  by (simp add: score_def sum_hash_def be_bytes_0 sum_hash_zeros)

theorem store_refines_sample_witness:
  "store_ranked sum_hash
     (insert_all sum_hash (store_new \<lparr> csc_max_candidates = 1, csc_sampling_seed = 0 \<rparr>)
       [sample_candidate 2 1, sample_candidate 1 1, sample_candidate 1 5, sample_candidate 2 9]) =
   [sample_candidate 1 5]"
proof -
  let ?config = "\<lparr> csc_max_candidates = 1, csc_sampling_seed = 0 \<rparr>"
  let ?cs = "[sample_candidate 2 1, sample_candidate 1 1, sample_candidate 1 5, sample_candidate 2 9]"
  have ids: "map identity_key ?cs = [[0, 0, 0, 2, 2], [0, 0, 0, 2, 1], [0, 0, 0, 2, 1], [0, 0, 0, 2, 2]]"
    by (simp add: identity_key_sample)
  have inj: "inj_on (score sum_hash ?config) (identity_key ` set ?cs)"
    by (auto simp: inj_on_def identity_key_sample score_sample)
  have f: "freshest [0, 0, 0, 2, 1] ?cs = Some (sample_candidate 1 5)"
    by (simp add: freshest_def identity_key_sample freshness_of_def less_freshness_def)
      (simp add: sample_candidate_def)
  from store_refines_sample [OF inj] ids f
  have "map Some (store_ranked sum_hash (insert_all sum_hash (store_new ?config) ?cs)) =
      [Some (sample_candidate 1 5)]" by (simp add: score_sample)
  then show ?thesis by (simp only: map_eq_Cons_conv) simp
qed

text \<open>
  C21: the result does not depend on the order or the multiplicity of the insertions: two
  sequences that offer the same set of candidates leave stores that return the same list,
  provided no two different records of one identity are equally fresh (and no two offered
  identities share a score). A flood of spam cannot displace a peer by arriving first.
\<close>

theorem store_order_independent:
  assumes "set cs = set ds"
    and "inj_on (score keccak config) (identity_key ` set cs)"
    and "inj_on (\<lambda>c. (identity_key c, freshness_of c)) (set cs)"
  shows "store_ranked keccak (insert_all keccak (store_new config) cs) =
         store_ranked keccak (insert_all keccak (store_new config) ds)"
proof -
  have c: "score keccak (cs_config (insert_all keccak (store_new config) cs)) = score keccak config"
    by (simp add: fun_eq_iff score_def store_new_def)
  show ?thesis
    by (rule ranked_order_independent [OF sampled_of_new [OF assms(2)]
          sampled_of_new [OF assms(2) [unfolded assms(1)]] _ assms(1) _ assms(3)])
      (use assms(2) c in simp_all)
qed

theorem store_order_independent_witness:
  "store_ranked sum_hash
     (insert_all sum_hash (store_new \<lparr> csc_max_candidates = 1, csc_sampling_seed = 0 \<rparr>)
       [sample_candidate 2 1, sample_candidate 1 1]) =
   store_ranked sum_hash
     (insert_all sum_hash (store_new \<lparr> csc_max_candidates = 1, csc_sampling_seed = 0 \<rparr>)
       [sample_candidate 1 1, sample_candidate 2 1, sample_candidate 1 1])"
proof -
  let ?config = "\<lparr> csc_max_candidates = 1, csc_sampling_seed = 0 \<rparr>"
  let ?cs = "[sample_candidate 2 1, sample_candidate 1 1]"
  have "set ?cs = set [sample_candidate 1 1, sample_candidate 2 1, sample_candidate 1 1]" by auto
  moreover have "inj_on (score sum_hash ?config) (identity_key ` set ?cs)"
    by (auto simp: inj_on_def identity_key_sample score_sample)
  moreover have "inj_on (\<lambda>c. (identity_key c, freshness_of c)) (set ?cs)"
    by (auto simp: inj_on_def identity_key_sample)
  ultimately show ?thesis by (rule store_order_independent)
qed

end
