(* ===== verification/Eth_Scanner.thy ===== *)
theory Eth_Scanner
  imports Core_Sample Eth_Provider
begin

text \<open>
  \<open>crates/resurrect-ethereum/src/scanner.rs\<close>: the recent-window registry scanner, as
  procedures over a provider. Error values carry the failing component's error instead of
  its text. Its loops are recursive functions whose termination is proved for every
  provider: the binary search by the width of the window, the log loop by the blocks left
  and, at one position, by the chunk width.
\<close>

section \<open>Data\<close>

definition DEFAULT_INITIAL_CHUNK_SIZE :: u64 where "DEFAULT_INITIAL_CHUNK_SIZE = 20000"
definition DEFAULT_MAX_LOGS_PER_SCAN :: nat where "DEFAULT_MAX_LOGS_PER_SCAN = 50000"

record scanner_config =
  sc_initial_chunk_size :: u64
  sc_minimum_chunk_size :: u64
  sc_max_logs_per_scan :: nat
  sc_max_candidates :: nat
  sc_max_endpoints_per_record :: nat
  sc_fallback_confirmations :: u64
  sc_use_finality_tags :: bool
  sc_dial_context :: dial_context

definition default_scanner_config :: scanner_config where
  "default_scanner_config =
     \<lparr> sc_initial_chunk_size = DEFAULT_INITIAL_CHUNK_SIZE, sc_minimum_chunk_size = 64,
       sc_max_logs_per_scan = DEFAULT_MAX_LOGS_PER_SCAN,
       sc_max_candidates = DEFAULT_MAX_ACTIVE_CANDIDATES,
       sc_max_endpoints_per_record = DEFAULT_MAX_ENDPOINTS_PER_RECORD,
       sc_fallback_confirmations = 12, sc_use_finality_tags = True,
       sc_dial_context = NativeServer \<rparr>"

record scan_checkpoint =
  ck_number :: u64
  ck_hash :: b256

record scan_report =
  sr_start_block :: u64
  sr_head :: block_info
  sr_checkpoint :: scan_checkpoint
  sr_reorg_detected :: bool
  sr_logs_processed :: nat
  sr_records_rejected :: nat
  sr_chunk_reductions :: nat
  sr_candidates :: "peer_candidate list"

datatype scan_error =
    ScanDescriptor descriptor_error
  | ScanWrongChain u256 u256 \<comment> \<open>expected, actual\<close>
  | ScanRegistryConstants registry_constants
  | MissingBlock string
  | DeploymentAfterHead u64 u64 \<comment> \<open>deployment, head\<close>
  | ScanProvider provider_error

section \<open>The scan head and reorgs\<close>

definition ok_or :: "'a option \<Rightarrow> 'e \<Rightarrow> 'e + 'a" where
  "ok_or x e = (case x of None \<Rightarrow> Inl e | Some v \<Rightarrow> Inr v)"

lemma ok_or_Inr_iff [simp]: "ok_or x e = Inr v \<longleftrightarrow> x = Some v"
  by (cases x) (simp_all add: ok_or_def)

text \<open>One finality tag: the block if there is one, the fallback if the tag is not available.\<close>

definition try_tag :: "'w registry_provider \<Rightarrow> block_reference \<Rightarrow>
    ('w, scan_error, block_info) proc \<Rightarrow> ('w, scan_error, block_info) proc" where
  "try_tag P tag otherwise w =
     (case rp_block P tag w of
        (Inr (Some block), v) \<Rightarrow> (Inr block, v)
      | (Inr None, v) \<Rightarrow> otherwise v
      | (Inl (Unsupported _), v) \<Rightarrow> otherwise v
      | (Inl error, v) \<Rightarrow> (Inl (ScanProvider error), v))"

definition fallback_head ::
  "'w registry_provider \<Rightarrow> scanner_config \<Rightarrow> ('w, scan_error, block_info) proc" where
  "fallback_head P config =
     and_then (proc_err ScanProvider (rp_block P Latest)) (\<lambda>found.
     and_then (lift_res (ok_or found (MissingBlock ''latest''))) (\<lambda>latest.
     and_then (proc_err ScanProvider (rp_block P
         (Number (saturating_sub (bi_number latest) (sc_fallback_confirmations config))))) (\<lambda>confirmed.
     lift_res (ok_or confirmed (MissingBlock ''confirmed'')))))"

definition confirmed_head ::
  "'w registry_provider \<Rightarrow> scanner_config \<Rightarrow> ('w, scan_error, block_info) proc" where
  "confirmed_head P config =
     (if sc_use_finality_tags config
      then try_tag P Finalized (try_tag P Safe (fallback_head P config))
      else fallback_head P config)"

definition detect_reorg ::
  "'w registry_provider \<Rightarrow> scan_checkpoint option \<Rightarrow> ('w, scan_error, bool) proc" where
  "detect_reorg P previous =
     (case previous of
        None \<Rightarrow> succeed False
      | Some p \<Rightarrow>
          and_then (proc_err ScanProvider (rp_block P (Number (ck_number p)))) (\<lambda>current.
          succeed (case current of None \<Rightarrow> True | Some block \<Rightarrow> bi_hash block \<noteq> ck_hash p)))"

section \<open>The binary search for the start block\<close>

lemma middle_bounds:
  fixes low high :: u64
  assumes "low < high"
  defines "m \<equiv> low + (high - low) div 2"
  shows "low \<le> m" and "m < high" and "unat (m + 1) = Suc (unat m)"
    and "unat m - unat low \<le> (unat high - unat low) div 2"
    and "unat high - unat (m + 1) \<le> (unat high - unat low) div 2"
proof -
  have lt: "unat low < unat high" using assms(1) by (simp add: word_less_nat_alt)
  have m: "unat m = unat low + (unat high - unat low) div 2"
    unfolding m_def by (rule unat_midpoint [OF assms(1)])
  show "low \<le> m" using m by (simp add: word_le_nat_alt)
  show mh: "m < high" using m lt by (simp add: word_less_nat_alt)
  show "unat (m + 1) = Suc (unat m)" using mh by (rule unat_add_one)
  then show "unat high - unat (m + 1) \<le> (unat high - unat low) div 2" using m lt by linarith
  show "unat m - unat low \<le> (unat high - unat low) div 2" using m by simp
qed

function search_loop :: "'w registry_provider \<Rightarrow> u64 \<Rightarrow> u64 \<Rightarrow> u64 \<Rightarrow> ('w, scan_error, u64) proc" where
  "search_loop P cutoff low high w =
     (if low < high then
        let middle = low + (high - low) div 2 in
        case rp_block P (Number middle) w of
          (Inl error, v) \<Rightarrow> (Inl (ScanProvider error), v)
        | (Inr None, v) \<Rightarrow> (Inl (MissingBlock ''timestamp-search''), v)
        | (Inr (Some block), v) \<Rightarrow>
            (if bi_timestamp block < cutoff then search_loop P cutoff (middle + 1) high v
             else search_loop P cutoff low middle v)
      else (Inr low, w))"
  by pat_completeness auto
termination
proof (relation "measure (\<lambda>(P, cutoff, low, high, w). unat high - unat low)", goal_cases)
  case 1
  then show ?case by simp
next
  case (2 P cutoff low high w)
  then show ?case
    using middle_bounds(1,3) [of low high] by (simp add: word_less_nat_alt word_le_nat_alt)
next
  case (3 P cutoff low high w)
  then show ?case
    using middle_bounds(1,2) [of low high] by (simp add: word_less_nat_alt word_le_nat_alt)
qed

declare search_loop.simps [simp del]

definition find_start_block ::
  "'w registry_provider \<Rightarrow> u64 \<Rightarrow> u64 \<Rightarrow> u64 \<Rightarrow> ('w, scan_error, u64) proc" where
  "find_start_block P deployment_block head cutoff =
     (if head \<le> deployment_block then succeed (min deployment_block head)
      else search_loop P cutoff deployment_block head)"

section \<open>The log loop\<close>

text \<open>The variables of \<open>scan_logs\<close> that processing one event updates.\<close>

record scan_progress =
  sp_candidates :: candidate_store
  sp_logs_processed :: nat
  sp_records_rejected :: nat

definition process_announcement ::
  "(bytes \<Rightarrow> b256) \<Rightarrow> codec_registry \<Rightarrow> announcement_policy \<Rightarrow> scan_progress \<Rightarrow> announcement \<Rightarrow>
   scan_progress"
where
  "process_announcement keccak codecs policy progress a =
     (let counted = progress\<lparr> sp_logs_processed := sp_logs_processed progress + 1 \<rparr>
      in case validate_announcement codecs a policy of
           Inr candidate \<Rightarrow>
             counted\<lparr> sp_candidates := fst (store_insert keccak (sp_candidates progress) candidate) \<rparr>
         | Inl _ \<Rightarrow> counted\<lparr> sp_records_rejected := sp_records_rejected progress + 1 \<rparr>)"

definition is_range_limit :: "provider_error \<Rightarrow> bool" where
  "is_range_limit e = (case e of RangeLimit _ \<Rightarrow> True | _ \<Rightarrow> False)"

definition chunk_end :: "u64 \<Rightarrow> u64 \<Rightarrow> u64 \<Rightarrow> u64" where
  "chunk_end from_block chunk_size head =
     min (saturating_add from_block (saturating_sub chunk_size 1)) head"

lemma chunk_end_bounds:
  assumes "from_block \<le> head"
  shows "from_block \<le> chunk_end from_block chunk_size head"
    and "chunk_end from_block chunk_size head \<le> head"
proof -
  have "from_block \<le> saturating_add from_block (saturating_sub chunk_size 1)"
    using unat_less_pow [of from_block] by (simp add: word_le_nat_alt)
  with assms show "from_block \<le> chunk_end from_block chunk_size head"
    and "chunk_end from_block chunk_size head \<le> head"
    by (simp_all add: chunk_end_def)
qed

lemma chunk_end_width:
  assumes "from_block \<le> head" and "0 < chunk_size"
  shows "unat (chunk_end from_block chunk_size head) - unat from_block < unat chunk_size"
proof -
  have "0 < unat chunk_size" using assms(2) by (simp add: word_less_nat_alt)
  then show ?thesis
    by (auto simp: chunk_end_def min_def word_le_nat_alt split: if_splits)
qed

lemma halved_less:
  fixes chunk minimum :: u64
  assumes "minimum < chunk"
  shows "max (chunk div 2) minimum < chunk"
proof -
  have "unat minimum < unat chunk" using assms by (simp add: word_less_nat_alt)
  then have "unat (chunk div 2) < unat chunk" by (simp add: unat_half)
  with assms show ?thesis by (simp add: word_less_nat_alt)
qed

function scan_loop ::
  "(bytes \<Rightarrow> b256) \<Rightarrow> 'w registry_provider \<Rightarrow> codec_registry \<Rightarrow> scanner_config \<Rightarrow> address \<Rightarrow>
   announcement_policy \<Rightarrow> u64 \<Rightarrow> u64 \<Rightarrow> u64 \<Rightarrow> u64 \<Rightarrow> nat \<Rightarrow> scan_progress \<Rightarrow>
   ('w, scan_error, scan_progress \<times> nat) proc"
where
  "scan_loop keccak P codecs config registry policy head minimum from_block chunk_size reductions
     progress w =
     (if from_block \<le> head \<and> sp_logs_processed progress < sc_max_logs_per_scan config then
        let to_block = chunk_end from_block chunk_size head in
        case rp_announcements P registry (ap_expected_namespace policy) from_block to_block w of
          (Inr announcements, v) \<Rightarrow>
            let progress' = foldl (process_announcement keccak codecs policy) progress
              (take (sc_max_logs_per_scan config - sp_logs_processed progress) announcements) in
            if to_block = head then (Inr (progress', reductions), v)
            else scan_loop keccak P codecs config registry policy head minimum (to_block + 1)
                   chunk_size reductions progress' v
        | (Inl error, v) \<Rightarrow>
            if is_range_limit error \<and> minimum < chunk_size
            then scan_loop keccak P codecs config registry policy head minimum from_block
                   (max (chunk_size div 2) minimum) (reductions + 1) progress v
            else (Inl (ScanProvider error), v)
      else (Inr (progress, reductions), w))"
  by pat_completeness auto
termination
proof (relation "measures [\<lambda>(keccak, P, codecs, config, registry, policy, head, minimum, from_block,
      chunk_size, reductions, progress, w). Suc (unat head) - unat from_block,
    \<lambda>(keccak, P, codecs, config, registry, policy, head, minimum, from_block,
      chunk_size, reductions, progress, w). unat chunk_size]", goal_cases)
  case 1
  then show ?case by simp
next
  case (3 keccak P codecs config registry policy head minimum from_block chunk_size)
  let ?to = "chunk_end from_block chunk_size head"
  from 3 have b: "from_block \<le> ?to" "?to < head"
    using chunk_end_bounds [of from_block head chunk_size] by auto
  then have "unat (?to + 1) = Suc (unat ?to)" by (intro unat_add_one)
  with b 3 show ?case by (simp add: word_le_nat_alt word_less_nat_alt)
next
  case (2 keccak P codecs config registry policy head minimum from_block chunk_size)
  then show ?case using halved_less [of minimum chunk_size] by (simp add: word_less_nat_alt)
qed

declare scan_loop.simps [simp del]

definition sampling_seed :: "(bytes \<Rightarrow> b256) \<Rightarrow> bytes \<Rightarrow> b256 \<Rightarrow> bytes \<Rightarrow> b256" where
  "sampling_seed keccak local_node_id block_hash namespace_bytes =
     keccak (local_node_id @ be_bytes 32 block_hash @ namespace_bytes)"

record log_scan_outcome =
  ls_logs_processed :: nat
  ls_records_rejected :: nat
  ls_chunk_reductions :: nat
  ls_candidates :: "peer_candidate list"

definition scan_policy ::
  "scanner_config \<Rightarrow> network_descriptor \<Rightarrow> registry_constants \<Rightarrow> block_info \<Rightarrow> announcement_policy"
where
  "scan_policy config descriptor constants head =
     \<lparr> ap_expected_namespace = nd_namespace descriptor,
       ap_accepted_record_types = nd_accepted_record_types descriptor,
       ap_chain_time = bi_timestamp head,
       ap_max_record_bytes = unat (rc_max_record_bytes constants),
       ap_max_endpoints = sc_max_endpoints_per_record config,
       ap_dial_context = sc_dial_context config \<rparr>"

definition scan_store_config ::
  "(bytes \<Rightarrow> b256) \<Rightarrow> scanner_config \<Rightarrow> network_descriptor \<Rightarrow> bytes \<Rightarrow> block_info \<Rightarrow>
   candidate_store_config"
where
  "scan_store_config keccak config descriptor local_node_id head =
     \<lparr> csc_max_candidates = sc_max_candidates config,
       csc_sampling_seed =
         sampling_seed keccak local_node_id (bi_hash head) (as_bytes (nd_namespace descriptor)) \<rparr>"

definition scan_logs ::
  "(bytes \<Rightarrow> b256) \<Rightarrow> 'w registry_provider \<Rightarrow> codec_registry \<Rightarrow> scanner_config \<Rightarrow>
   network_descriptor \<Rightarrow> bytes \<Rightarrow> registry_constants \<Rightarrow> u64 \<Rightarrow> block_info \<Rightarrow>
   ('w, scan_error, log_scan_outcome) proc"
where
  "scan_logs keccak P codecs config descriptor local_node_id constants start_block head =
     and_then (scan_loop keccak P codecs config (rd_address (nd_registry descriptor))
         (scan_policy config descriptor constants head) (bi_number head)
         (max (sc_minimum_chunk_size config) 1) start_block (max (sc_initial_chunk_size config) 1) 0
         \<lparr> sp_candidates = store_new (scan_store_config keccak config descriptor local_node_id head),
           sp_logs_processed = 0, sp_records_rejected = 0 \<rparr>)
       (\<lambda>(progress, reductions).
         succeed \<lparr> ls_logs_processed = sp_logs_processed progress,
           ls_records_rejected = sp_records_rejected progress,
           ls_chunk_reductions = reductions,
           ls_candidates = store_ranked keccak (sp_candidates progress) \<rparr>)"

section \<open>The scan\<close>

definition verify_constants :: "registry_constants \<Rightarrow> network_descriptor \<Rightarrow> scan_error + unit" where
  "verify_constants constants descriptor =
     (if rc_version constants \<noteq> RESURRECT_VERSION
         \<or> rc_max_ttl constants \<noteq> MAX_TTL_SECONDS
         \<or> rc_max_ttl constants \<noteq> rd_max_ttl_seconds (nd_registry descriptor)
         \<or> unat (rc_max_record_bytes constants) \<noteq> DEFAULT_MAX_RECORD_BYTES
      then Inl (ScanRegistryConstants constants) else Inr ())"

definition scan ::
  "(bytes \<Rightarrow> b256) \<Rightarrow> 'w registry_provider \<Rightarrow> codec_registry \<Rightarrow> scanner_config \<Rightarrow>
   network_descriptor \<Rightarrow> bytes \<Rightarrow> scan_checkpoint option \<Rightarrow> ('w, scan_error, scan_report) proc"
where
  "scan keccak P codecs config descriptor local_node_id previous =
     and_then (lift_res (map_err ScanDescriptor (validate descriptor))) (\<lambda>_.
     and_then (proc_err ScanProvider (rp_chain_id P)) (\<lambda>actual_chain_id.
     and_then (ensure (actual_chain_id = rd_chain_id (nd_registry descriptor))
         (ScanWrongChain (rd_chain_id (nd_registry descriptor)) actual_chain_id)) (\<lambda>_.
     and_then (proc_err ScanProvider
         (rp_registry_constants P (rd_address (nd_registry descriptor)))) (\<lambda>constants.
     and_then (lift_res (verify_constants constants descriptor)) (\<lambda>_.
     and_then (confirmed_head P config) (\<lambda>head.
     and_then (ensure (rd_deployment_block (nd_registry descriptor) \<le> bi_number head)
         (DeploymentAfterHead (rd_deployment_block (nd_registry descriptor)) (bi_number head))) (\<lambda>_.
     and_then (detect_reorg P previous) (\<lambda>reorg_detected.
     and_then (find_start_block P (rd_deployment_block (nd_registry descriptor)) (bi_number head)
         (saturating_sub (bi_timestamp head) (ucast (rd_max_ttl_seconds (nd_registry descriptor)))))
       (\<lambda>start_block.
     and_then (scan_logs keccak P codecs config descriptor local_node_id constants start_block head)
       (\<lambda>scanned.
     succeed \<lparr> sr_start_block = start_block, sr_head = head,
       sr_checkpoint = \<lparr> ck_number = bi_number head, ck_hash = bi_hash head \<rparr>,
       sr_reorg_detected = reorg_detected,
       sr_logs_processed = ls_logs_processed scanned,
       sr_records_rejected = ls_records_rejected scanned,
       sr_chunk_reductions = ls_chunk_reductions scanned,
       sr_candidates = ls_candidates scanned \<rparr>))))))))))"

end
