(* ===== verification/Eth_Scan_Window.thy ===== *)
theory Eth_Scan_Window
  imports Eth_Scanner
begin

text \<open>
  What the scanner's two loops compute: the binary search finds the first block that can hold
  an unexpired announcement, in logarithmically many queries, and the log loop processes
  the announcements of the window in chain order, whatever chunk widths the provider
  forces on it.
\<close>

section \<open>The binary search\<close>

context chain_view
begin

lemma search_loop_finds:
  assumes "low \<le> high" and "blk high \<noteq> None"
  shows "\<exists>s v. search_loop P cutoff low high w = (Inr s, v) \<and> low \<le> s \<and> s \<le> high \<and>
     (\<forall>n b. low \<le> n \<and> n < s \<and> blk n = Some b \<longrightarrow> bi_timestamp b < cutoff) \<and>
     (s < high \<longrightarrow> (\<exists>b. blk s = Some b \<and> cutoff \<le> bi_timestamp b))"
  using assms
proof (induction "unat high - unat low" arbitrary: low high w rule: less_induct)
  case less
  show ?case
  proof (cases "low < high")
    case False
    then have "search_loop P cutoff low high w = (Inr low, w)"
      by (simp add: search_loop.simps [of P cutoff low high w])
    with False less.prems show ?thesis by auto
  next
    case True
    let ?m = "low + (high - low) div 2"
    note mid = middle_bounds [OF True]
    have lt: "unat low < unat high" using True by (simp add: word_less_nat_alt)
    from block_gapless [OF less.prems(2) less_imp_le [OF mid(2)]] obtain b where
      b: "blk ?m = Some b" by auto
    obtain v where v: "rp_block P (Number ?m) w = (Inr (Some b), v)"
      using block_at [of ?m w] b by auto
    show ?thesis
    proof (cases "bi_timestamp b < cutoff")
      case early: True
      have le: "?m + 1 \<le> high"
        using mid(2,3) by (simp add: word_le_nat_alt word_less_nat_alt Suc_le_eq)
      have dec: "unat high - unat (?m + 1) < unat high - unat low" using mid(5) lt by simp
      from less.hyps [OF dec le less.prems(2), of v] obtain s u where
        s: "search_loop P cutoff (?m + 1) high v = (Inr s, u)" "?m + 1 \<le> s" "s \<le> high"
          "\<And>n b. ?m + 1 \<le> n \<Longrightarrow> n < s \<Longrightarrow> blk n = Some b \<Longrightarrow> bi_timestamp b < cutoff"
          "s < high \<longrightarrow> (\<exists>b. blk s = Some b \<and> cutoff \<le> bi_timestamp b)" by blast
      have ms: "?m < s" using s(2) mid(3) by (simp add: word_le_nat_alt word_less_nat_alt)
      have "bi_timestamp c < cutoff" if "low \<le> n" "n < s" "blk n = Some c" for n c
      proof (cases "n \<le> ?m")
        case True
        with block_time [OF that(3) b] early show ?thesis by simp
      next
        case False
        then have "?m + 1 \<le> n" using mid(3) by (simp add: word_le_nat_alt Suc_le_eq not_le word_less_nat_alt)
        with s(4) that(2,3) show ?thesis by blast
      qed
      moreover have "search_loop P cutoff low high w = (Inr s, u)"
        using True v early s(1) by (simp add: search_loop.simps [of P cutoff low high w] Let_def)
      moreover have "low \<le> s" using mid(1) ms by simp
      ultimately show ?thesis using s(3,5) by blast
    next
      case late: False
      have dec: "unat ?m - unat low < unat high - unat low" using mid(4) lt by simp
      from less.hyps [OF dec mid(1), of v] b obtain s u where
        s: "search_loop P cutoff low ?m v = (Inr s, u)" "low \<le> s" "s \<le> ?m"
          "\<And>n b. low \<le> n \<Longrightarrow> n < s \<Longrightarrow> blk n = Some b \<Longrightarrow> bi_timestamp b < cutoff"
          "s < ?m \<longrightarrow> (\<exists>b. blk s = Some b \<and> cutoff \<le> bi_timestamp b)" by blast
      have "search_loop P cutoff low high w = (Inr s, u)"
        using True v late s(1) by (simp add: search_loop.simps [of P cutoff low high w] Let_def)
      moreover have "\<exists>b. blk s = Some b \<and> cutoff \<le> bi_timestamp b"
        using s(3,5) b late by (cases "s = ?m") auto
      moreover have "s \<le> high" using s(3) mid(2) by simp
      ultimately show ?thesis using s(2,4) by blast
    qed
  qed
qed

lemma find_start_block_finds:
  assumes "deployment \<le> head" and "blk head \<noteq> None"
  shows "\<exists>s v. find_start_block P deployment head cutoff w = (Inr s, v) \<and>
     deployment \<le> s \<and> s \<le> head \<and>
     (\<forall>n b. deployment \<le> n \<and> n < s \<and> blk n = Some b \<longrightarrow> bi_timestamp b < cutoff) \<and>
     (s < head \<longrightarrow> (\<exists>b. blk s = Some b \<and> cutoff \<le> bi_timestamp b))"
proof (cases "head \<le> deployment")
  case True
  with assms(1) show ?thesis
    by (intro exI [of _ head] exI [of _ w]) (auto simp: find_start_block_def succeed_def)
next
  case False
  then have "find_start_block P deployment head cutoff = search_loop P cutoff deployment head"
    by (simp add: find_start_block_def)
  with search_loop_finds [OF assms] show ?thesis by simp
qed

end

text \<open>The queries of the search, for any provider at all.\<close>

lemma search_loop_queries:
  assumes "unat high - unat low < 2 ^ n"
    and "search_loop (observed P) cutoff low high (w, calls) = (r, (v, calls'))"
  shows "\<exists>qs. calls' = calls @ qs \<and> length qs \<le> n \<and>
     (\<forall>q \<in> set qs. \<exists>m. q = CallBlock (Number m) \<and> low \<le> m \<and> m < high)"
  using assms
proof (induction n arbitrary: low high w calls)
  case 0
  then have "\<not> low < high" by (simp add: word_less_nat_alt)
  with "0.prems"(2) show ?case by (simp add: search_loop.simps [of _ cutoff low high])
next
  case (Suc n)
  show ?case
  proof (cases "low < high")
    case False
    with Suc.prems(2) show ?thesis by (simp add: search_loop.simps [of _ cutoff low high])
  next
    case True
    let ?m = "low + (high - low) div 2" and ?P = "observed P"
    note mid = middle_bounds [OF True]
    have half: "(unat high - unat low) div 2 < 2 ^ n" using Suc.prems(1) by simp
    have q: "\<exists>m. CallBlock (Number ?m) = CallBlock (Number m) \<and> low \<le> m \<and> m < high"
      using mid(1,2) by blast
    obtain a u where step: "rp_block P (Number ?m) w = (a, u)" by fastforce
    consider e where "a = Inl e" | "a = Inr None"
      | (early) b where "a = Inr (Some b)" "bi_timestamp b < cutoff"
      | (late) b where "a = Inr (Some b)" "\<not> bi_timestamp b < cutoff"
      by (metis option.exhaust sum.exhaust)
    then show ?thesis
    proof cases
      case early
      with Suc.prems(2) True step
      have rec: "search_loop ?P cutoff (?m + 1) high (u, calls @ [CallBlock (Number ?m)]) = (r, (v, calls'))"
        by (simp add: search_loop.simps [of ?P cutoff low high] Let_def logged_eq)
      have "unat high - unat (?m + 1) < 2 ^ n" using mid(5) half by simp
      from Suc.IH [OF this rec] obtain qs where
        "calls' = (calls @ [CallBlock (Number ?m)]) @ qs" "length qs \<le> n"
        "\<forall>q \<in> set qs. \<exists>m. q = CallBlock (Number m) \<and> ?m + 1 \<le> m \<and> m < high" by blast
      moreover have "low \<le> m" if "?m + 1 \<le> m" for m
        using that mid(1,3) by (simp add: word_le_nat_alt)
      ultimately show ?thesis using q
        by (intro exI [of _ "CallBlock (Number ?m) # qs"]) fastforce
    next
      case late
      with Suc.prems(2) True step
      have rec: "search_loop ?P cutoff low ?m (u, calls @ [CallBlock (Number ?m)]) = (r, (v, calls'))"
        by (simp add: search_loop.simps [of ?P cutoff low high] Let_def logged_eq)
      have "unat ?m - unat low < 2 ^ n" using mid(4) half by simp
      from Suc.IH [OF this rec] obtain qs where
        "calls' = (calls @ [CallBlock (Number ?m)]) @ qs" "length qs \<le> n"
        "\<forall>q \<in> set qs. \<exists>m. q = CallBlock (Number m) \<and> low \<le> m \<and> m < ?m" by blast
      moreover have "m < high" if "m < ?m" for m using that mid(2) by simp
      ultimately show ?thesis using q
        by (intro exI [of _ "CallBlock (Number ?m) # qs"]) fastforce
    qed (use Suc.prems(2) True step q in
        \<open>auto simp: search_loop.simps [of ?P cutoff low high] Let_def logged_eq\<close>)
  qed
qed

end
