(* ===== verification/Eth_Scan_Logs.thy ===== *)
theory Eth_Scan_Logs
  imports Eth_Scanner
begin

text \<open>
  What the log loop of the scanner computes. For any provider: whatever the answers are, the
  loop folds some list of events, no longer than the budget left, into the progress, halves
  its chunks logarithmically often, and queries only inside its window. For a provider that
  serves one chain: it folds exactly the events of the window, oldest first, whatever chunk
  widths the provider forces on it.
\<close>

section \<open>Folding events\<close>

primrec accepted ::
  "codec_registry \<Rightarrow> announcement_policy \<Rightarrow> announcement list \<Rightarrow> peer_candidate list"
where
  "accepted codecs policy [] = []"
| "accepted codecs policy (a # as) =
     (case validate_announcement codecs a policy of
        Inl _ \<Rightarrow> accepted codecs policy as
      | Inr c \<Rightarrow> c # accepted codecs policy as)"

lemma accepted_append: "accepted codecs policy (as @ bs) =
    accepted codecs policy as @ accepted codecs policy bs"
  by (induction as) (simp_all split: sum.splits)

lemma length_accepted: "length (accepted codecs policy as) \<le> length as"
  by (induction as) (simp_all split: sum.splits)

lemma in_accepted:
  "c \<in> set (accepted codecs policy as) \<longleftrightarrow>
   (\<exists>a \<in> set as. validate_announcement codecs a policy = Inr c)"
  by (induction as) (auto split: sum.splits)

lemma accepted_filter:
  assumes "\<And>a. a \<in> set as \<Longrightarrow> \<not> Q a \<Longrightarrow> \<exists>e. validate_announcement codecs a policy = Inl e"
  shows "accepted codecs policy (filter Q as) = accepted codecs policy as"
  using assms by (induction as) (fastforce split: sum.splits)+

text \<open>All events of a list, folded into the progress.\<close>

definition fold_events ::
  "(bytes \<Rightarrow> b256) \<Rightarrow> codec_registry \<Rightarrow> announcement_policy \<Rightarrow> scan_progress \<Rightarrow>
   announcement list \<Rightarrow> scan_progress"
where
  "fold_events keccak codecs policy = foldl (process_announcement keccak codecs policy)"

lemma fold_events_simps [simp]:
  "fold_events keccak codecs policy p [] = p"
  "fold_events keccak codecs policy p (as @ bs) =
     fold_events keccak codecs policy (fold_events keccak codecs policy p as) bs"
  by (simp_all add: fold_events_def)

lemma fold_events_result:
  "sp_candidates (fold_events keccak codecs policy p as) =
     insert_all keccak (sp_candidates p) (accepted codecs policy as)"
  "sp_logs_processed (fold_events keccak codecs policy p as) = sp_logs_processed p + length as"
  "sp_records_rejected (fold_events keccak codecs policy p as) + length (accepted codecs policy as) =
     sp_records_rejected p + length as"
proof (induction as rule: rev_induct)
  case (snoc a as)
  have step: "fold_events keccak codecs policy p (as @ [a]) =
      process_announcement keccak codecs policy (fold_events keccak codecs policy p as) a"
    by (simp add: fold_events_def)
  {
    case 1
    show ?case using snoc by (simp only: step)
      (simp add: process_announcement_def Let_def accepted_append insert_all_append
        insert_all_simps(2) [of _ _ "[]", simplified] split: sum.splits)
  next
    case 2
    show ?case using snoc by (simp only: step)
      (simp add: process_announcement_def Let_def split: sum.splits)
  next
    case 3
    show ?case using snoc by (simp only: step)
      (simp add: process_announcement_def Let_def accepted_append split: sum.splits)
  }
qed (simp_all add: insert_all_def)

section \<open>Any provider\<close>

text \<open>
  One turn of the loop: how it ends or goes on, and the measure that decreases. What is proved of
  the loop is proved by induction on that measure, over these cases.
\<close>

abbreviation scan_measure :: "u64 \<Rightarrow> u64 \<Rightarrow> u64 \<Rightarrow> nat" where
  "scan_measure head from_block chunk \<equiv> Suc (unat head) - unat from_block + unat chunk"

lemma scan_loop_step:
  fixes keccak :: "bytes \<Rightarrow> b256"
  obtains
    (stops) "head < from_block \<or> sc_max_logs_per_scan config \<le> sp_logs_processed p"
      "scan_loop keccak P codecs config registry policy head minimum from_block chunk red p w = (Inr (p, red), w)"
  | (fails) e u where "from_block \<le> head"
      "rp_announcements P registry (ap_expected_namespace policy) from_block (chunk_end from_block chunk head) w = (Inl e, u)"
      "\<not> (is_range_limit e \<and> minimum < chunk)"
      "scan_loop keccak P codecs config registry policy head minimum from_block chunk red p w = (Inl (ScanProvider e), u)"
  | (halves) e u where "from_block \<le> head"
      "rp_announcements P registry (ap_expected_namespace policy) from_block (chunk_end from_block chunk head) w = (Inl e, u)"
      "minimum < chunk" "max (chunk div 2) minimum < chunk"
      "scan_measure head from_block (max (chunk div 2) minimum) < scan_measure head from_block chunk"
      "scan_loop keccak P codecs config registry policy head minimum from_block chunk red p w =
        scan_loop keccak P codecs config registry policy head minimum from_block (max (chunk div 2) minimum) (red + 1) p u"
  | (ends) as u where "from_block \<le> head" "chunk_end from_block chunk head = head"
      "rp_announcements P registry (ap_expected_namespace policy) from_block (chunk_end from_block chunk head) w = (Inr as, u)"
      "scan_loop keccak P codecs config registry policy head minimum from_block chunk red p w =
        (Inr (fold_events keccak codecs policy p (take (sc_max_logs_per_scan config - sp_logs_processed p) as), red), u)"
  | (advances) as u where "from_block \<le> head" "chunk_end from_block chunk head < head"
      "rp_announcements P registry (ap_expected_namespace policy) from_block (chunk_end from_block chunk head) w = (Inr as, u)"
      "scan_measure head (chunk_end from_block chunk head + 1) chunk < scan_measure head from_block chunk"
      "scan_loop keccak P codecs config registry policy head minimum from_block chunk red p w =
        scan_loop keccak P codecs config registry policy head minimum (chunk_end from_block chunk head + 1) chunk red
          (fold_events keccak codecs policy p (take (sc_max_logs_per_scan config - sp_logs_processed p) as)) u"
proof -
  let ?to = "chunk_end from_block chunk head"
  note unfolded = scan_loop.simps [of keccak P codecs config registry policy head minimum from_block chunk red p w]
  show thesis
  proof (cases "from_block \<le> head \<and> sp_logs_processed p < sc_max_logs_per_scan config")
    case False
    with unfolded show thesis by (intro stops) auto
  next
    case run: True
    obtain a u where a: "rp_announcements P registry (ap_expected_namespace policy) from_block ?to w = (a, u)"
      by fastforce
    note b = chunk_end_bounds [OF conjunct1 [OF run], of chunk]
    consider e where "a = Inl e" "\<not> (is_range_limit e \<and> minimum < chunk)"
      | e where "a = Inl e" "is_range_limit e" "minimum < chunk"
      | as where "a = Inr as" "?to = head" | as where "a = Inr as" "?to < head"
      using b(2) by (cases a) (auto simp: less_le)
    then show thesis
    proof cases
      case (1 e)
      with run a unfolded show thesis by (intro fails [of e u]) (simp_all add: Let_def)
    next
      case (2 e)
      then have "max (chunk div 2) minimum < chunk" by (intro halved_less)
      with 2 run a unfolded show thesis
        by (intro halves [of e u]) (simp_all add: Let_def word_less_nat_alt)
    next
      case (3 as)
      with run a unfolded show thesis by (intro ends [of as u]) (simp_all add: Let_def fold_events_def)
    next
      case (4 as)
      have "scan_measure head (?to + 1) chunk < scan_measure head from_block chunk"
        using b 4(2) unat_add_one [OF 4(2)] by (simp add: word_less_nat_alt word_le_nat_alt)
      with 4 run a unfolded show thesis
        by (intro advances [of as u]) (auto simp: Let_def fold_events_def)
    qed
  qed
qed

text \<open>The shape of a successful run, as an induction rule.\<close>

lemma scan_loop_run [consumes 1, case_names stop finish advance halve]:
  assumes "scan_loop keccak P codecs config registry policy head minimum from_block chunk red p w =
      (Inr (p', red'), v)"
    and "\<And>from_block chunk red p. Q from_block chunk red p p red"
    and "\<And>from_block chunk red p as. from_block \<le> head \<Longrightarrow>
        length as \<le> sc_max_logs_per_scan config - sp_logs_processed p \<Longrightarrow>
        Q from_block chunk red p (fold_events keccak codecs policy p as) red"
    and "\<And>from_block chunk red p as p' red'. from_block \<le> head \<Longrightarrow>
        length as \<le> sc_max_logs_per_scan config - sp_logs_processed p \<Longrightarrow>
        Q (chunk_end from_block chunk head + 1) chunk red (fold_events keccak codecs policy p as) p' red' \<Longrightarrow>
        Q from_block chunk red p p' red'"
    and "\<And>from_block chunk red p p' red'. minimum < chunk \<Longrightarrow>
        Q from_block (max (chunk div 2) minimum) (red + 1) p p' red' \<Longrightarrow>
        Q from_block chunk red p p' red'"
  shows "Q from_block chunk red p p' red'"
  using assms(1)
proof (induction "scan_measure head from_block chunk" arbitrary: from_block chunk red p w rule: less_induct)
  case less
  have len: "length (take (sc_max_logs_per_scan config - sp_logs_processed p) as) \<le>
    sc_max_logs_per_scan config - sp_logs_processed p" for as :: "announcement list" by simp
  show ?case
  proof (cases rule: scan_loop_step [of head from_block config p keccak P codecs registry policy minimum chunk red w])
    case stops
    with less.prems assms(2) show ?thesis by simp
  next
    case (fails e u)
    with less.prems show ?thesis by simp
  next
    case (halves e u)
    from assms(5) [OF halves(3) less.hyps [OF halves(5)]] halves(6) less.prems show ?thesis by simp
  next
    case (ends as u)
    with less.prems assms(3) [OF _ len] show ?thesis by auto
  next
    case (advances as u)
    from assms(4) [OF advances(1) len less.hyps [OF advances(4)]] advances(5) less.prems show ?thesis by simp
  qed
qed

lemma scan_loop_folds:
  assumes "scan_loop keccak P codecs config registry policy head minimum from_block chunk red p w =
      (Inr (p', red'), v)"
  shows "\<exists>as. p' = fold_events keccak codecs policy p as \<and>
     length as \<le> sc_max_logs_per_scan config - sp_logs_processed p"
  using assms
proof (induction rule: scan_loop_run)
  case (stop from_block chunk red p)
  show ?case by (rule exI [of _ "[]"]) simp
next
  case (finish from_block chunk red p as)
  then show ?case by blast
next
  case (advance from_block chunk red p as p' red')
  then obtain bs where "p' = fold_events keccak codecs policy (fold_events keccak codecs policy p as) bs"
    "length bs \<le> sc_max_logs_per_scan config -
       sp_logs_processed (fold_events keccak codecs policy p as)" by blast
  with advance(2) show ?case by (intro exI [of _ "as @ bs"]) (simp add: fold_events_result)
qed blast

lemma scan_loop_reductions:
  assumes "scan_loop keccak P codecs config registry policy head minimum from_block chunk red p w =
      (Inr (p', red'), v)"
    and "0 < minimum" and "2 ^ red \<le> initial" and "minimum < chunk \<Longrightarrow> 2 ^ red * unat chunk \<le> initial"
  shows "2 ^ red' \<le> initial"
  using assms(1,3,4)
proof (induction rule: scan_loop_run)
  case (halve from_block chunk red p p' red')
  from halve(1) assms(2) have two: "2 \<le> unat chunk" by (simp add: word_less_nat_alt)
  have now: "2 ^ red * unat chunk \<le> initial" using halve by blast
  have half: "unat (chunk div 2) * 2 \<le> unat chunk" by (simp add: unat_half)
  have "2 ^ (red + 1) \<le> (2 ^ red * unat chunk :: nat)" using two by simp
  with now have "2 ^ (red + 1) \<le> initial" by linarith
  moreover have "2 ^ (red + 1) * unat (max (chunk div 2) minimum) \<le> initial"
    if "minimum < max (chunk div 2) minimum"
  proof -
    have "max (chunk div 2) minimum = chunk div 2" using that by (auto simp: max_def split: if_splits)
    moreover have "2 ^ (red + 1) * unat (chunk div 2) \<le> 2 ^ red * unat chunk"
      using half by (simp add: mult.commute mult.left_commute)
    ultimately show ?thesis using now by (simp only: order.trans)
  qed
  ultimately show ?case by (rule halve(2))
qed auto

text \<open>The queries of the loop, on success and on failure.\<close>

lemma scan_loop_queries:
  assumes "scan_loop keccak (observed P) codecs config registry policy head minimum from_block chunk
      red p (w, calls) = (r, (v, calls'))" and "0 < minimum" "0 < chunk"
  shows "\<exists>qs. calls' = calls @ qs \<and> (\<forall>q \<in> set qs. \<exists>f t.
     q = CallAnnouncements registry (ap_expected_namespace policy) f t \<and>
     from_block \<le> f \<and> f \<le> t \<and> t \<le> head \<and> unat t - unat f < unat chunk)"
  using assms(1,3)
proof (induction "scan_measure head from_block chunk" arbitrary: from_block chunk red p w calls rule: less_induct)
  case less
  let ?to = "chunk_end from_block chunk head" and ?P = "observed P"
  let ?q = "CallAnnouncements registry (ap_expected_namespace policy) from_block ?to"
  have q: "from_block \<le> ?to" "?to \<le> head" "unat ?to - unat from_block < unat chunk" if "from_block \<le> head"
    using chunk_end_bounds [OF that, of chunk] chunk_end_width [OF that less.prems(2)] by auto
  show ?case
  proof (cases rule: scan_loop_step [of head from_block config p keccak ?P codecs registry policy minimum chunk red "(w, calls)"])
    case stops
    with less.prems show ?thesis by auto
  next
    case (fails e u)
    with less.prems q show ?thesis by (auto simp: logged_iff)
  next
    case (halves e u)
    let ?c = "max (chunk div 2) minimum"
    obtain u' where u: "u = (u', calls @ [?q])" using halves(2) by (cases u) (auto simp: logged_iff)
    have "0 < ?c" using assms(2) by (simp add: less_max_iff_disj)
    from less.hyps [OF halves(5) _ this, of "red + 1" p u' "calls @ [?q]"] halves(6) u less.prems obtain qs where
      "calls' = (calls @ [?q]) @ qs"
      "\<forall>q \<in> set qs. \<exists>f t. q = CallAnnouncements registry (ap_expected_namespace policy) f t \<and>
         from_block \<le> f \<and> f \<le> t \<and> t \<le> head \<and> unat t - unat f < unat ?c" by auto
    with q halves(1,4) show ?thesis
      by (intro exI [of _ "?q # qs"]) (fastforce simp: word_less_nat_alt)
  next
    case (ends as u)
    with less.prems q show ?thesis by (auto simp: logged_iff)
  next
    case (advances as u)
    let ?p = "fold_events keccak codecs policy p (take (sc_max_logs_per_scan config - sp_logs_processed p) as)"
    obtain u' where u: "u = (u', calls @ [?q])" using advances(3) by (cases u) (auto simp: logged_iff)
    have after: "from_block \<le> f" if "?to + 1 \<le> f" for f
      using that q(1) [OF advances(1)] unat_add_one [OF advances(2)] by (simp add: word_le_nat_alt)
    from less.hyps [OF advances(4) _ less.prems(2), of red ?p u' "calls @ [?q]"] advances(5) u less.prems obtain qs where
      "calls' = (calls @ [?q]) @ qs"
      "\<forall>q \<in> set qs. \<exists>f t. q = CallAnnouncements registry (ap_expected_namespace policy) f t \<and>
         ?to + 1 \<le> f \<and> f \<le> t \<and> t \<le> head \<and> unat t - unat f < unat chunk" by auto
    with q [OF advances(1)] after show ?thesis by (intro exI [of _ "?q # qs"]) fastforce
  qed
qed

section \<open>A provider that serves one chain\<close>

lemma take_append_budget:
  "take (m - l) (xs @ ys) =
   take (m - l) xs @ take (m - (l + length (take (m - l) xs))) ys"
  by (simp add: min_def)

context chain_view
begin

lemma scan_loop_complete:
  assumes "0 < minimum" and "unat minimum \<le> narrow" and "0 < chunk"
  shows "\<exists>red' v. scan_loop keccak P codecs config registry policy head minimum from_block chunk red p w =
     (Inr (fold_events keccak codecs policy p
        (take (sc_max_logs_per_scan config - sp_logs_processed p)
          (filter (in_range from_block head) (served registry (ap_expected_namespace policy)))), red'), v)"
  using assms(3)
proof (induction "scan_measure head from_block chunk" arbitrary: from_block chunk red p w rule: less_induct)
  case less
  let ?to = "chunk_end from_block chunk head" and ?ns = "ap_expected_namespace policy"
  let ?logs = "served registry ?ns" and ?budget = "sc_max_logs_per_scan config - sp_logs_processed p"
  show ?case
  proof (cases rule: scan_loop_step [of head from_block config p keccak P codecs registry policy minimum chunk red w])
    case stops
    then have "take ?budget (filter (in_range from_block head) ?logs) = []"
      by (auto simp: in_range_def filter_empty_conv)
    with stops(2) show ?thesis by (simp only: fold_events_simps) blast
  next
    case (fails e u)
    with chunk_end_bounds(1) [OF fails(1), of chunk] chunk_end_width [OF fails(1) less.prems] assms(2)
    show ?thesis
      by (cases rule: logs_cases [of from_block ?to registry ?ns w])
        (auto simp: is_range_limit_def word_less_nat_alt)
  next
    case (halves e u)
    have "0 < max (chunk div 2) minimum" using assms(1) by (simp add: less_max_iff_disj)
    from less.hyps [OF halves(5) this, of "red + 1" p u] halves(6) show ?thesis by simp
  next
    case (ends as u)
    with chunk_end_bounds(1) [OF ends(1), of chunk] show ?thesis
      by (cases rule: logs_cases [of from_block ?to registry ?ns w]) auto
  next
    case (advances as u)
    note b = chunk_end_bounds [OF advances(1), of chunk]
    have as: "as = filter (in_range from_block ?to) ?logs"
      using advances(3) by (cases rule: logs_cases [OF b(1), of registry ?ns w]) auto
    have "take ?budget (filter (in_range from_block head) ?logs) =
        take ?budget as @ take (sc_max_logs_per_scan config -
          sp_logs_processed (fold_events keccak codecs policy p (take ?budget as)))
          (filter (in_range (?to + 1) head) ?logs)"
      unfolding as filter_range_split [OF logs_sorted b(1) advances(2)] take_append_budget
      by (simp only: fold_events_result)
    with less.hyps [OF advances(4) less.prems, of red "fold_events keccak codecs policy p (take ?budget as)" u]
      advances(5) show ?thesis by (simp add: fold_events_def)
  qed
qed

end

end
