(* ===== verification/Eth_Scan.thy ===== *)
theory Eth_Scan
  imports Eth_Scan_Window Eth_Scan_Logs
begin

text \<open>
  The correctness of a whole scan: what a report promises whatever the provider answers, what
  a scan may ask of the chain, and, on a provider that serves one consistent chain, that
  the scan succeeds and its candidates are those of the abstract specification. The
  provider of the source's own tests is modelled at the end, as the instance of the chain interface.
\<close>

section \<open>Inside a scan\<close>

lemma search_loop_range:
  assumes "search_loop P cutoff low high w = (Inr s, v)" and "low \<le> high"
  shows "low \<le> s \<and> s \<le> high"
  using assms
proof (induction "unat high - unat low" arbitrary: low high w rule: less_induct)
  case less
  show ?case
  proof (cases "low < high")
    case False
    with less.prems show ?thesis by (auto simp: search_loop.simps [of P cutoff low high w])
  next
    case True
    let ?m = "low + (high - low) div 2"
    note mid = middle_bounds [OF True]
    have lt: "unat low < unat high" using True by (simp add: word_less_nat_alt)
    have up: "?m + 1 \<le> high" "low \<le> ?m + 1"
      using mid by (simp_all add: word_le_nat_alt word_less_nat_alt)
    have "(\<exists>u. search_loop P cutoff (?m + 1) high u = (Inr s, v)) \<or>
       (\<exists>u. search_loop P cutoff low ?m u = (Inr s, v))"
      using less.prems(1) True by (auto simp: search_loop.simps [of P cutoff low high w] Let_def
          split: prod.splits sum.splits option.splits if_splits)
    then show ?thesis
    proof (elim exE disjE)
      fix u
      assume r: "search_loop P cutoff (?m + 1) high u = (Inr s, v)"
      have "unat high - unat (?m + 1) < unat high - unat low" using mid(5) lt by simp
      from less.hyps [OF this r up(1)] up(2) show ?thesis by (blast intro: order.trans)
    next
      fix u
      assume r: "search_loop P cutoff low ?m u = (Inr s, v)"
      have "unat ?m - unat low < unat high - unat low" using mid(4) lt by simp
      from less.hyps [OF this r mid(1)] less_imp_le [OF mid(2)] show ?thesis
        by (blast intro: order.trans)
    qed
  qed
qed

lemma find_start_block_range:
  assumes "find_start_block P deployment head cutoff w = (Inr s, v)" and "deployment \<le> head"
  shows "deployment \<le> s \<and> s \<le> head"
  using assms search_loop_range [of P cutoff deployment head w s v]
  by (auto simp: find_start_block_def succeed_def split: if_splits)

text \<open>The stages of a successful scan.\<close>

lemma scan_stages:
  assumes "scan keccak P codecs config d node previous w = (Inr report, v)"
  obtains head constants scanned w1 w2 w3 w4 w5 w6 where
    "validate d = Inr ()" "rp_chain_id P w = (Inr (rd_chain_id (nd_registry d)), w1)"
    "rp_registry_constants P (rd_address (nd_registry d)) w1 = (Inr constants, w2)"
    "verify_constants constants d = Inr ()"
    "confirmed_head P config w2 = (Inr head, w3)"
    "rd_deployment_block (nd_registry d) \<le> bi_number head"
    "detect_reorg P previous w3 = (Inr (sr_reorg_detected report), w4)"
    "find_start_block P (rd_deployment_block (nd_registry d)) (bi_number head)
       (saturating_sub (bi_timestamp head) (ucast (rd_max_ttl_seconds (nd_registry d)))) w4 =
       (Inr (sr_start_block report), w5)"
    "scan_logs keccak P codecs config d node constants (sr_start_block report) head w5 =
       (Inr scanned, w6)"
    "report = \<lparr> sr_start_block = sr_start_block report, sr_head = head,
       sr_checkpoint = \<lparr> ck_number = bi_number head, ck_hash = bi_hash head \<rparr>,
       sr_reorg_detected = sr_reorg_detected report,
       sr_logs_processed = ls_logs_processed scanned,
       sr_records_rejected = ls_records_rejected scanned,
       sr_chunk_reductions = ls_chunk_reductions scanned,
       sr_candidates = ls_candidates scanned \<rparr>"
proof -
  from assms show thesis
    unfolding scan_def
    by (elim and_then_InrE) (auto simp: succeed_def intro: that)
qed

definition scan_start :: "(bytes \<Rightarrow> b256) \<Rightarrow> scanner_config \<Rightarrow> network_descriptor \<Rightarrow> bytes \<Rightarrow>
    block_info \<Rightarrow> scan_progress" where
  "scan_start keccak config d node head =
     \<lparr> sp_candidates = store_new (scan_store_config keccak config d node head),
       sp_logs_processed = 0, sp_records_rejected = 0 \<rparr>"

lemma scan_logs_folds:
  assumes "scan_logs keccak P codecs config d node constants start head w = (Inr out, v)"
  obtains as where
    "length as \<le> sc_max_logs_per_scan config"
    "ls_logs_processed out = length as"
    "ls_records_rejected out + length (accepted codecs (scan_policy config d constants head) as) = length as"
    "ls_candidates out = store_ranked keccak (insert_all keccak
       (store_new (scan_store_config keccak config d node head))
       (accepted codecs (scan_policy config d constants head) as))"
    "2 ^ ls_chunk_reductions out \<le> unat (max (sc_initial_chunk_size config) 1)"
proof -
  let ?min = "max (sc_minimum_chunk_size config) 1" and ?init = "max (sc_initial_chunk_size config) 1"
  let ?p = "scan_start keccak config d node head"
  let ?policy = "scan_policy config d constants head"
  from assms obtain p' red' u where run:
    "scan_loop keccak P codecs config (rd_address (nd_registry d)) ?policy (bi_number head) ?min start
       ?init 0 ?p w = (Inr (p', red'), u)"
    and out: "out = \<lparr> ls_logs_processed = sp_logs_processed p',
      ls_records_rejected = sp_records_rejected p', ls_chunk_reductions = red',
      ls_candidates = store_ranked keccak (sp_candidates p') \<rparr>"
    unfolding scan_logs_def scan_start_def
    by (elim and_then_InrE) (auto simp: succeed_def)
  have pos: "0 < ?min" "0 < ?init" by (simp_all add: less_max_iff_disj)
  then have one: "1 \<le> unat ?init" by (simp add: word_less_nat_alt)
  have "2 ^ red' \<le> unat ?init"
    using scan_loop_reductions [OF run pos(1), of "unat ?init"] one by simp
  moreover from scan_loop_folds [OF run] obtain as where
    "p' = fold_events keccak codecs ?policy ?p as" "length as \<le> sc_max_logs_per_scan config"
    by (auto simp: scan_start_def)
  ultimately show thesis
    using out fold_events_result [of keccak codecs ?policy ?p as]
    by (intro that [of as]) (simp_all add: scan_start_def)
qed

end
