(* ===== verification/Eth_Mock.thy ===== *)
theory Eth_Mock
  imports Eth_Scanner
begin

text \<open>
  The in-memory provider, codec and descriptor of the scanner's own tests
  (\<open>crates/resurrect-ethereum/src/scanner.rs\<close>, module \<open>tests\<close>): a concrete chain of 101 daily
  blocks whose provider refuses log queries of more than three blocks. It is shown to keep
  the contract \<open>chain_view\<close>, so that the theorems about consistent chains have an instance
  of the program's own.
\<close>

section \<open>The provider\<close>

record mock_provider =
  mp_chain_id :: u256
  mp_blocks :: "block_info list"
  mp_announcements :: "announcement list"
  mp_max_range :: u64
  mp_supports_finality :: bool

definition repeated_hash :: "u64 \<Rightarrow> b256" where
  "repeated_hash n = foldl (\<lambda>h _. h * 256 + ucast (ucast n :: u8)) 0 [0..<32]"

definition mock_block_at :: "u64 \<Rightarrow> block_info" where
  "mock_block_at n = \<lparr> bi_number = n, bi_timestamp = n * 86400, bi_hash = repeated_hash n \<rparr>"

text \<open>The world of the mock is the list of the ranges it was asked for.\<close>

definition mock :: "mock_provider \<Rightarrow> (u64 \<times> u64) list registry_provider" where
  "mock m =
     \<lparr> rp_chain_id = succeed (mp_chain_id m),
       rp_registry_constants = (\<lambda>_. succeed
         \<lparr> rc_version = 1, rc_max_ttl = MAX_TTL_SECONDS, rc_max_record_bytes = 4096 \<rparr>),
       rp_block = (\<lambda>reference. case reference of
           Number n \<Rightarrow> succeed (find (\<lambda>b. bi_number b = n) (mp_blocks m))
         | Latest \<Rightarrow> succeed (if mp_blocks m = [] then None else Some (last (mp_blocks m)))
         | _ \<Rightarrow> if mp_supports_finality m
                then succeed (if mp_blocks m = [] then None else Some (last (mp_blocks m)))
                else fail (Unsupported ''test finality'')),
       rp_announcements = (\<lambda>_ _ f t ranges.
         (if mp_max_range m < t - f + 1 then Inl (RangeLimit ''test limit'')
          else Inr (filter (in_range f t) (mp_announcements m)), ranges @ [(f, t)])),
       rp_announce = (\<lambda>_ _ _ _ _. fail ReadOnly) \<rparr>"

definition test_provider :: "announcement list \<Rightarrow> mock_provider" where
  "test_provider events =
     \<lparr> mp_chain_id = 31337, mp_blocks = map (mock_block_at \<circ> word_of_nat) [0..<101],
       mp_announcements = events, mp_max_range = 3, mp_supports_finality = True \<rparr>"

definition test_descriptor :: "namespace \<Rightarrow> network_descriptor" where
  "test_descriptor ns =
     \<lparr> nd_resurrect_version = 1,
       nd_registry = \<lparr> rd_chain_id = 31337, rd_address = 0x0101010101010101010101010101010101010101,
         rd_deployment_block = 0, rd_max_ttl_seconds = MAX_TTL_SECONDS \<rparr>,
       nd_namespace = ns, nd_accepted_record_types = [RECORD_TYPE_LIBP2P] \<rparr>"

definition test_announcement :: "namespace \<Rightarrow> u64 \<Rightarrow> bytes \<Rightarrow> announcement" where
  "test_announcement ns block raw =
     \<lparr> an_namespace = ns, an_record_type = RECORD_TYPE_LIBP2P, an_valid_until = 100 * 86400 + 1,
       an_peer_record = raw, an_block_number = block, an_log_index = 0,
       an_block_hash = Some (repeated_hash block) \<rparr>"

definition test_decode :: "bytes \<Rightarrow> dial_context \<Rightarrow> peer_record_error + peer_candidate" where
  "test_decode raw _ =
     (if raw = string_bytes ''invalid'' \<or> length raw < 2 then Inl InvalidSignature
      else Inr \<lparr> pc_record_type = RECORD_TYPE_LIBP2P, pc_peer_id = [raw ! 0],
        pc_sequence = ucast (raw ! 1), pc_endpoints = [\<lparr> ep_address = ''/ip4/8.8.8.8/tcp/4001'' \<rparr>],
        pc_raw_signed_record = raw, pc_expires_at = 0, pc_source = ResurrectRegistry,
        pc_announcement_block = None, pc_announcement_log_index = None \<rparr>)"

definition test_codecs :: codec_registry where
  "test_codecs = register new_registry
     \<lparr> codec_record_type = RECORD_TYPE_LIBP2P, decode_and_verify = test_decode \<rparr>"

section \<open>It serves one consistent chain\<close>

lemma find_block:
  "find (\<lambda>b. bi_number b = n) (map (mock_block_at \<circ> word_of_nat) [0..<101]) =
     (if n \<le> 100 then Some (mock_block_at n) else None)"
proof (cases "n \<le> 100")
  case True
  then have lt: "unat n < 101" by (simp add: word_le_nat_alt)
  have other: "word_of_nat j \<noteq> n" if "j < unat n" for j
  proof
    assume "word_of_nat j = n"
    then have "unat (word_of_nat j :: u64) = unat n" by simp
    moreover have "unat (word_of_nat j :: u64) = j"
      using that unat_less_pow [of n] by (simp add: unsigned_of_nat take_bit_nat_eq_self)
    ultimately show False using that by simp
  qed
  have "find (\<lambda>b. bi_number b = n) (map (mock_block_at \<circ> word_of_nat) [0..<101]) = Some (mock_block_at n)"
    unfolding find_Some_iff using lt other
    by (intro exI [of _ "unat n"]) (simp add: mock_block_at_def)
  with True show ?thesis by simp
next
  case False
  have "word_of_nat j \<noteq> n" if "j < 101" for j
  proof
    assume eq: "word_of_nat j = n"
    have "unat (word_of_nat j :: u64) = j" using that by (simp add: unsigned_of_nat take_bit_nat_eq_self)
    with eq that have "unat n \<le> 100" by simp
    with False show False by (simp add: word_le_nat_alt)
  qed
  with False show ?thesis by (auto simp: find_None_iff mock_block_at_def)
qed

lemma unat_daily: "unat n \<le> 100 \<Longrightarrow> unat (n * 86400 :: u64) = unat n * 86400"
  by (simp add: unat_word_ariths)

lemma test_chain_view:
  assumes "sorted (map an_block_number events)"
  shows "chain_view (mock (test_provider events))
    (\<lambda>n. if n \<le> 100 then Some (mock_block_at n) else None) (\<lambda>_ _. events) 3"
proof
  fix n w show "fst (rp_block (mock (test_provider events)) (Number n) w) =
      Inr (if n \<le> 100 then Some (mock_block_at n) else None)"
    by (simp add: mock_def succeed_def test_provider_def find_block del: upt_Suc)
next
  fix m n :: u64
  assume "(if n \<le> 100 then Some (mock_block_at n) else None) \<noteq> None" "m \<le> n"
  then show "(if m \<le> 100 then Some (mock_block_at m) else None) \<noteq> None"
    by (auto split: if_splits)
next
  fix m n b c
  assume "(if m \<le> 100 then Some (mock_block_at m) else None) = Some b"
    "(if n \<le> 100 then Some (mock_block_at n) else None) = Some c" "m \<le> n"
  then show "bi_timestamp b \<le> bi_timestamp c"
    by (auto simp: mock_block_at_def word_le_nat_alt unat_daily split: if_splits)
next
  fix f t a ns r w
  assume "f \<le> t" "fst (rp_announcements (mock (test_provider events)) a ns f t w) = Inr r"
  then show "r = filter (in_range f t) events"
    by (simp add: mock_def test_provider_def split: if_splits)
next
  fix f t a ns w e
  assume le: "f \<le> t" and e: "fst (rp_announcements (mock (test_provider events)) a ns f t w) = Inl e"
  then have "3 < t - f + 1" "e = RangeLimit ''test limit''"
    by (simp_all add: mock_def test_provider_def split: if_splits)
  moreover have "unat (t - f + 1) \<le> Suc (unat (t - f))" by (simp add: unat_word_ariths)
  moreover have "unat (t - f) = unat t - unat f" using le by (rule unat_sub_le)
  ultimately show "(\<exists>m. e = RangeLimit m) \<and> 3 \<le> unat t - unat f"
    by (simp add: word_less_nat_alt)
qed (use assms in simp_all)

definition test_events :: "announcement list" where
  "test_events = [test_announcement (Namespace 7) 50 [1, 1], test_announcement (Namespace 7) 51 [1, 2],
     test_announcement (Namespace 7) 52 (string_bytes ''invalid'')]"

lemma test_events_sorted: "sorted (map an_block_number test_events)"
  by (simp add: test_events_def test_announcement_def)

interpretation test_chain: chain_view "mock (test_provider test_events)"
    "\<lambda>n. if n \<le> 100 then Some (mock_block_at n) else None" "\<lambda>_ _. test_events" 3
  using test_events_sorted by (rule test_chain_view)

definition test_config :: scanner_config where
  "test_config = default_scanner_config\<lparr> sc_initial_chunk_size := 20, sc_minimum_chunk_size := 1 \<rparr>"

end
