(* ===== verification/Eth_Scan_Chain.thy ===== *)
theory Eth_Scan_Chain
  imports Eth_Scan Eth_Mock
begin

text \<open>
  A scan against a provider that serves one consistent chain succeeds, and its candidates are
  those of all the announcements up to the head, although it only asks for the window that
  can hold unexpired ones; and what any scan asks of the chain.
\<close>

section \<open>Success on a consistent chain\<close>

context chain_view
begin

lemma detect_reorg_answer:
  "\<exists>v. detect_reorg P previous w = (Inr (case previous of None \<Rightarrow> False
     | Some p \<Rightarrow> (case blk (ck_number p) of None \<Rightarrow> True | Some b \<Rightarrow> bi_hash b \<noteq> ck_hash p)), v)"
proof (cases previous)
  case (Some p)
  obtain u where "rp_block P (Number (ck_number p)) w = (Inr (blk (ck_number p)), u)"
    using block_at by blast
  with Some show ?thesis
    by (simp add: detect_reorg_def and_then_def proc_err_def succeed_def)
qed (simp add: detect_reorg_def succeed_def)

text \<open>
  What was announced before the window is rejected: its lifetime ended before the head. So
  starting at the window loses nothing.
\<close>

lemma window_accepted:
  assumes "blk (bi_number head) = Some head" and "rd_max_ttl_seconds (nd_registry d) = MAX_TTL_SECONDS"
    and old: "\<And>n b. rd_deployment_block (nd_registry d) \<le> n \<Longrightarrow> n < s \<Longrightarrow> blk n = Some b \<Longrightarrow>
      bi_timestamp b < saturating_sub (bi_timestamp head) (ucast (rd_max_ttl_seconds (nd_registry d)))"
    and law: "\<And>a b. a \<in> set logs \<Longrightarrow> blk (an_block_number a) = Some b \<Longrightarrow>
      rd_deployment_block (nd_registry d) \<le> an_block_number a \<and>
      unat (an_valid_until a) \<le> unat (bi_timestamp b) + unat MAX_TTL_SECONDS"
  shows "accepted codecs (scan_policy config d constants head) (filter (in_range s (bi_number head)) logs) =
    accepted codecs (scan_policy config d constants head) (filter (\<lambda>a. an_block_number a \<le> bi_number head) logs)"
proof -
  let ?upto = "filter (\<lambda>a. an_block_number a \<le> bi_number head) logs"
  have sub: "filter (in_range s (bi_number head)) logs = filter (\<lambda>a. s \<le> an_block_number a) ?upto"
    by (simp add: in_range_def [abs_def] conj_commute)
  have "\<exists>e. validate_announcement codecs a (scan_policy config d constants head) = Inl e"
    if "a \<in> set ?upto" "\<not> s \<le> an_block_number a" for a
  proof -
    from that have a: "a \<in> set logs" "an_block_number a \<le> bi_number head" "an_block_number a < s" by auto
    have "blk (bi_number head) \<noteq> None" using assms(1) by simp
    from block_gapless [OF this a(2)] obtain b where b: "blk (an_block_number a) = Some b" by auto
    note l = law [OF a(1) b]
    have "unat (ucast MAX_TTL_SECONDS :: u64) = unat MAX_TTL_SECONDS"
      by (simp add: MAX_TTL_SECONDS_def)
    with old [OF conjunct1 [OF l] a(3) b]
    have "unat (bi_timestamp b) < unat (bi_timestamp head) - unat MAX_TTL_SECONDS"
      by (simp add: word_less_nat_alt assms(2))
    with conjunct2 [OF l] have "an_valid_until a \<le> bi_timestamp head" by (simp add: word_le_nat_alt)
    then show ?thesis by (intro validate_announcement_expired) (simp add: scan_policy_def)
  qed
  then show ?thesis unfolding sub by (rule accepted_filter)
qed

lemma scan_completes:
  assumes "validate d = Inr ()"
    and "\<And>w. fst (rp_chain_id P w) = Inr (rd_chain_id (nd_registry d))"
    and "\<And>w. fst (rp_registry_constants P (rd_address (nd_registry d)) w) = Inr constants"
    and "verify_constants constants d = Inr ()"
    and "\<And>w. fst (confirmed_head P config w) = Inr head" and "blk (bi_number head) = Some head"
    and "rd_deployment_block (nd_registry d) \<le> bi_number head"
    and "unat (max (sc_minimum_chunk_size config) 1) \<le> narrow"
    and "\<And>a b. a \<in> set (served (rd_address (nd_registry d)) (nd_namespace d)) \<Longrightarrow>
      blk (an_block_number a) = Some b \<Longrightarrow>
      rd_deployment_block (nd_registry d) \<le> an_block_number a \<and>
      unat (an_valid_until a) \<le> unat (bi_timestamp b) + unat MAX_TTL_SECONDS"
  shows "\<exists>report v. scan keccak P codecs config d node previous w = (Inr report, v) \<and>
    sr_head report = head \<and>
    sr_reorg_detected report = (case previous of None \<Rightarrow> False
      | Some p \<Rightarrow> (case blk (ck_number p) of None \<Rightarrow> True | Some b \<Rightarrow> bi_hash b \<noteq> ck_hash p)) \<and>
    rd_deployment_block (nd_registry d) \<le> sr_start_block report \<and>
    sr_start_block report \<le> bi_number head \<and>
    sr_logs_processed report = min (sc_max_logs_per_scan config)
      (length (filter (in_range (sr_start_block report) (bi_number head))
        (served (rd_address (nd_registry d)) (nd_namespace d)))) \<and>
    sr_candidates report = store_ranked keccak (insert_all keccak
      (store_new (scan_store_config keccak config d node head))
      (accepted codecs (scan_policy config d constants head)
        (take (sc_max_logs_per_scan config)
          (filter (in_range (sr_start_block report) (bi_number head))
            (served (rd_address (nd_registry d)) (nd_namespace d)))))) \<and>
    (length (filter (in_range (sr_start_block report) (bi_number head))
        (served (rd_address (nd_registry d)) (nd_namespace d))) \<le> sc_max_logs_per_scan config \<longrightarrow>
      sr_candidates report = store_ranked keccak (insert_all keccak
        (store_new (scan_store_config keccak config d node head))
        (accepted codecs (scan_policy config d constants head)
          (filter (\<lambda>a. an_block_number a \<le> bi_number head)
            (served (rd_address (nd_registry d)) (nd_namespace d))))))"
proof -
  let ?addr = "rd_address (nd_registry d)" and ?ns = "nd_namespace d"
  let ?deploy = "rd_deployment_block (nd_registry d)" and ?head = "bi_number head"
  let ?cutoff = "saturating_sub (bi_timestamp head) (ucast (rd_max_ttl_seconds (nd_registry d)))"
  let ?policy = "scan_policy config d constants head" and ?logs = "served ?addr ?ns"
  let ?min = "max (sc_minimum_chunk_size config) 1" and ?init = "max (sc_initial_chunk_size config) 1"
  let ?p = "scan_start keccak config d node head"
  let ?reorg = "case previous of None \<Rightarrow> False
      | Some p \<Rightarrow> (case blk (ck_number p) of None \<Rightarrow> True | Some b \<Rightarrow> bi_hash b \<noteq> ck_hash p)"
  obtain w1 where w1: "rp_chain_id P w = (Inr (rd_chain_id (nd_registry d)), w1)"
    by (metis assms(2) prod.collapse)
  obtain w2 where w2: "rp_registry_constants P ?addr w1 = (Inr constants, w2)"
    by (metis assms(3) prod.collapse)
  obtain w3 where w3: "confirmed_head P config w2 = (Inr head, w3)"
    by (metis assms(5) prod.collapse)
  obtain w4 where w4: "detect_reorg P previous w3 = (Inr ?reorg, w4)"
    using detect_reorg_answer by blast
  have some: "blk ?head \<noteq> None" using assms(6) by simp
  from find_start_block_finds [OF assms(7) some, of ?cutoff w4] obtain s w5 where
    w5: "find_start_block P ?deploy ?head ?cutoff w4 = (Inr s, w5)" and s: "?deploy \<le> s" "s \<le> ?head"
    and old: "\<And>n b. ?deploy \<le> n \<Longrightarrow> n < s \<Longrightarrow> blk n = Some b \<Longrightarrow> bi_timestamp b < ?cutoff" by blast
  have pos: "0 < ?min" "0 < ?init" by (simp_all add: less_max_iff_disj)
  have ns: "ap_expected_namespace ?policy = ?ns" by (simp add: scan_policy_def)
  from scan_loop_complete [OF pos(1) assms(8) pos(2), of keccak codecs config ?addr ?policy ?head s 0 ?p w5]
  obtain red' w6 where w6: "scan_loop keccak P codecs config ?addr ?policy ?head ?min s ?init 0 ?p w5 =
     (Inr (fold_events keccak codecs ?policy ?p
       (take (sc_max_logs_per_scan config) (filter (in_range s ?head) ?logs)), red'), w6)"
    by (auto simp: ns scan_start_def)
  let ?window = "filter (in_range s ?head) ?logs" and ?cap = "sc_max_logs_per_scan config"
  let ?upto = "filter (\<lambda>a. an_block_number a \<le> ?head) ?logs"
  let ?ranked = "\<lambda>as. store_ranked keccak (insert_all keccak
      (store_new (scan_store_config keccak config d node head)) (accepted codecs ?policy as))"
  have "rd_max_ttl_seconds (nd_registry d) = MAX_TTL_SECONDS"
    using assms(4) by (auto simp: verify_constants_def split: if_splits)
  then have acc: "accepted codecs ?policy ?window = accepted codecs ?policy ?upto"
    using old assms(9) by (rule window_accepted [OF assms(6)])
  let ?out = "\<lparr> ls_logs_processed = length (take ?cap ?window),
    ls_records_rejected = sp_records_rejected (fold_events keccak codecs ?policy ?p (take ?cap ?window)),
    ls_chunk_reductions = red', ls_candidates = ?ranked (take ?cap ?window) \<rparr>"
  have logs: "scan_logs keccak P codecs config d node constants s head w5 = (Inr ?out, w6)"
    using w6 fold_events_result [of keccak codecs ?policy ?p "take ?cap ?window"]
    by (simp add: scan_logs_def scan_start_def and_then_def succeed_def)
  have run: "scan keccak P codecs config d node previous w =
    (Inr \<lparr> sr_start_block = s, sr_head = head,
       sr_checkpoint = \<lparr> ck_number = bi_number head, ck_hash = bi_hash head \<rparr>,
       sr_reorg_detected = ?reorg, sr_logs_processed = ls_logs_processed ?out,
       sr_records_rejected = ls_records_rejected ?out, sr_chunk_reductions = ls_chunk_reductions ?out,
       sr_candidates = ls_candidates ?out \<rparr>, w6)"
    using assms(1,4,7) w1 w2 w3 w4 w5 logs
    by (simp add: scan_def and_then_def proc_err_def lift_res_def ensure_def succeed_def)
  have "?ranked (take ?cap ?window) = ?ranked ?upto" if "length ?window \<le> ?cap" using that acc by simp
  with s show ?thesis unfolding run by (auto simp: min.commute)
qed

end


text \<open>The instance: a scan of the test chain.\<close>

abbreviation test_registry_constants :: registry_constants where
  "test_registry_constants \<equiv>
     \<lparr> rc_version = 1, rc_max_ttl = MAX_TTL_SECONDS, rc_max_record_bytes = 4096 \<rparr>"

lemma test_announcement_simps [simp]:
  "an_namespace (test_announcement ns n raw) = ns"
  "an_record_type (test_announcement ns n raw) = RECORD_TYPE_LIBP2P"
  "an_valid_until (test_announcement ns n raw) = 8640001"
  "an_peer_record (test_announcement ns n raw) = raw"
  "an_block_number (test_announcement ns n raw) = n"
  "an_log_index (test_announcement ns n raw) = 0"
  by (simp_all add: test_announcement_def)

lemma test_validate: "validate (test_descriptor ns) = Inr ()"
  by (simp add: validate_def test_descriptor_def RESURRECT_VERSION_def)

lemma test_answers:
  "fst (rp_chain_id (mock (test_provider events)) w) = Inr (rd_chain_id (nd_registry (test_descriptor ns)))"
  "fst (rp_registry_constants (mock (test_provider events)) a w) = Inr test_registry_constants"
  "fst (confirmed_head (mock (test_provider events)) test_config w) = Inr (mock_block_at 100)"
  by (simp_all add: confirmed_head_def test_config_def default_scanner_config_def try_tag_def mock_def
      test_provider_def test_descriptor_def succeed_def last_map)

lemma test_constants: "verify_constants test_registry_constants (test_descriptor ns) = Inr ()"
  by (simp add: verify_constants_def test_descriptor_def RESURRECT_VERSION_def DEFAULT_MAX_RECORD_BYTES_def)

lemma test_bounds:
  "(if bi_number (mock_block_at 100) \<le> 100
    then Some (mock_block_at (bi_number (mock_block_at 100))) else None) = Some (mock_block_at 100)"
  "rd_deployment_block (nd_registry (test_descriptor ns)) \<le> bi_number (mock_block_at 100)"
  "unat (max (sc_minimum_chunk_size test_config) 1) \<le> 3"
  by (simp_all add: mock_block_at_def test_descriptor_def test_config_def)

lemma test_events_upto:
  "filter (\<lambda>a. an_block_number a \<le> bi_number (mock_block_at 100)) test_events = test_events"
  by (simp add: test_events_def mock_block_at_def)

lemma test_budget:
  "length (filter Q test_events) \<le> sc_max_logs_per_scan test_config"
  by (rule order.trans [OF length_filter_le])
    (simp add: test_events_def test_config_def default_scanner_config_def DEFAULT_MAX_LOGS_PER_SCAN_def)

lemma test_law:
  assumes "a \<in> set test_events"
    and "(if an_block_number a \<le> 100 then Some (mock_block_at (an_block_number a)) else None) = Some b"
  shows "rd_deployment_block (nd_registry (test_descriptor ns)) \<le> an_block_number a \<and>
      unat (an_valid_until a) \<le> unat (bi_timestamp b) + unat MAX_TTL_SECONDS"
  using assms by (auto simp: test_events_def test_descriptor_def mock_block_at_def MAX_TTL_SECONDS_def)

lemmas test_scan_premises =
  test_validate test_answers(1,2) test_constants test_answers(3) test_bounds test_law

definition test_candidate :: "u8 \<Rightarrow> u8 \<Rightarrow> u64 \<Rightarrow> peer_candidate" where
  "test_candidate i n block =
     \<lparr> pc_record_type = RECORD_TYPE_LIBP2P, pc_peer_id = [i], pc_sequence = ucast n,
      pc_endpoints = [\<lparr> ep_address = ''/ip4/8.8.8.8/tcp/4001'' \<rparr>], pc_raw_signed_record = [i, n],
      pc_expires_at = 8640001, pc_source = ResurrectRegistry, pc_announcement_block = Some block,
      pc_announcement_log_index = Some 0 \<rparr>"

lemma test_candidate_simps [simp]:
  "identity_key (test_candidate i n block) = [0, 0, 0, 2, i]"
  "pc_sequence (test_candidate i n block) = ucast n"
  "freshness_of (test_candidate i n block) = Freshness (ucast n) block 0"
  by (simp_all add: test_candidate_def identity_key_def freshness_of_def opt_default_def
      RECORD_TYPE_LIBP2P_def be_bytes_def upt_rec)

lemma test_validated:
  shows "validate_announcement test_codecs (test_announcement (Namespace 7) block [i, n])
    (scan_policy test_config (test_descriptor (Namespace 7))
      test_registry_constants (mock_block_at 100)) =
    Inr (test_candidate i n block)"
  by (simp add: test_candidate_def validate_announcement_def scan_policy_def test_descriptor_def mock_block_at_def
      test_codecs_def register_def test_decode_def string_bytes_def test_config_def
      default_scanner_config_def DEFAULT_MAX_ENDPOINTS_PER_RECORD_def)

lemma test_invalid:
  "\<exists>e. validate_announcement test_codecs (test_announcement ns block (string_bytes ''invalid'')) policy = Inl e"
  by (simp add: validate_announcement_def test_codecs_def register_def test_decode_def split: option.splits)

lemma test_accepted:
  "accepted test_codecs (scan_policy test_config (test_descriptor (Namespace 7))
     test_registry_constants (mock_block_at 100)) test_events =
   [test_candidate 1 1 50, test_candidate 1 2 51]"
proof -
  obtain e where "validate_announcement test_codecs
      (test_announcement (Namespace 7) 52 (string_bytes ''invalid''))
      (scan_policy test_config (test_descriptor (Namespace 7)) test_registry_constants
        (mock_block_at 100)) = Inl e"
    using test_invalid by blast
  then show ?thesis by (simp add: test_events_def test_validated)
qed

lemma test_ranked:
  "map pc_sequence (store_ranked sum_hash (insert_all sum_hash
     (store_new (scan_store_config sum_hash test_config (test_descriptor (Namespace 7)) node (mock_block_at 100)))
     [test_candidate 1 1 50, test_candidate 1 2 51])) = [2]"
  by (simp add: insert_all_def store_insert_def store_new_def scan_store_config_def put_def
      store_ranked_def less_freshness_def test_config_def default_scanner_config_def
      DEFAULT_MAX_ACTIVE_CANDIDATES_def Let_def)

text \<open>The facts of the test scan, for the witnesses of the properties of scans.\<close>

lemmas test_scan_facts = test_budget test_events_upto test_accepted test_ranked

lemma test_scan_runs:
  "\<exists>report v. scan sum_hash (mock (test_provider test_events)) test_codecs test_config
     (test_descriptor (Namespace 7)) [1] previous w = (Inr report, v) \<and>
     map pc_sequence (sr_candidates report) = [2]"
  apply (rule exE [OF test_chain.scan_completes [OF test_scan_premises,
      of sum_hash test_codecs "Namespace 7" "[1]" previous w]], assumption, assumption)
  apply (elim exE conjE)
  subgoal premises p for report v
    using p(1) mp [OF p(8) test_budget] test_scan_facts(2-) by (intro exI [of _ report] exI [of _ v]) simp
  done


section \<open>What every report promises\<close>

lemma scan_candidate_sound:
  assumes "verify_constants constants d = Inr ()"
    and "\<exists>a. validate_announcement codecs a (scan_policy config d constants head) = Inr c"
  shows "pc_record_type c \<in> set (nd_accepted_record_types d) \<and>
      bi_timestamp head < pc_expires_at c \<and>
      length (pc_endpoints c) \<le> sc_max_endpoints_per_record config \<and>
      pc_source c = ResurrectRegistry \<and>
      (\<exists>codec raw decoded. codecs (pc_record_type c) = Some codec \<and>
        raw \<noteq> [] \<and> length raw \<le> DEFAULT_MAX_RECORD_BYTES \<and>
        decode_and_verify codec raw (sc_dial_context config) = Inr decoded \<and>
        pc_peer_id c = pc_peer_id decoded \<and> pc_sequence c = pc_sequence decoded \<and>
        pc_endpoints c = pc_endpoints decoded)"
proof -
  from assms(2) obtain a where
    a: "validate_announcement codecs a (scan_policy config d constants head) = Inr c" by blast
  have "ap_max_record_bytes (scan_policy config d constants head) = DEFAULT_MAX_RECORD_BYTES"
    using assms(1) by (auto simp: verify_constants_def scan_policy_def split: if_splits)
  with validate_announcement_InrD [OF a] show ?thesis
    by (auto simp: envelope_ok_def scan_policy_def)
qed

lemma scan_report_sound:
  assumes "scan keccak P codecs config d node previous w = (Inr report, v)"
  shows "validate d = Inr () \<and>
    rd_deployment_block (nd_registry d) \<le> sr_start_block report \<and>
    sr_start_block report \<le> bi_number (sr_head report) \<and>
    sr_checkpoint report =
      \<lparr> ck_number = bi_number (sr_head report), ck_hash = bi_hash (sr_head report) \<rparr> \<and>
    sr_logs_processed report \<le> sc_max_logs_per_scan config \<and>
    sr_records_rejected report \<le> sr_logs_processed report \<and>
    2 ^ sr_chunk_reductions report \<le> unat (max (sc_initial_chunk_size config) 1) \<and>
    length (sr_candidates report) \<le> max (sc_max_candidates config) 1 \<and>
    distinct (map identity_key (sr_candidates report)) \<and>
    (\<forall>c \<in> set (sr_candidates report).
      pc_record_type c \<in> set (nd_accepted_record_types d) \<and>
      bi_timestamp (sr_head report) < pc_expires_at c \<and>
      length (pc_endpoints c) \<le> sc_max_endpoints_per_record config \<and>
      pc_source c = ResurrectRegistry \<and>
      (\<exists>codec raw decoded. codecs (pc_record_type c) = Some codec \<and>
        raw \<noteq> [] \<and> length raw \<le> DEFAULT_MAX_RECORD_BYTES \<and>
        decode_and_verify codec raw (sc_dial_context config) = Inr decoded \<and>
        pc_peer_id c = pc_peer_id decoded \<and> pc_sequence c = pc_sequence decoded \<and>
        pc_endpoints c = pc_endpoints decoded))"
proof -
  from scan_stages [OF assms] obtain head constants scanned w4 w5 w6 where st:
    "validate d = Inr ()" "verify_constants constants d = Inr ()"
    "rd_deployment_block (nd_registry d) \<le> bi_number head"
    "find_start_block P (rd_deployment_block (nd_registry d)) (bi_number head)
       (saturating_sub (bi_timestamp head) (ucast (rd_max_ttl_seconds (nd_registry d)))) w4 =
       (Inr (sr_start_block report), w5)"
    "scan_logs keccak P codecs config d node constants (sr_start_block report) head w5 =
       (Inr scanned, w6)"
    and rep: "sr_head report = head"
      "sr_checkpoint report = \<lparr> ck_number = bi_number head, ck_hash = bi_hash head \<rparr>"
      "sr_logs_processed report = ls_logs_processed scanned"
      "sr_records_rejected report = ls_records_rejected scanned"
      "sr_chunk_reductions report = ls_chunk_reductions scanned"
      "sr_candidates report = ls_candidates scanned"
    by (metis (no_types, lifting) scan_report.select_convs)
  let ?policy = "scan_policy config d constants head"
  let ?config = "scan_store_config keccak config d node head"
  from scan_logs_folds [OF st(5)] obtain as where f:
    "length as \<le> sc_max_logs_per_scan config" "ls_logs_processed scanned = length as"
    "ls_records_rejected scanned + length (accepted codecs ?policy as) = length as"
    "ls_candidates scanned = store_ranked keccak (insert_all keccak (store_new ?config)
       (accepted codecs ?policy as))"
    "2 ^ ls_chunk_reductions scanned \<le> unat (max (sc_initial_chunk_size config) 1)" by blast
  have ok: "store_ok (insert_all keccak (store_new ?config) (accepted codecs ?policy as))"
    by (intro store_ok_insert_all store_ok_new)
  have bytes: "ap_max_record_bytes ?policy = DEFAULT_MAX_RECORD_BYTES"
    using st(2) by (auto simp: verify_constants_def scan_policy_def split: if_splits)
  have cand: "\<exists>a. validate_announcement codecs a ?policy = Inr c" if "c \<in> set (sr_candidates report)" for c
  proof -
    from that rep(6) f(4) insert_all_contents [OF store_ok_new, of keccak ?config "accepted codecs ?policy as"]
    have "c \<in> set (accepted codecs ?policy as)" by (auto simp: set_store_ranked store_new_def)
    then show ?thesis by (auto simp: in_accepted)
  qed
  note cand = scan_candidate_sound [OF st(2) cand]
  have "rd_deployment_block (nd_registry d) \<le> sr_start_block report \<and>
      sr_start_block report \<le> bi_number head"
    by (rule find_start_block_range [OF st(4,3)])
  moreover have "length (sr_candidates report) \<le> max (sc_max_candidates config) 1"
    using ranked_identities(2) [OF ok, of keccak] rep(6) f(4)
    by (simp add: store_new_def scan_store_config_def)
  moreover have "distinct (map identity_key (sr_candidates report))"
    using ranked_identities(1) [OF ok, of keccak] rep(6) f(4) by simp
  ultimately show ?thesis using st(1) rep f cand by (intro conjI) (auto; fail)+
qed

text \<open>
  C1: whatever the provider answers, a report is sound: the descriptor was valid, the window
  starts between deployment and head, the checkpoint is the head, no more logs are
  processed than configured and no more rejected than processed, the chunk width is halved at
  most \<open>log2\<close> of its initial value times, and the candidates are at most the configured number (at least one),
  of distinct identities, each of an accepted type, unexpired at the head's time, within the
  endpoint cap, marked as coming from the registry, and the decoding of a raw record by the
  codec registered for its type.
\<close>

theorem scan_sound:
  assumes "scan keccak P codecs config d node previous w = (Inr report, v)"
  shows "validate d = Inr () \<and>
    rd_deployment_block (nd_registry d) \<le> sr_start_block report \<and>
    sr_start_block report \<le> bi_number (sr_head report) \<and>
    sr_checkpoint report =
      \<lparr> ck_number = bi_number (sr_head report), ck_hash = bi_hash (sr_head report) \<rparr> \<and>
    sr_logs_processed report \<le> sc_max_logs_per_scan config \<and>
    sr_records_rejected report \<le> sr_logs_processed report \<and>
    2 ^ sr_chunk_reductions report \<le> unat (max (sc_initial_chunk_size config) 1) \<and>
    length (sr_candidates report) \<le> max (sc_max_candidates config) 1 \<and>
    distinct (map identity_key (sr_candidates report)) \<and>
    (\<forall>c \<in> set (sr_candidates report).
      pc_record_type c \<in> set (nd_accepted_record_types d) \<and>
      bi_timestamp (sr_head report) < pc_expires_at c \<and>
      length (pc_endpoints c) \<le> sc_max_endpoints_per_record config \<and>
      pc_source c = ResurrectRegistry \<and>
      (\<exists>codec raw decoded. codecs (pc_record_type c) = Some codec \<and>
        raw \<noteq> [] \<and> length raw \<le> DEFAULT_MAX_RECORD_BYTES \<and>
        decode_and_verify codec raw (sc_dial_context config) = Inr decoded \<and>
        pc_peer_id c = pc_peer_id decoded \<and> pc_sequence c = pc_sequence decoded \<and>
        pc_endpoints c = pc_endpoints decoded))"
  using scan_report_sound [OF assms] .

theorem scan_sound_witness:
  "\<exists>report v. scan sum_hash (mock (test_provider test_events)) test_codecs test_config
       (test_descriptor (Namespace 7)) [1] None [] = (Inr report, v) \<and>
     map pc_sequence (sr_candidates report) = [2] \<and>
     (\<forall>c \<in> set (sr_candidates report). pc_record_type c = RECORD_TYPE_LIBP2P)"
proof -
  obtain report v where run: "scan sum_hash (mock (test_provider test_events)) test_codecs test_config
       (test_descriptor (Namespace 7)) [1] None [] = (Inr report, v)"
    and c: "map pc_sequence (sr_candidates report) = [2]" using test_scan_runs [of None "[]"] by auto
  from scan_sound [OF run] have "\<forall>c \<in> set (sr_candidates report). pc_record_type c = RECORD_TYPE_LIBP2P"
    by (simp add: test_descriptor_def)
  with run c show ?thesis by auto
qed

section \<open>What a scan asks of the chain\<close>

definition scan_call_ok :: "scanner_config \<Rightarrow> network_descriptor \<Rightarrow> provider_call \<Rightarrow> bool" where
  "scan_call_ok config d q =
     (case q of
        CallChainId \<Rightarrow> True
      | CallConstants a \<Rightarrow> a = rd_address (nd_registry d)
      | CallBlock _ \<Rightarrow> True
      | CallAnnouncements a ns f t \<Rightarrow> a = rd_address (nd_registry d) \<and> ns = nd_namespace d \<and>
          rd_deployment_block (nd_registry d) \<le> f \<and> f \<le> t \<and>
          unat t - unat f < unat (max (sc_initial_chunk_size config) 1)
      | CallAnnounce _ _ _ _ _ \<Rightarrow> False)"

lemma scan_call_ok_simps [simp]:
  "scan_call_ok config d CallChainId"
  "scan_call_ok config d (CallBlock r)"
  "scan_call_ok config d (CallConstants (rd_address (nd_registry d)))"
  by (simp_all add: scan_call_ok_def)

lemma asks_try_tag:
  assumes "Q (CallBlock tag)" and "asks Q m"
  shows "asks Q (try_tag (observed P) tag m)"
proof (rule asksI)
  fix w calls r v calls'
  assume run: "try_tag (observed P) tag m (w, calls) = (r, (v, calls'))"
  obtain a u where a: "rp_block P tag w = (a, u)" by fastforce
  have "calls' = calls @ [CallBlock tag] \<or> m (u, calls @ [CallBlock tag]) = (r, (v, calls'))"
    using run a by (auto simp: try_tag_def logged_eq split: sum.splits option.splits provider_error.splits)
  then show "\<exists>qs. calls' = calls @ qs \<and> (\<forall>q \<in> set qs. Q q)"
  proof
    assume "calls' = calls @ [CallBlock tag]"
    with assms(1) show ?thesis by auto
  next
    assume "m (u, calls @ [CallBlock tag]) = (r, (v, calls'))"
    from asksE [OF assms(2) this] obtain qs where
      "calls' = (calls @ [CallBlock tag]) @ qs" "\<And>q. q \<in> set qs \<Longrightarrow> Q q" by blast
    with assms(1) show ?thesis by (intro exI [of _ "CallBlock tag # qs"]) auto
  qed
qed

lemma asks_confirmed_head:
  assumes "\<And>r. Q (CallBlock r)"
  shows "asks Q (confirmed_head (observed P) config)"
proof -
  have "asks Q (fallback_head (observed P) config)"
    unfolding fallback_head_def by (auto intro!: asks_intros simp: assms)
  then show ?thesis unfolding confirmed_head_def by (simp add: asks_try_tag assms)
qed

lemma asks_detect_reorg:
  "(\<And>r. Q (CallBlock r)) \<Longrightarrow> asks Q (detect_reorg (observed P) previous)"
  unfolding detect_reorg_def by (auto intro!: asks_intros split: option.split)

lemma asks_find_start_block:
  assumes "\<And>r. Q (CallBlock r)"
  shows "asks Q (find_start_block (observed P) deployment head cutoff)"
proof (cases "head \<le> deployment")
  case True
  then show ?thesis by (simp add: find_start_block_def asks_pure)
next
  case False
  have "unat head - unat deployment < 2 ^ 64" using unat_less_pow [of head] by simp
  note search = search_loop_queries [OF this]
  have "asks Q (search_loop (observed P) cutoff deployment head)"
  proof (rule asksI)
    fix w calls r v calls'
    assume "search_loop (observed P) cutoff deployment head (w, calls) = (r, (v, calls'))"
    from search [OF this] assms show "\<exists>qs. calls' = calls @ qs \<and> (\<forall>q \<in> set qs. Q q)" by metis
  qed
  with False show ?thesis by (simp add: find_start_block_def)
qed

lemma asks_scan_logs:
  assumes "rd_deployment_block (nd_registry d) \<le> start"
  shows "asks (scan_call_ok config d) (scan_logs keccak (observed P) codecs config d node constants start head)"
proof -
  have "asks (scan_call_ok config d) (scan_loop keccak (observed P) codecs config
      (rd_address (nd_registry d)) (scan_policy config d constants head) (bi_number head)
      (max (sc_minimum_chunk_size config) 1) start (max (sc_initial_chunk_size config) 1) 0 p)" for p
  proof (rule asksI)
    fix w calls r v calls'
    assume run: "scan_loop keccak (observed P) codecs config (rd_address (nd_registry d))
      (scan_policy config d constants head) (bi_number head) (max (sc_minimum_chunk_size config) 1)
      start (max (sc_initial_chunk_size config) 1) 0 p (w, calls) = (r, (v, calls'))"
    have "0 < max (sc_minimum_chunk_size config) 1" "0 < max (sc_initial_chunk_size config) 1"
      by (simp_all add: less_max_iff_disj)
    from scan_loop_queries [OF run this] obtain qs where qs: "calls' = calls @ qs"
      "\<forall>q \<in> set qs. \<exists>f t. q = CallAnnouncements (rd_address (nd_registry d)) (nd_namespace d) f t \<and>
         start \<le> f \<and> f \<le> t \<and> t \<le> bi_number head \<and> unat t - unat f < unat (max (sc_initial_chunk_size config) 1)"
      by (auto simp: scan_policy_def)
    have "scan_call_ok config d q" if "q \<in> set qs" for q
      using bspec [OF qs(2) that] order.trans [OF assms] by (auto simp: scan_call_ok_def)
    with qs(1) show "\<exists>qs. calls' = calls @ qs \<and> (\<forall>q \<in> set qs. scan_call_ok config d q)" by blast
  qed
  then show ?thesis unfolding scan_logs_def
    by (auto intro!: asks_intros)
qed

text \<open>
  C19: a scan fails closed. It never sends a transaction. It asks nothing at all of the chain for an
  invalid descriptor; the first two calls are the chain id and the constants of the registry
  named by the descriptor, and no block or log is asked for unless the chain id was the
  descriptor's and the constants passed verification. Every log query is for the
  descriptor's registry and namespace, starts no earlier than the deployment block, and spans at most
  the configured chunk. This holds whatever the provider answers, on success and on failure.
\<close>

theorem scan_fails_closed:
  assumes "scan keccak (observed P) codecs config d node previous (w, []) = (r, (v, calls))"
  shows "(\<forall>q \<in> set calls. scan_call_ok config d q) \<and>
    (calls \<noteq> [] \<longrightarrow> validate d = Inr ()) \<and>
    take 2 calls = take (length calls) [CallChainId, CallConstants (rd_address (nd_registry d))] \<and>
    (tl calls \<noteq> [] \<longrightarrow> fst (rp_chain_id P w) = Inr (rd_chain_id (nd_registry d))) \<and>
    (tl (tl calls) \<noteq> [] \<longrightarrow>
      (\<exists>constants. fst (rp_registry_constants P (rd_address (nd_registry d)) (snd (rp_chain_id P w))) =
         Inr constants \<and> verify_constants constants d = Inr ()))"
proof -
  let ?addr = "rd_address (nd_registry d)" and ?ok = "scan_call_ok config d"
  define rest where "rest constants =
     and_then (confirmed_head (observed P) config) (\<lambda>head.
     and_then (ensure (rd_deployment_block (nd_registry d) \<le> bi_number head)
         (DeploymentAfterHead (rd_deployment_block (nd_registry d)) (bi_number head))) (\<lambda>_.
     and_then (detect_reorg (observed P) previous) (\<lambda>reorg_detected.
     and_then (find_start_block (observed P) (rd_deployment_block (nd_registry d)) (bi_number head)
         (saturating_sub (bi_timestamp head) (ucast (rd_max_ttl_seconds (nd_registry d)))))
       (\<lambda>start_block.
     and_then (scan_logs keccak (observed P) codecs config d node constants start_block head)
       (\<lambda>scanned.
     succeed \<lparr> sr_start_block = start_block, sr_head = head,
       sr_checkpoint = \<lparr> ck_number = bi_number head, ck_hash = bi_hash head \<rparr>,
       sr_reorg_detected = reorg_detected,
       sr_logs_processed = ls_logs_processed scanned,
       sr_records_rejected = ls_records_rejected scanned,
       sr_chunk_reductions = ls_chunk_reductions scanned,
       sr_candidates = ls_candidates scanned \<rparr>)))))" for constants
  have asks: "asks ?ok (rest constants)" for constants
    unfolding rest_def
    by (intro asks_intros asks_confirmed_head asks_detect_reorg asks_find_start_block asks_scan_logs)
      (auto dest: find_start_block_range)
  obtain a w1 where a: "rp_chain_id P w = (a, w1)" by fastforce
  obtain c w2 where c: "rp_registry_constants P ?addr w1 = (c, w2)" by fastforce
  note unfolded = assms [unfolded scan_def, folded rest_def]
  consider "validate d \<noteq> Inr ()" | "validate d = Inr ()" "a \<noteq> Inr (rd_chain_id (nd_registry d))"
    | "validate d = Inr ()" "a = Inr (rd_chain_id (nd_registry d))"
      "\<nexists>k. c = Inr k \<and> verify_constants k d = Inr ()"
    | (ok) k where "validate d = Inr ()" "a = Inr (rd_chain_id (nd_registry d))" "c = Inr k"
      "verify_constants k d = Inr ()" by blast
  then show ?thesis
  proof cases
    case ok
    from unfolded ok a c have "rest k (w2, [CallChainId, CallConstants ?addr]) = (r, (v, calls))"
      by (simp add: and_then_def proc_err_def lift_res_def ensure_def succeed_def logged_eq)
    from asksE [OF asks this] obtain qs where
      "calls = [CallChainId, CallConstants ?addr] @ qs" "\<And>q. q \<in> set qs \<Longrightarrow> ?ok q" by blast
    with ok a c show ?thesis by auto
  qed (use unfolded a c in \<open>auto simp: and_then_def proc_err_def lift_res_def ensure_def succeed_def
      fail_def logged_eq map_err_def split: sum.splits if_splits\<close>)
qed

theorem scan_fails_closed_witness:
  "\<exists>r v calls. scan sum_hash (observed (mock (test_provider []))) test_codecs test_config
     (test_descriptor (Namespace 7)
       \<lparr> nd_registry := nd_registry (test_descriptor (Namespace 7))\<lparr> rd_chain_id := 1 \<rparr> \<rparr>)
     [1] None ([], []) = (r, (v, calls)) \<and> tl calls = []"
proof -
  let ?d = "test_descriptor (Namespace 7)
    \<lparr> nd_registry := nd_registry (test_descriptor (Namespace 7))\<lparr> rd_chain_id := 1 \<rparr> \<rparr>"
  obtain r v calls where run: "scan sum_hash (observed (mock (test_provider []))) test_codecs test_config
    ?d [1] None ([], []) = (r, (v, calls))" by (metis prod.collapse)
  have "fst (rp_chain_id (mock (test_provider [])) []) \<noteq> Inr (rd_chain_id (nd_registry ?d))"
    by (simp add: mock_def test_provider_def succeed_def)
  with scan_fails_closed [OF run] have "tl calls = []" by auto
  with run show ?thesis by auto
qed

section \<open>The start of the window\<close>

text \<open>
  C20: on a consistent chain the binary search finds the start of the window exactly: every
  block from the deployment up to it, exclusive, is older than the cutoff, and unless it is the head
  the block itself is not.
\<close>

theorem start_block_correct:
  assumes "chain_view P blk served narrow" and "deployment \<le> head" and "blk head \<noteq> None"
  shows "\<exists>s v. find_start_block P deployment head cutoff w = (Inr s, v) \<and>
     deployment \<le> s \<and> s \<le> head \<and>
     (\<forall>n b. deployment \<le> n \<and> n < s \<and> blk n = Some b \<longrightarrow> bi_timestamp b < cutoff) \<and>
     (s < head \<longrightarrow> (\<exists>b. blk s = Some b \<and> cutoff \<le> bi_timestamp b))"
  using assms(2,3) by (rule chain_view.find_start_block_finds [OF assms(1)])

theorem start_block_correct_witness:
  "\<exists>s v. find_start_block (mock (test_provider test_events)) 0 100 (10 * 86400) [] = (Inr s, v) \<and>
     s \<le> 100 \<and> (s < 100 \<longrightarrow> 10 * 86400 \<le> bi_timestamp (mock_block_at s))"
proof -
  have h: "(0 :: u64) \<le> 100" "(if (100 :: u64) \<le> 100 then Some (mock_block_at 100) else None) \<noteq> None"
    by simp_all
  from start_block_correct [OF test_chain.chain_view_axioms h, of "10 * 86400" "[]"] show ?thesis
    by (auto split: if_splits)
qed

text \<open>
  Whatever the provider answers, finding the start block of a window of fewer than
  \<open>2 ^ n\<close> blocks takes at most \<open>n\<close> calls (so never more than 64), each for a block of the
  window.
\<close>

theorem start_block_queries:
  assumes "find_start_block (observed P) deployment head cutoff (w, []) = (r, (v, calls))"
    and "unat head - unat deployment < 2 ^ n"
  shows "length calls \<le> n \<and>
     (\<forall>q \<in> set calls. \<exists>m. q = CallBlock (Number m) \<and> deployment \<le> m \<and> m < head)"
  using assms search_loop_queries [OF assms(2), of P cutoff w "[]" r v calls]
  by (auto simp: find_start_block_def succeed_def split: if_splits)

theorem start_block_queries_witness:
  "\<exists>r v calls. find_start_block (observed (mock (test_provider []))) 0 100 864000 ([], []) =
     (r, (v, calls)) \<and> length calls \<le> 7"
proof -
  obtain r v calls where run: "find_start_block (observed (mock (test_provider []))) 0 100 864000 ([], []) =
     (r, (v, calls))" by (metis prod.collapse)
  have "unat (100 :: u64) - unat (0 :: u64) < 2 ^ 7" by simp
  from start_block_queries [OF run this] run show ?thesis by auto
qed

end
