(* ===== verification/Bootstrap.thy ===== *)
theory Bootstrap
  imports Core_Record Core_Namespace "HOL-Library.Multiset"
begin

text \<open>
  \<open>crates/resurrect-bootstrap/src/lib.rs\<close>: one pass of the bootstrap state machine over its
  replaceable interfaces. The interfaces are a record of effectful operations on the state of the outside
  world; the runtime's choice of which dial in flight completes next is one of them, so every
  interleaving of concurrent dials is covered. A dial always completes, since the code wraps
  it in a timeout. Durations are natural numbers of nanoseconds.
\<close>

section \<open>Data\<close>

datatype bootstrap_state =
    Start | CacheDiscovery | NativeDiscovery | ResurrectScan | Dialing
  | Isolated | AnnounceSelf | Backoff | Connected

record bootstrap_outcome =
  bo_state :: bootstrap_state
  bo_connected_via :: "bootstrap_state option"
  bo_announced :: bool
  bo_transitions :: "bootstrap_state list"

record bootstrap_policy =
  bp_minimum_successful_peers :: nat
  bp_maximum_parallel_dials :: nat
  bp_per_dial_timeout :: duration
  bp_reboot_ttl :: duration

definition default_bootstrap_policy :: bootstrap_policy where
  "default_bootstrap_policy =
     \<lparr> bp_minimum_successful_peers = 2, bp_maximum_parallel_dials = 8,
       bp_per_dial_timeout = from_secs 8, bp_reboot_ttl = from_secs (7 * 24 * 60 * 60) \<rparr>"

datatype bootstrap_error = Discovery string | AnnouncementFailed string | NativePeerStore string

fun bootstrap_error_text :: "bootstrap_error \<Rightarrow> string" where
  "bootstrap_error_text (Discovery e) = ''discovery failed: '' @ e"
| "bootstrap_error_text (AnnouncementFailed e) = ''self-announcement failed: '' @ e"
| "bootstrap_error_text (NativePeerStore e) = ''native peer-store update failed: '' @ e"

text \<open>
  The traits \<open>DiscoverySource\<close> (twice), \<open>NativeDiscovery\<close>, \<open>PeerConnector\<close> and
  \<open>AnnouncementPublisher\<close>. \<open>be_next_dial\<close> is the runtime: given the dials in flight, oldest
  first, it lets one of them complete and gives its index.
\<close>

record 'w bootstrap_env =
  be_cache_discover :: "namespace \<Rightarrow> ('w, bootstrap_error, peer_candidate list) proc"
  be_native_discover :: "namespace \<Rightarrow> ('w, bootstrap_error, peer_candidate list) proc"
  be_add_verified_peer :: "peer_candidate \<Rightarrow> ('w, bootstrap_error, unit) proc"
  be_registry_discover :: "namespace \<Rightarrow> ('w, bootstrap_error, peer_candidate list) proc"
  be_connected_peers :: "'w \<Rightarrow> nat \<times> 'w"
  be_connect :: "peer_candidate \<Rightarrow> duration \<Rightarrow> 'w \<Rightarrow> 'w"
  be_next_dial :: "peer_candidate list \<Rightarrow> 'w \<Rightarrow> nat \<times> 'w"
  be_drop_dials :: "peer_candidate list \<Rightarrow> 'w \<Rightarrow> 'w"
  be_eligible :: "'w \<Rightarrow> bool \<times> 'w"
  be_renewal_due :: "'w \<Rightarrow> bool \<times> 'w"
  be_announce :: "duration \<Rightarrow> ('w, bootstrap_error, unit) proc"

section \<open>The cycle\<close>

definition connection_target :: "bootstrap_policy \<Rightarrow> nat" where
  "connection_target policy =
     (if bp_minimum_successful_peers policy = 0 then 1 else bp_minimum_successful_peers policy)"

definition connected_outcome :: "bootstrap_state list \<Rightarrow> bootstrap_state \<Rightarrow> bootstrap_outcome" where
  "connected_outcome transitions connected_via =
     \<lparr> bo_state = Connected, bo_connected_via = Some connected_via, bo_announced = False,
       bo_transitions = transitions \<rparr>"

text \<open>
  \<open>buffer_unordered(parallel)\<close>: before it waits, it starts dials until \<open>parallel\<close> are in
  flight.
\<close>

definition refill :: "'w bootstrap_env \<Rightarrow> bootstrap_policy \<Rightarrow> peer_candidate list \<Rightarrow>
    peer_candidate list \<Rightarrow> 'w \<Rightarrow> peer_candidate list \<times> peer_candidate list \<times> 'w" where
  "refill env policy in_flight waiting w =
     (let free = max (bp_maximum_parallel_dials policy) 1 - length in_flight;
          started = take free waiting
      in (in_flight @ started, drop free waiting,
          foldl (\<lambda>v peer. be_connect env peer (bp_per_dial_timeout policy) v) w started))"

lemma refill_lengths:
  assumes "refill env policy in_flight waiting w = (in_flight', waiting', v)"
  shows "length in_flight' + length waiting' = length in_flight + length waiting"
  using assms by (auto simp: refill_def Let_def)

definition remove_nth :: "nat \<Rightarrow> 'a list \<Rightarrow> 'a list" where
  "remove_nth i xs = take i xs @ drop (Suc i) xs"

lemma length_remove_nth: "i < length xs \<Longrightarrow> length (remove_nth i xs) = length xs - 1"
  by (simp add: remove_nth_def)

text \<open>
  The loop \<open>while dials.next().await.is_some()\<close>. Returning early drops the stream and with it
  the dials still in flight.
\<close>

function dial_loop :: "'w bootstrap_env \<Rightarrow> bootstrap_policy \<Rightarrow> peer_candidate list \<Rightarrow>
    peer_candidate list \<Rightarrow> 'w \<Rightarrow> bool \<times> 'w" where
  "dial_loop env policy in_flight waiting w =
     (case refill env policy in_flight waiting w of (flying, queued, w1) \<Rightarrow>
        if flying = [] then (False, w1)
        else case be_next_dial env flying w1 of (i, w2) \<Rightarrow>
          let rest = remove_nth (i mod length flying) flying
          in case be_connected_peers env w2 of (connected, w3) \<Rightarrow>
            if connection_target policy \<le> connected then (True, be_drop_dials env rest w3)
            else dial_loop env policy rest queued w3)"
  by pat_completeness auto
termination
proof (relation "measure (\<lambda>(env, policy, in_flight, waiting, w). length in_flight + length waiting)",
    goal_cases)
  case 1
  then show ?case by simp
next
  case prems: (2 env policy in_flight waiting w flying x queued w1)
  with refill_lengths [of env policy in_flight waiting w flying queued w1]
  show ?case by (cases flying) (auto simp: length_remove_nth)
qed

declare dial_loop.simps [simp del]

definition dial_candidates :: "'w bootstrap_env \<Rightarrow> bootstrap_policy \<Rightarrow> peer_candidate list \<Rightarrow>
    bootstrap_state list \<Rightarrow> bootstrap_state \<Rightarrow> 'w \<Rightarrow> (bool \<times> bootstrap_state list) \<times> 'w" where
  "dial_candidates env policy peers transitions source w =
     (if peers = [] then ((False, transitions), w)
      else case dial_loop env policy [] peers w of
          (True, v) \<Rightarrow> ((True, transitions @ [Dialing, source, Connected]), v)
        | (False, v) \<Rightarrow> ((False, transitions @ [Dialing]), v))"

text \<open>The condition \<open>let Ok(peers) = found && self.dial_candidates(...)\<close>.\<close>

definition dial_found :: "'w bootstrap_env \<Rightarrow> bootstrap_policy \<Rightarrow>
    bootstrap_error + peer_candidate list \<Rightarrow> bootstrap_state list \<Rightarrow> bootstrap_state \<Rightarrow> 'w \<Rightarrow>
    (bool \<times> bootstrap_state list) \<times> 'w" where
  "dial_found env policy found transitions source w =
     (case found of Inl _ \<Rightarrow> ((False, transitions), w)
      | Inr peers \<Rightarrow> dial_candidates env policy peers transitions source w)"

definition add_verified_peers :: "'w bootstrap_env \<Rightarrow> bootstrap_error + peer_candidate list \<Rightarrow> 'w \<Rightarrow> 'w" where
  "add_verified_peers env found w =
     (case found of Inl _ \<Rightarrow> w
      | Inr peers \<Rightarrow> foldl (\<lambda>v peer. snd (be_add_verified_peer env peer v)) w peers)"

definition promote :: "'w bootstrap_env \<Rightarrow> bootstrap_policy \<Rightarrow> bootstrap_state list \<Rightarrow>
    ('w, bootstrap_error, bootstrap_outcome) proc" where
  "promote env policy transitions w =
     (case be_eligible env w of
        (True, v) \<Rightarrow> and_then (be_announce env (bp_reboot_ttl policy)) (\<lambda>_. succeed
          \<lparr> bo_state = Backoff, bo_connected_via = None, bo_announced = True,
            bo_transitions = transitions @ [AnnounceSelf, Backoff] \<rparr>) v
      | (False, v) \<Rightarrow> (Inr \<lparr> bo_state = Backoff, bo_connected_via = None, bo_announced = False,
            bo_transitions = transitions @ [Backoff] \<rparr>, v))"

definition run_cycle :: "'w bootstrap_env \<Rightarrow> bootstrap_policy \<Rightarrow> namespace \<Rightarrow>
    ('w, bootstrap_error, bootstrap_outcome) proc" where
  "run_cycle env policy ns w =
     (case be_connected_peers env w of (connected, w0) \<Rightarrow>
      if connection_target policy \<le> connected
      then (Inr (connected_outcome [Start, Connected] Start), w0)
      else
     (case be_cache_discover env ns w0 of (cached, w1) \<Rightarrow>
     (case dial_found env policy cached [Start, CacheDiscovery] CacheDiscovery w1 of ((reached1, t1), w2) \<Rightarrow>
      if reached1 then (Inr (connected_outcome t1 CacheDiscovery), w2)
      else
     (case be_native_discover env ns w2 of (native, w3) \<Rightarrow>
     (case dial_found env policy native (t1 @ [NativeDiscovery]) NativeDiscovery w3 of ((reached2, t2), w4) \<Rightarrow>
      if reached2 then (Inr (connected_outcome t2 NativeDiscovery), w4)
      else
     (case be_registry_discover env ns w4 of (found, w5) \<Rightarrow>
     (case dial_found env policy found (t2 @ [ResurrectScan]) ResurrectScan
             (add_verified_peers env found w5) of ((reached3, t3), w6) \<Rightarrow>
      if reached3 then (Inr (connected_outcome t3 ResurrectScan), w6)
      else promote env policy (t3 @ [Isolated]) w6)))))))"

section \<open>The observed cycle\<close>

datatype bootstrap_event =
    DiscoveredCache namespace "bootstrap_error + peer_candidate list"
  | DiscoveredNative namespace "bootstrap_error + peer_candidate list"
  | DiscoveredRegistry namespace "bootstrap_error + peer_candidate list"
  | AddVerified peer_candidate
  | SawConnected nat
  | DialStarted peer_candidate duration
  | DialFinished peer_candidate
  | DialsDropped "peer_candidate list"
  | SawEligible bool
  | SawRenewalDue bool
  | Announced duration "bootstrap_error + unit"

text \<open>An operation that also appends an event built from its answer.\<close>

definition recorded :: "('a \<Rightarrow> 'e) \<Rightarrow> ('w \<Rightarrow> 'a \<times> 'w) \<Rightarrow> 'w \<times> 'e list \<Rightarrow> 'a \<times> 'w \<times> 'e list" where
  "recorded event m = (\<lambda>(w, es). case m w of (x, v) \<Rightarrow> (x, (v, es @ [event x])))"

lemma recorded_eq: "recorded event m (w, es) = (fst (m w), (snd (m w), es @ [event (fst (m w))]))"
  by (simp add: recorded_def split_beta)

definition observed_env :: "'w bootstrap_env \<Rightarrow> ('w \<times> bootstrap_event list) bootstrap_env" where
  "observed_env env =
     \<lparr> be_cache_discover = (\<lambda>ns. recorded (DiscoveredCache ns) (be_cache_discover env ns)),
       be_native_discover = (\<lambda>ns. recorded (DiscoveredNative ns) (be_native_discover env ns)),
       be_add_verified_peer = (\<lambda>peer. recorded (\<lambda>_. AddVerified peer) (be_add_verified_peer env peer)),
       be_registry_discover = (\<lambda>ns. recorded (DiscoveredRegistry ns) (be_registry_discover env ns)),
       be_connected_peers = recorded SawConnected (be_connected_peers env),
       be_connect = (\<lambda>peer timeout (w, es). (be_connect env peer timeout w, es @ [DialStarted peer timeout])),
       be_next_dial = (\<lambda>flying. recorded (\<lambda>i. DialFinished (flying ! (i mod length flying)))
          (be_next_dial env flying)),
       be_drop_dials = (\<lambda>peers (w, es). (be_drop_dials env peers w, es @ [DialsDropped peers])),
       be_eligible = recorded SawEligible (be_eligible env),
       be_renewal_due = recorded SawRenewalDue (be_renewal_due env),
       be_announce = (\<lambda>ttl. recorded (Announced ttl) (be_announce env ttl)) \<rparr>"

primrec started :: "bootstrap_event list \<Rightarrow> peer_candidate list" where
  "started [] = []"
| "started (e # es) = (case e of DialStarted peer _ \<Rightarrow> peer # started es | _ \<Rightarrow> started es)"

primrec finished :: "bootstrap_event list \<Rightarrow> peer_candidate list" where
  "finished [] = []"
| "finished (e # es) = (case e of DialFinished peer \<Rightarrow> peer # finished es | _ \<Rightarrow> finished es)"

lemma started_append [simp]: "started (es @ fs) = started es @ started fs"
  by (induction es) (simp_all split: bootstrap_event.split)

lemma finished_append [simp]: "finished (es @ fs) = finished es @ finished fs"
  by (induction es) (simp_all split: bootstrap_event.split)

lemma starts_simps [simp]:
  "started (map (\<lambda>p. DialStarted p t) ps) = ps" "finished (map (\<lambda>p. DialStarted p t) ps) = []"
  by (induction ps) simp_all

definition all_below :: "nat \<Rightarrow> bootstrap_event list \<Rightarrow> bool" where
  "all_below target es \<longleftrightarrow> (\<forall>n. SawConnected n \<in> set es \<longrightarrow> n < target)"

definition dial_event :: "nat \<Rightarrow> bootstrap_event \<Rightarrow> bool" where
  "dial_event timeout e \<longleftrightarrow> (case e of DialStarted _ t \<Rightarrow> t = timeout | DialFinished _ \<Rightarrow> True
     | SawConnected _ \<Rightarrow> True | DialsDropped _ \<Rightarrow> True | _ \<Rightarrow> False)"

text \<open>Starting from \<open>n\<close> dials in flight, there are never more than \<open>parallel\<close>.\<close>

primrec in_flight_ok :: "nat \<Rightarrow> nat \<Rightarrow> bootstrap_event list \<Rightarrow> bool" where
  "in_flight_ok parallel n [] = True"
| "in_flight_ok parallel n (e # es) =
     (case e of DialStarted _ _ \<Rightarrow> n < parallel \<and> in_flight_ok parallel (Suc n) es
      | DialFinished _ \<Rightarrow> 0 < n \<and> in_flight_ok parallel (n - 1) es
      | _ \<Rightarrow> in_flight_ok parallel n es)"

lemma in_flight_ok_starts:
  "n + length ps \<le> parallel \<Longrightarrow>
   in_flight_ok parallel n (map (\<lambda>p. DialStarted p t) ps @ es) = in_flight_ok parallel (n + length ps) es"
  by (induction ps arbitrary: n) simp_all

text \<open>
  What one dialing stage may do, as a property of its events: candidates are started in order,
  each once, with the policy's timeout and never more than the policy allows at a time;
  the stage ends at the first observation of enough peers, and only then; if it never
  makes that observation, every candidate was dialed to its end.
\<close>

definition dials_ok :: "bootstrap_policy \<Rightarrow> peer_candidate list \<Rightarrow> peer_candidate list \<Rightarrow>
    bool \<Rightarrow> bootstrap_event list \<Rightarrow> bool" where
  "dials_ok policy in_flight waiting reached es \<longleftrightarrow>
     (\<forall>e \<in> set es. dial_event (bp_per_dial_timeout policy) e) \<and>
     started es = take (length (started es)) waiting \<and>
     in_flight_ok (max (bp_maximum_parallel_dials policy) 1) (length in_flight) es \<and>
     (if reached then \<exists>es' n dropped. es = es' @ [SawConnected n, DialsDropped dropped] \<and>
        connection_target policy \<le> n \<and> all_below (connection_target policy) es'
      else started es = waiting \<and> mset (finished es) = mset (in_flight @ waiting) \<and>
        all_below (connection_target policy) es)"

lemma foldl_connect_observed:
  "foldl (\<lambda>v peer. be_connect (observed_env env) peer t v) (w, es) ps =
     (foldl (\<lambda>v peer. be_connect env peer t v) w ps, es @ map (\<lambda>p. DialStarted p t) ps)"
  by (induction ps arbitrary: w es) (simp_all add: observed_env_def)

lemma mset_remove_nth: "i < length xs \<Longrightarrow> add_mset (xs ! i) (mset (remove_nth i xs)) = mset xs"
  by (metis remove_nth_def id_take_nth_drop mset.simps(2) mset_append union_mset_add_mset_right)

lemma dials_ok_step:
  assumes new: "flying = in_flight @ take (max (bp_maximum_parallel_dials policy) 1 - length in_flight) waiting"
      "queued = drop (max (bp_maximum_parallel_dials policy) 1 - length in_flight) waiting"
    and par: "length in_flight \<le> max (bp_maximum_parallel_dials policy) 1"
    and j: "j < length flying"
    and now: "now = map (\<lambda>p. DialStarted p (bp_per_dial_timeout policy))
        (take (max (bp_maximum_parallel_dials policy) 1 - length in_flight) waiting) @
        [DialFinished (flying ! j), SawConnected n]"
  shows "connection_target policy \<le> n \<Longrightarrow>
      dials_ok policy in_flight waiting True (now @ [DialsDropped (remove_nth j flying)])"
    and "n < connection_target policy \<Longrightarrow> dials_ok policy (remove_nth j flying) queued reached rest \<Longrightarrow>
      dials_ok policy in_flight waiting reached (now @ rest)"
proof -
  let ?par = "max (bp_maximum_parallel_dials policy) 1"
  define new where "new = take (?par - length in_flight) waiting"
  have now': "now = map (\<lambda>p. DialStarted p (bp_per_dial_timeout policy)) new @
      [DialFinished (flying ! j), SawConnected n]" using now by (simp add: new_def)
  have fly: "flying = in_flight @ new" and wait: "waiting = new @ queued"
    using new by (simp_all add: new_def)
  have len: "length in_flight + length new \<le> ?par" using par by (simp add: new_def)
  have fl: "in_flight_ok ?par (length in_flight) (now @ fs) = in_flight_ok ?par (length (remove_nth j flying)) fs" for fs
  proof -
    have "in_flight_ok ?par (length in_flight) (now @ fs) =
        in_flight_ok ?par (length flying) ([DialFinished (flying ! j), SawConnected n] @ fs)"
      unfolding now' append_assoc using in_flight_ok_starts [OF len] by (simp add: fly)
    with j show ?thesis by (cases flying) (simp_all add: length_remove_nth)
  qed
  have ev: "\<forall>e \<in> set now. dial_event (bp_per_dial_timeout policy) e"
    by (auto simp: now' dial_event_def)
  have st: "started now = new" "finished now = [flying ! j]" by (simp_all add: now')
  show "dials_ok policy in_flight waiting True (now @ [DialsDropped (remove_nth j flying)])"
    if "connection_target policy \<le> n"
    using that fl [of "[DialsDropped (remove_nth j flying)]"] ev st wait
    by (auto simp: dials_ok_def dial_event_def all_below_def now')
  show "dials_ok policy in_flight waiting reached (now @ rest)"
    if less: "n < connection_target policy" and r: "dials_ok policy (remove_nth j flying) queued reached rest"
  proof -
    have below: "all_below (connection_target policy) (now @ es) = all_below (connection_target policy) es" for es
      using less by (auto simp: all_below_def now')
    have ms: "mset (finished now) + mset (remove_nth j flying) = mset flying"
      using mset_remove_nth [OF j] by (simp add: st)
    have "started rest = take (length (started rest)) queued" using r by (simp add: dials_ok_def)
    then have "started (now @ rest) = take (length (started (now @ rest))) waiting"
      by (simp add: st wait)
    moreover have "if reached then \<exists>es' m dropped. now @ rest = es' @ [SawConnected m, DialsDropped dropped] \<and>
            connection_target policy \<le> m \<and> all_below (connection_target policy) es'
          else started (now @ rest) = waiting \<and> mset (finished (now @ rest)) = mset (in_flight @ waiting) \<and>
            all_below (connection_target policy) (now @ rest)"
    proof (cases reached)
      case True
      with r obtain es' m dropped where "rest = es' @ [SawConnected m, DialsDropped dropped]"
        "connection_target policy \<le> m" "all_below (connection_target policy) es'"
        by (auto simp: dials_ok_def)
      with True below show ?thesis by (metis append_assoc)
    next
      case False
      with r have "started rest = queued" "all_below (connection_target policy) rest"
        "mset (finished rest) = mset (remove_nth j flying @ queued)" by (simp_all add: dials_ok_def)
      with False below ms show ?thesis by (simp add: st wait fly flip: union_assoc)
    qed
    moreover have "in_flight_ok ?par (length in_flight) (now @ rest)"
      unfolding fl using r by (simp only: dials_ok_def)
    moreover have "\<forall>e \<in> set (now @ rest). dial_event (bp_per_dial_timeout policy) e"
      using r ev by (simp add: dials_ok_def ball_Un)
    ultimately show ?thesis unfolding dials_ok_def by (intro conjI)
  qed
qed

lemma dial_loop_events:
  assumes "dial_loop (observed_env env) policy in_flight waiting (w, es) = (reached, (v, es'))"
    and "length in_flight \<le> max (bp_maximum_parallel_dials policy) 1"
  shows "\<exists>new. es' = es @ new \<and> dials_ok policy in_flight waiting reached new"
  using assms
proof (induction "length in_flight + length waiting" arbitrary: in_flight waiting w es rule: less_induct)
  case less
  let ?t = "bp_per_dial_timeout policy" and ?env = "observed_env env"
  define free where "free = max (bp_maximum_parallel_dials policy) 1 - length in_flight"
  define flying where "flying = in_flight @ take free waiting"
  define queued where "queued = drop free waiting"
  define starts where "starts = map (\<lambda>p. DialStarted p ?t) (take free waiting)"
  define w1 where "w1 = foldl (\<lambda>v peer. be_connect env peer ?t v) w (take free waiting)"
  have refill: "refill ?env policy in_flight waiting (w, es) = (flying, queued, (w1, es @ starts))"
    by (simp add: refill_def Let_def foldl_connect_observed w1_def starts_def flying_def queued_def free_def)
  note unfolded = less.prems(1) [unfolded dial_loop.simps [of ?env policy in_flight waiting "(w, es)"] refill]
  show ?case
  proof (cases "flying = []")
    case True
    then have "waiting = []" "in_flight = []" using less.prems(2) by (auto simp: flying_def free_def)
    with unfolded True show ?thesis
      by (intro exI [of _ "[]"]) (auto simp: dials_ok_def all_below_def starts_def)
  next
    case False
    obtain i w2 where i: "be_next_dial env flying w1 = (i, w2)" by fastforce
    define j where "j = i mod length flying"
    obtain n w3 where n: "be_connected_peers env w2 = (n, w3)" by fastforce
    have j: "j < length flying" using False by (simp add: j_def)
    define now where "now = starts @ [DialFinished (flying ! j), SawConnected n]"
    note step = dials_ok_step [OF flying_def [unfolded free_def] queued_def [unfolded free_def] less.prems(2) j
        now_def [unfolded starts_def free_def]]
    show ?thesis
    proof (cases "connection_target policy \<le> n")
      case True
      with unfolded False i n have "reached" "es' = es @ (now @ [DialsDropped (remove_nth j flying)])"
        by (auto simp: observed_env_def recorded_eq Let_def now_def j_def)
      with step(1) [OF True] show ?thesis by auto
    next
      case more: False
      with unfolded False i n have rec: "dial_loop ?env policy (remove_nth j flying) queued (w3, es @ now) = (reached, (v, es'))"
        by (auto simp: observed_env_def recorded_eq Let_def now_def j_def)
      have dec: "length (remove_nth j flying) + length queued < length in_flight + length waiting"
        using j by (simp add: length_remove_nth) (simp add: flying_def queued_def)
      have "length flying \<le> max (bp_maximum_parallel_dials policy) 1"
        using less.prems(2) by (auto simp: flying_def free_def)
      then have "length (remove_nth j flying) \<le> max (bp_maximum_parallel_dials policy) 1"
        using length_remove_nth [OF j] by simp
      from less.hyps [OF dec rec this] obtain new where
        new: "es' = (es @ now) @ new" "dials_ok policy (remove_nth j flying) queued reached new" by auto
      from step(2) [OF _ new(2)] more new(1) show ?thesis by (intro exI [of _ "now @ new"]) simp
    qed
  qed
qed

section \<open>The abstract cycle\<close>

text \<open>
  The specification of one cycle, as the relation between what it did and its result. Each
  discovery answer is followed by the dials of its candidates; a source is asked only when
  the one before it did not suffice, and the node promotes itself only after all three.
\<close>

definition candidates_of :: "bootstrap_error + peer_candidate list \<Rightarrow> peer_candidate list" where
  "candidates_of found = (case found of Inl _ \<Rightarrow> [] | Inr peers \<Rightarrow> peers)"

definition visited :: "bootstrap_state \<Rightarrow> peer_candidate list \<Rightarrow> bootstrap_state list" where
  "visited source peers = source # (if peers = [] then [] else [Dialing])"

text \<open>All three sources were asked and all their candidates dialed, without success.\<close>

inductive isolated_run :: "bootstrap_policy \<Rightarrow> namespace \<Rightarrow> bootstrap_event list \<Rightarrow>
    bootstrap_state list \<Rightarrow> bool" for policy ns where
  isolated: "n < connection_target policy \<Longrightarrow> dials_ok policy [] (candidates_of c) False d1 \<Longrightarrow>
    dials_ok policy [] (candidates_of m) False d2 \<Longrightarrow> dials_ok policy [] (candidates_of r) False d3 \<Longrightarrow>
    isolated_run policy ns ([SawConnected n, DiscoveredCache ns c] @ d1 @ [DiscoveredNative ns m] @ d2 @
        [DiscoveredRegistry ns r] @ map AddVerified (candidates_of r) @ d3)
      (Start # visited CacheDiscovery (candidates_of c) @ visited NativeDiscovery (candidates_of m)
        @ visited ResurrectScan (candidates_of r) @ [Isolated])"

inductive cycle_spec :: "bootstrap_policy \<Rightarrow> namespace \<Rightarrow> bootstrap_event list \<Rightarrow>
    bootstrap_error + bootstrap_outcome \<Rightarrow> bool" for policy ns where
  at_start: "connection_target policy \<le> n \<Longrightarrow>
    cycle_spec policy ns [SawConnected n] (Inr (connected_outcome [Start, Connected] Start))"
| via_cache: "n < connection_target policy \<Longrightarrow> dials_ok policy [] (candidates_of c) True d1 \<Longrightarrow>
    cycle_spec policy ns ([SawConnected n, DiscoveredCache ns c] @ d1)
      (Inr (connected_outcome
        (Start # visited CacheDiscovery (candidates_of c) @ [CacheDiscovery, Connected]) CacheDiscovery))"
| via_native: "n < connection_target policy \<Longrightarrow> dials_ok policy [] (candidates_of c) False d1 \<Longrightarrow>
    dials_ok policy [] (candidates_of m) True d2 \<Longrightarrow>
    cycle_spec policy ns ([SawConnected n, DiscoveredCache ns c] @ d1 @ [DiscoveredNative ns m] @ d2)
      (Inr (connected_outcome
        (Start # visited CacheDiscovery (candidates_of c) @ visited NativeDiscovery (candidates_of m)
          @ [NativeDiscovery, Connected]) NativeDiscovery))"
| via_registry: "n < connection_target policy \<Longrightarrow> dials_ok policy [] (candidates_of c) False d1 \<Longrightarrow>
    dials_ok policy [] (candidates_of m) False d2 \<Longrightarrow> dials_ok policy [] (candidates_of r) True d3 \<Longrightarrow>
    cycle_spec policy ns ([SawConnected n, DiscoveredCache ns c] @ d1 @ [DiscoveredNative ns m] @ d2 @
        [DiscoveredRegistry ns r] @ map AddVerified (candidates_of r) @ d3)
      (Inr (connected_outcome
        (Start # visited CacheDiscovery (candidates_of c) @ visited NativeDiscovery (candidates_of m)
          @ visited ResurrectScan (candidates_of r) @ [ResurrectScan, Connected]) ResurrectScan))"
| not_eligible: "isolated_run policy ns es path \<Longrightarrow>
    cycle_spec policy ns (es @ [SawEligible False]) (Inr \<lparr> bo_state = Backoff,
      bo_connected_via = None, bo_announced = False, bo_transitions = path @ [Backoff] \<rparr>)"
| promoted: "isolated_run policy ns es path \<Longrightarrow>
    cycle_spec policy ns (es @ [SawEligible True, Announced (bp_reboot_ttl policy) (Inr ())])
      (Inr \<lparr> bo_state = Backoff, bo_connected_via = None, bo_announced = True,
         bo_transitions = path @ [AnnounceSelf, Backoff] \<rparr>)"
| promotion_failed: "isolated_run policy ns es path \<Longrightarrow>
    cycle_spec policy ns (es @ [SawEligible True, Announced (bp_reboot_ttl policy) (Inl e)]) (Inl e)"

lemma dial_found_events:
  assumes "dial_found (observed_env env) policy found ts source (w, es) = ((reached, ts'), (v, es'))"
  shows "\<exists>new. es' = es @ new \<and> dials_ok policy [] (candidates_of found) reached new \<and>
    ts' = ts @ tl (visited source (candidates_of found)) @ (if reached then [source, Connected] else [])"
proof (cases "candidates_of found = []")
  case True
  with assms have "reached = False" "es' = es" "ts' = ts"
    by (auto simp: dial_found_def dial_candidates_def candidates_of_def split: sum.splits)
  with True show ?thesis
    by (intro exI [of _ "[]"]) (simp add: visited_def dials_ok_def all_below_def)
next
  case False
  then obtain peers where f: "found = Inr peers" "peers \<noteq> []" "candidates_of found = peers"
    by (auto simp: candidates_of_def split: sum.splits)
  obtain b u es2 where run: "dial_loop (observed_env env) policy [] peers (w, es) = (b, (u, es2))"
    by (metis prod.collapse)
  from dial_loop_events [OF this] obtain new where "es2 = es @ new" "dials_ok policy [] peers b new" by auto
  with assms run f show ?thesis
    by (auto simp: dial_found_def dial_candidates_def visited_def split: bool.splits)
qed

lemma add_verified_observed:
  "add_verified_peers (observed_env env) found (w, es) =
     (add_verified_peers env found w, es @ map AddVerified (candidates_of found))"
proof -
  have "foldl (\<lambda>v peer. snd (be_add_verified_peer (observed_env env) peer v)) (w, es) ps =
      (foldl (\<lambda>v peer. snd (be_add_verified_peer env peer v)) w ps, es @ map AddVerified ps)" for ps
    by (induction ps arbitrary: w es) (simp_all add: observed_env_def recorded_eq)
  then show ?thesis by (simp add: add_verified_peers_def candidates_of_def split: sum.split)
qed

lemma promote_spec:
  assumes "promote (observed_env env) policy path (w, es) = (result, (v, es'))"
    and "isolated_run policy ns es path"
  shows "cycle_spec policy ns es' result"
  using assms cycle_spec.not_eligible [OF assms(2)] cycle_spec.promoted [OF assms(2)]
    cycle_spec.promotion_failed [OF assms(2)]
  by (auto simp: promote_def observed_env_def recorded_eq and_then_def succeed_def split: bool.splits sum.splits)

text \<open>One source asked: its candidates dialed, after the states passed so far.\<close>

lemma dialed_stage:
  obtains b v s where "dial_found (observed_env env) policy found (ts @ [source]) source (w, es) =
      ((b, ts @ visited source (candidates_of found) @ (if b then [source, Connected] else [])), (v, es @ s))"
    and "dials_ok policy [] (candidates_of found) b s"
proof -
  obtain b ts' v es' where run: "dial_found (observed_env env) policy found (ts @ [source]) source (w, es) =
      ((b, ts'), (v, es'))" by (metis prod.collapse)
  from dial_found_events [OF this] that run show thesis by (auto simp: visited_def)
qed

lemma run_cycle_spec:
  assumes "run_cycle (observed_env env) policy ns (w, []) = (result, (v, es))"
  shows "cycle_spec policy ns es result"
proof -
  let ?env = "observed_env env"
  obtain n w0 where n: "be_connected_peers ?env (w, []) = (n, (w0, [SawConnected n]))"
    by (simp add: observed_env_def recorded_eq)
  obtain c w1 where c: "be_cache_discover ?env ns (w0, [SawConnected n]) =
      (c, (w1, [SawConnected n, DiscoveredCache ns c]))"
    by (simp add: observed_env_def recorded_eq)
  let ?t1 = "[Start] @ visited CacheDiscovery (candidates_of c)"
  obtain b1 w2 s1 where d1: "dial_found ?env policy c ([Start] @ [CacheDiscovery]) CacheDiscovery
      (w1, [SawConnected n, DiscoveredCache ns c]) =
      ((b1, [Start] @ visited CacheDiscovery (candidates_of c) @ (if b1 then [CacheDiscovery, Connected] else [])),
       (w2, [SawConnected n, DiscoveredCache ns c] @ s1))" and s1: "dials_ok policy [] (candidates_of c) b1 s1"
    by (rule dialed_stage)
  let ?e2 = "[SawConnected n, DiscoveredCache ns c] @ s1"
  obtain m w3 where m: "be_native_discover ?env ns (w2, ?e2) = (m, (w3, ?e2 @ [DiscoveredNative ns m]))"
    by (simp add: observed_env_def recorded_eq)
  let ?t2 = "?t1 @ visited NativeDiscovery (candidates_of m)"
  obtain b2 w4 s2 where d2: "dial_found ?env policy m (?t1 @ [NativeDiscovery]) NativeDiscovery
      (w3, ?e2 @ [DiscoveredNative ns m]) =
      ((b2, ?t1 @ visited NativeDiscovery (candidates_of m) @ (if b2 then [NativeDiscovery, Connected] else [])),
       (w4, (?e2 @ [DiscoveredNative ns m]) @ s2))" and s2: "dials_ok policy [] (candidates_of m) b2 s2"
    by (rule dialed_stage)
  let ?e4 = "(?e2 @ [DiscoveredNative ns m]) @ s2"
  obtain r w5 where r: "be_registry_discover ?env ns (w4, ?e4) = (r, (w5, ?e4 @ [DiscoveredRegistry ns r]))"
    by (simp add: observed_env_def recorded_eq)
  let ?e5 = "(?e4 @ [DiscoveredRegistry ns r]) @ map AddVerified (candidates_of r)"
  obtain b3 w6 s3 where d3: "dial_found ?env policy r (?t2 @ [ResurrectScan]) ResurrectScan
      (add_verified_peers env r w5, ?e5) =
      ((b3, ?t2 @ visited ResurrectScan (candidates_of r) @ (if b3 then [ResurrectScan, Connected] else [])),
       (w6, ?e5 @ s3))" and s3: "dials_ok policy [] (candidates_of r) b3 s3"
    by (rule dialed_stage)
  note run = assms n c d1 m d2 r d3 add_verified_observed [of env r w5 "?e4 @ [DiscoveredRegistry ns r]"]
  consider "connection_target policy \<le> n" | "n < connection_target policy" "b1"
    | "n < connection_target policy" "\<not> b1" "b2" | "n < connection_target policy" "\<not> b1" "\<not> b2" "b3"
    | "n < connection_target policy" "\<not> b1" "\<not> b2" "\<not> b3" by linarith
  then show ?thesis
  proof cases
    case 1
    with run show ?thesis by (auto simp: run_cycle_def intro: cycle_spec.at_start)
  next
    case 2
    with run s1 cycle_spec.via_cache [OF 2(1), of c s1 ns] show ?thesis by (simp add: run_cycle_def)
  next
    case 3
    with run s1 s2 cycle_spec.via_native [OF 3(1), of c s1 m s2 ns] show ?thesis by (simp add: run_cycle_def)
  next
    case 4
    with run s1 s2 s3 cycle_spec.via_registry [OF 4(1), of c s1 m s2 r s3 ns] show ?thesis by (simp add: run_cycle_def)
  next
    case 5
    with run have "promote ?env policy (?t2 @ visited ResurrectScan (candidates_of r) @ [Isolated]) (w6, ?e5 @ s3) =
      (result, (v, es))" by (simp add: run_cycle_def)
    moreover have "isolated_run policy ns (?e5 @ s3) (?t2 @ visited ResurrectScan (candidates_of r) @ [Isolated])"
      using isolated_run.isolated [OF 5(1), of c s1 m s2 r s3] 5 s1 s2 s3 by simp
    ultimately show ?thesis by (rule promote_spec)
  qed
qed

section \<open>Properties of a cycle\<close>

inductive_cases isolated_runE: "isolated_run policy ns es path"

definition discoveries :: "bootstrap_event list \<Rightarrow> bootstrap_event list" where
  "discoveries = filter (\<lambda>e. case e of DiscoveredCache _ _ \<Rightarrow> True | DiscoveredNative _ _ \<Rightarrow> True
     | DiscoveredRegistry _ _ \<Rightarrow> True | _ \<Rightarrow> False)"

lemma dials_ok_quiet:
  assumes "dials_ok policy in_flight peers reached es"
  shows "discoveries es = []" and "Announced t r \<notin> set es"
  using assms by (auto simp: dials_ok_def dial_event_def discoveries_def filter_empty_conv
      split: bootstrap_event.splits)

lemma dials_ok_below: "dials_ok policy in_flight peers False es \<Longrightarrow> all_below (connection_target policy) es"
  by (simp add: dials_ok_def)

lemma dials_ok_saw: "dials_ok policy in_flight peers True es \<Longrightarrow> \<not> all_below (connection_target policy) es"
  by (auto simp: dials_ok_def all_below_def not_less)

lemma all_below_simps [simp]:
  "all_below t []"
  "all_below t (es @ fs) \<longleftrightarrow> all_below t es \<and> all_below t fs"
  "all_below t (SawConnected n # es) \<longleftrightarrow> n < t \<and> all_below t es"
  "all_below t (DiscoveredCache ns x # es) \<longleftrightarrow> all_below t es"
  "all_below t (DiscoveredNative ns x # es) \<longleftrightarrow> all_below t es"
  "all_below t (DiscoveredRegistry ns x # es) \<longleftrightarrow> all_below t es"
  "all_below t (SawEligible b # es) \<longleftrightarrow> all_below t es"
  "all_below t (Announced ttl r # es) \<longleftrightarrow> all_below t es"
  "all_below t (map AddVerified ps)"
  by (auto simp: all_below_def)

lemma discoveries_simps [simp]:
  "discoveries [] = []"
  "discoveries (es @ fs) = discoveries es @ discoveries fs"
  "discoveries (DiscoveredCache ns x # es) = DiscoveredCache ns x # discoveries es"
  "discoveries (DiscoveredNative ns x # es) = DiscoveredNative ns x # discoveries es"
  "discoveries (DiscoveredRegistry ns x # es) = DiscoveredRegistry ns x # discoveries es"
  "discoveries (SawConnected n # es) = discoveries es"
  "discoveries (SawEligible b # es) = discoveries es"
  "discoveries (Announced t r # es) = discoveries es"
  "discoveries (map AddVerified ps) = []"
  by (simp_all add: discoveries_def filter_map comp_def)

lemma verified_simps [simp]:
  "started (map AddVerified ps) = []" "finished (map AddVerified ps) = []"
  "in_flight_ok parallel n (map AddVerified ps)"
  by (induction ps) simp_all

lemma in_flight_ok_append:
  "in_flight_ok parallel n (es @ fs) \<longleftrightarrow> in_flight_ok parallel n es \<and>
     in_flight_ok parallel (n + length (started es) - length (finished es)) fs"
proof (induction es arbitrary: n)
  case (Cons e es)
  show ?case by (cases e; cases n) (simp_all add: Cons.IH)
qed simp

lemma dials_ok_settled:
  assumes "dials_ok policy [] peers False es"
  shows "started es = peers" and "mset (finished es) = mset peers"
    and "length (finished es) = length peers"
proof -
  show "started es = peers" and m: "mset (finished es) = mset peers"
    using assms by (simp_all add: dials_ok_def)
  from m show "length (finished es) = length peers" by (rule mset_eq_length)
qed

lemma dials_ok_flight: "dials_ok policy [] peers reached es \<Longrightarrow>
    in_flight_ok (max (bp_maximum_parallel_dials policy) 1) 0 es"
  by (simp add: dials_ok_def)

definition timely :: "bootstrap_policy \<Rightarrow> bootstrap_event list \<Rightarrow> bool" where
  "timely policy es \<longleftrightarrow> (\<forall>peer t. DialStarted peer t \<in> set es \<longrightarrow> t = bp_per_dial_timeout policy)"

lemma timely_append [simp]: "timely policy (es @ fs) \<longleftrightarrow> timely policy es \<and> timely policy fs"
  by (auto simp: timely_def)

lemma timely_quiet [simp]:
  "timely policy []" "timely policy (map AddVerified ps)"
  "timely policy (SawConnected n # es) \<longleftrightarrow> timely policy es"
  "timely policy (DiscoveredCache ns c # es) \<longleftrightarrow> timely policy es"
  "timely policy (DiscoveredNative ns c # es) \<longleftrightarrow> timely policy es"
  "timely policy (DiscoveredRegistry ns c # es) \<longleftrightarrow> timely policy es"
  "timely policy (SawEligible b # es) \<longleftrightarrow> timely policy es"
  "timely policy (Announced ttl a # es) \<longleftrightarrow> timely policy es"
  by (auto simp: timely_def)

lemma dials_ok_timely: "dials_ok policy in_flight peers reached es \<Longrightarrow> timely policy es"
  by (force simp: dials_ok_def timely_def dial_event_def)

lemma failed_stage:
  assumes "dials_ok policy [] peers False es"
  shows "discoveries es = [] \<and> (\<forall>t r. Announced t r \<notin> set es) \<and> timely policy es \<and>
    all_below (connection_target policy) es \<and> started es = peers \<and> mset (finished es) = mset peers \<and>
    length (finished es) = length peers \<and> in_flight_ok (max (bp_maximum_parallel_dials policy) 1) 0 es"
  using dials_ok_quiet [OF assms] dials_ok_below [OF assms] dials_ok_settled [OF assms]
    dials_ok_flight [OF assms] dials_ok_timely [OF assms] by auto

lemma reached_stage:
  assumes "dials_ok policy [] peers True es"
  shows "discoveries es = [] \<and> (\<forall>t r. Announced t r \<notin> set es) \<and> timely policy es \<and>
    in_flight_ok (max (bp_maximum_parallel_dials policy) 1) 0 es \<and>
    started es @ drop (length (started es)) peers = peers"
proof -
  have "started es = take (length (started es)) peers" using assms by (simp add: dials_ok_def)
  then have "started es @ drop (length (started es)) peers = peers" by (metis append_take_drop_id)
  with dials_ok_quiet [OF assms] dials_ok_flight [OF assms] dials_ok_timely [OF assms] show ?thesis by auto
qed

lemma isolated_facts:
  assumes "isolated_run policy ns es path"
  shows "all_below (connection_target policy) es"
    and "\<exists>c m r. discoveries es = [DiscoveredCache ns c, DiscoveredNative ns m, DiscoveredRegistry ns r] \<and>
      started es = candidates_of c @ candidates_of m @ candidates_of r \<and>
      mset (finished es) = mset (candidates_of c @ candidates_of m @ candidates_of r)"
    and "in_flight_ok (max (bp_maximum_parallel_dials policy) 1) 0 es"
    and "Announced t a \<notin> set es" and "timely policy es"
proof -
  from assms obtain n c d1 m d2 r d3 where es: "es = [SawConnected n, DiscoveredCache ns c] @ d1 @
        [DiscoveredNative ns m] @ d2 @ [DiscoveredRegistry ns r] @ map AddVerified (candidates_of r) @ d3"
      and n: "n < connection_target policy"
      and d: "dials_ok policy [] (candidates_of c) False d1" "dials_ok policy [] (candidates_of m) False d2"
        "dials_ok policy [] (candidates_of r) False d3" by cases
  note f = failed_stage [OF d(1)] failed_stage [OF d(2)] failed_stage [OF d(3)]
  show "all_below (connection_target policy) es" using f n by (simp add: es)
  have "discoveries es = [DiscoveredCache ns c, DiscoveredNative ns m, DiscoveredRegistry ns r] \<and>
      started es = candidates_of c @ candidates_of m @ candidates_of r \<and>
      mset (finished es) = mset (candidates_of c @ candidates_of m @ candidates_of r)"
    using f by (simp add: es)
  then show "\<exists>c m r. discoveries es = [DiscoveredCache ns c, DiscoveredNative ns m, DiscoveredRegistry ns r] \<and>
      started es = candidates_of c @ candidates_of m @ candidates_of r \<and>
      mset (finished es) = mset (candidates_of c @ candidates_of m @ candidates_of r)" by blast
  show "in_flight_ok (max (bp_maximum_parallel_dials policy) 1) 0 es"
    using f by (simp add: es in_flight_ok_append)
  show "Announced t a \<notin> set es" using f by (auto simp: es)
  show "timely policy es" using f by (simp add: es)
qed

text \<open>
  C4: refinement. Whatever the sources, the dialer, the publisher and the runtime's choice of
  completing dials do, a cycle's effects and result are those of the abstract specification
  \<open>cycle_spec\<close>: it returns, having asked cache, native discovery and registry in this order, each
  only if the ones before did not reach the target, dialed their candidates in order, fed
  the registry's verified candidates to native discovery before dialing them, and
  reported exactly the transitions of the path taken.
\<close>

theorem run_cycle_refines:
  "cycle_spec policy ns (snd (snd (run_cycle (observed_env env) policy ns (w, []))))
     (fst (run_cycle (observed_env env) policy ns (w, [])))"
  by (rule run_cycle_spec [of env policy ns w _ "fst (snd (run_cycle (observed_env env) policy ns (w, [])))"])
    simp

text \<open>
  C16: the outcome is truthful: it is Connected exactly when the connector was observed with at
  least the target number of peers (a target of zero counts as one), and the cycle stops at
  that observation: nothing follows it but the dropping of dials in flight; every
  other outcome is Backoff. The path ends in the reported state, and only a Backoff outcome
  can have announced.
\<close>

theorem cycle_outcome_truthful:
  assumes "run_cycle (observed_env env) policy ns (w, []) = (Inr outcome, (v, events))"
  shows "(bo_state outcome = Connected \<longleftrightarrow>
       (\<exists>n. SawConnected n \<in> set events \<and> connection_target policy \<le> n)) \<and>
     (bo_state outcome = Connected \<or> bo_state outcome = Backoff) \<and>
     (bo_connected_via outcome = None \<longleftrightarrow> bo_state outcome = Backoff) \<and>
     last (bo_transitions outcome) = bo_state outcome \<and>
     (bo_announced outcome \<longrightarrow> bo_state outcome = Backoff) \<and>
     0 < connection_target policy"
proof -
  have pos: "0 < connection_target policy" by (simp add: connection_target_def)
  have saw: "(\<exists>n. SawConnected n \<in> set events \<and> connection_target policy \<le> n) \<longleftrightarrow>
      \<not> all_below (connection_target policy) events"
    by (auto simp: all_below_def not_less)
  from run_cycle_spec [OF assms] show ?thesis unfolding saw using pos
    by cases (auto simp: connected_outcome_def dest: dials_ok_saw isolated_facts(1))
qed

text \<open>
  C17: promotion is the last resort. If a cycle announces, it does so once, as its last act, with
  the reboot lifetime, having been found eligible, after all three sources were asked and
  every one of their candidates was dialed to completion without the target ever being
  observed. The only error a cycle can return is that of this announcement.
\<close>

theorem cycle_promotes_last:
  assumes "run_cycle (observed_env env) policy ns (w, []) = (result, (v, events))"
  shows "(Announced ttl answer \<in> set events \<longrightarrow>
       ttl = bp_reboot_ttl policy \<and>
       (\<exists>before c m r. events = before @ [SawEligible True, Announced ttl answer] \<and>
          (\<forall>t a. Announced t a \<notin> set before) \<and>
          all_below (connection_target policy) before \<and>
          discoveries before = [DiscoveredCache ns c, DiscoveredNative ns m, DiscoveredRegistry ns r] \<and>
          mset (finished before) = mset (candidates_of c @ candidates_of m @ candidates_of r))) \<and>
     (\<forall>e. result = Inl e \<longrightarrow> last events = Announced (bp_reboot_ttl policy) (Inl e))"
  using run_cycle_spec [OF assms]
proof cases
  case (not_eligible es path)
  then show ?thesis using isolated_facts(4) by auto
next
  case (promoted es path)
  then show ?thesis using isolated_facts [OF promoted(3)] by auto
next
  case (promotion_failed es path e)
  then show ?thesis using isolated_facts [OF promotion_failed(3)] by auto
qed (auto dest: dials_ok_quiet)

lemma cycle_work:
  assumes "cycle_spec policy ns events result"
  shows "in_flight_ok (max (bp_maximum_parallel_dials policy) 1) 0 events \<and> timely policy events \<and>
    (\<exists>c m r rest. set (discoveries events) \<subseteq>
         {DiscoveredCache ns c, DiscoveredNative ns m, DiscoveredRegistry ns r} \<and>
       started events @ rest = candidates_of c @ candidates_of m @ candidates_of r)"
  using assms
proof cases
  case (at_start n)
  then show ?thesis by (auto simp: candidates_of_def)
next
  case (via_cache n c d1)
  with reached_stage [OF via_cache(4)] show ?thesis
    by (intro conjI exI [of _ c] exI [of _ "Inr []"] exI [of _ "drop (length (started d1)) (candidates_of c)"])
      (simp_all add: candidates_of_def in_flight_ok_append)
next
  case (via_native n c d1 m d2)
  with failed_stage [OF via_native(4)] reached_stage [OF via_native(5)] show ?thesis
    by (intro conjI exI [of _ c] exI [of _ m] exI [of _ "Inr []"]
        exI [of _ "drop (length (started d2)) (candidates_of m)"])
      (simp_all add: candidates_of_def in_flight_ok_append)
next
  case (via_registry n c d1 m d2 r d3)
  with failed_stage [OF via_registry(4)] failed_stage [OF via_registry(5)] reached_stage [OF via_registry(6)]
  show ?thesis
    by (intro conjI exI [of _ c] exI [of _ m] exI [of _ r]
        exI [of _ "drop (length (started d3)) (candidates_of r)"])
      (simp_all add: in_flight_ok_append)
next
  case (not_eligible es path)
  with isolated_facts [OF not_eligible(3)] show ?thesis
    by (auto simp: in_flight_ok_append intro: exI [of _ "[]"])
next
  case (promoted es path)
  with isolated_facts [OF promoted(3)] show ?thesis
    by (auto simp: in_flight_ok_append intro: exI [of _ "[]"])
next
  case (promotion_failed es path e)
  with isolated_facts [OF promotion_failed(3)] show ?thesis
    by (auto simp: in_flight_ok_append intro: exI [of _ "[]"])
qed

text \<open>
  C18: bounded work. At no moment of a cycle are more dials in flight than the policy allows (at
  least one), every dial uses the policy's timeout, and the dialed peers are, in order, a prefix of the
  candidates the sources returned; when the node already has its target number of peers, the
  cycle does nothing but look.
\<close>

theorem cycle_bounded_work:
  assumes "run_cycle (observed_env env) policy ns (w, []) = (result, (v, events))"
  shows "in_flight_ok (max (bp_maximum_parallel_dials policy) 1) 0 events \<and>
    (\<forall>peer t. DialStarted peer t \<in> set events \<longrightarrow> t = bp_per_dial_timeout policy) \<and>
    (\<exists>c m r rest. set (discoveries events) \<subseteq>
         {DiscoveredCache ns c, DiscoveredNative ns m, DiscoveredRegistry ns r} \<and>
       started events @ rest = candidates_of c @ candidates_of m @ candidates_of r) \<and>
    (connection_target policy \<le> fst (be_connected_peers env w) \<longrightarrow>
       events = [SawConnected (fst (be_connected_peers env w))])"
proof -
  have "connection_target policy \<le> fst (be_connected_peers env w) \<longrightarrow>
       events = [SawConnected (fst (be_connected_peers env w))]"
    using assms by (auto simp: run_cycle_def observed_env_def recorded_eq)
  with cycle_work [OF run_cycle_spec [OF assms]] show ?thesis
    unfolding timely_def by blast
qed

section \<open>Instances\<close>

text \<open>
  The doubles of the source's tests: a source answers its peers or fails, the connector
  connects or not at once, the publisher records that it announced.
\<close>

record test_world =
  tw_connected :: nat
  tw_added :: "bytes list"
  tw_announced :: bool

definition test_source :: "peer_candidate list \<Rightarrow> bool \<Rightarrow> (test_world, bootstrap_error, peer_candidate list) proc" where
  "test_source peers fails = (if fails then fail (Discovery ''expected'') else succeed peers)"

definition test_env :: "bool \<Rightarrow> peer_candidate list \<Rightarrow> bool \<Rightarrow> bool \<Rightarrow> test_world bootstrap_env" where
  "test_env cache_fails registry_peers connects eligible =
     \<lparr> be_cache_discover = (\<lambda>_. test_source [] cache_fails),
       be_native_discover = (\<lambda>_. test_source [] False),
       be_add_verified_peer = (\<lambda>peer w. (Inr (), w\<lparr> tw_added := tw_added w @ [pc_peer_id peer] \<rparr>)),
       be_registry_discover = (\<lambda>_. test_source registry_peers False),
       be_connected_peers = (\<lambda>w. (tw_connected w, w)),
       be_connect = (\<lambda>_ _ w. w),
       be_next_dial = (\<lambda>_ w. (0, if connects then w\<lparr> tw_connected := tw_connected w + 1 \<rparr> else w)),
       be_drop_dials = (\<lambda>_ w. w),
       be_eligible = (\<lambda>w. (eligible, w)),
       be_renewal_due = (\<lambda>w. (False, w)),
       be_announce = (\<lambda>_ w. (Inr (), w\<lparr> tw_announced := True \<rparr>)) \<rparr>"

definition test_policy :: bootstrap_policy where
  "test_policy = default_bootstrap_policy\<lparr> bp_minimum_successful_peers := 1, bp_per_dial_timeout := 10000000 \<rparr>"

definition test_peer :: peer_candidate where
  "test_peer = \<lparr> pc_record_type = 2, pc_peer_id = [1], pc_sequence = 1,
     pc_endpoints = [\<lparr> ep_address = ''/ip4/127.0.0.1/tcp/4001'' \<rparr>], pc_raw_signed_record = [1],
     pc_expires_at = - 1, pc_source = ResurrectRegistry, pc_announcement_block = None,
     pc_announcement_log_index = None \<rparr>"

definition test_start :: test_world where
  "test_start = \<lparr> tw_connected = 0, tw_added = [], tw_announced = False \<rparr>"

lemma test_peer_id: "pc_peer_id test_peer = [1]"
  by (simp add: test_peer_def)

lemma test_registry_run:
  "run_cycle (observed_env (test_env True [test_peer] True True)) test_policy (Namespace 0) (test_start, []) =
   (Inr \<lparr> bo_state = Connected, bo_connected_via = Some ResurrectScan, bo_announced = False,
      bo_transitions = [Start, CacheDiscovery, NativeDiscovery, ResurrectScan, Dialing, ResurrectScan, Connected] \<rparr>,
    (\<lparr> tw_connected = 1, tw_added = [[1]], tw_announced = False \<rparr>,
     [SawConnected 0, DiscoveredCache (Namespace 0) (Inl (Discovery ''expected'')),
      DiscoveredNative (Namespace 0) (Inr []), DiscoveredRegistry (Namespace 0) (Inr [test_peer]),
      AddVerified test_peer, DialStarted test_peer 10000000, DialFinished test_peer, SawConnected 1, DialsDropped []]))"
  by (simp add: run_cycle_def test_env_def test_source_def observed_env_def recorded_def succeed_def fail_def
      dial_found_def dial_candidates_def dial_loop.simps refill_def remove_nth_def add_verified_peers_def
      promote_def and_then_def connection_target_def connected_outcome_def test_policy_def test_start_def
      default_bootstrap_policy_def from_secs_def Let_def test_peer_id)

lemma test_isolated_run:
  "run_cycle (observed_env (test_env False [] False True)) test_policy (Namespace 0) (test_start, []) =
   (Inr \<lparr> bo_state = Backoff, bo_connected_via = None, bo_announced = True,
      bo_transitions = [Start, CacheDiscovery, NativeDiscovery, ResurrectScan, Isolated, AnnounceSelf, Backoff] \<rparr>,
    (\<lparr> tw_connected = 0, tw_added = [], tw_announced = True \<rparr>,
     [SawConnected 0, DiscoveredCache (Namespace 0) (Inr []), DiscoveredNative (Namespace 0) (Inr []),
      DiscoveredRegistry (Namespace 0) (Inr []), SawEligible True, Announced 604800000000000 (Inr ())]))"
  by (simp add: run_cycle_def test_env_def test_source_def observed_env_def recorded_def succeed_def fail_def
      dial_found_def dial_candidates_def dial_loop.simps refill_def remove_nth_def add_verified_peers_def
      promote_def and_then_def connection_target_def connected_outcome_def test_policy_def test_start_def
      default_bootstrap_policy_def from_secs_def Let_def test_peer_id)

theorem cycle_outcome_truthful_witness:
  "\<exists>outcome v events. run_cycle (observed_env (test_env True [test_peer] True True)) test_policy
      (Namespace 0) (test_start, []) = (Inr outcome, (v, events)) \<and> bo_state outcome = Connected \<and>
     (\<exists>n. SawConnected n \<in> set events \<and> connection_target test_policy \<le> n)"
  using cycle_outcome_truthful [OF test_registry_run] test_registry_run by simp

theorem cycle_promotes_last_witness:
  "\<exists>before. [SawConnected 0, DiscoveredCache (Namespace 0) (Inr []), DiscoveredNative (Namespace 0) (Inr []),
      DiscoveredRegistry (Namespace 0) (Inr []), SawEligible True, Announced 604800000000000 (Inr ())] =
     before @ [SawEligible True, Announced (bp_reboot_ttl test_policy) (Inr ())] \<and>
     all_below (connection_target test_policy) before"
proof -
  have "Announced 604800000000000 (Inr ()) \<in> set [SawConnected 0, DiscoveredCache (Namespace 0) (Inr []),
      DiscoveredNative (Namespace 0) (Inr []), DiscoveredRegistry (Namespace 0) (Inr []),
      SawEligible True, Announced 604800000000000 (Inr ())]" by simp
  with cycle_promotes_last [OF test_isolated_run, of 604800000000000 "Inr ()"] show ?thesis by metis
qed

theorem cycle_bounded_work_witness:
  "in_flight_ok (max (bp_maximum_parallel_dials test_policy) 1) 0
     [SawConnected 0, DiscoveredCache (Namespace 0) (Inl (Discovery ''expected'')),
      DiscoveredNative (Namespace 0) (Inr []), DiscoveredRegistry (Namespace 0) (Inr [test_peer]),
      AddVerified test_peer, DialStarted test_peer 10000000, DialFinished test_peer, SawConnected 1, DialsDropped []]"
  using cycle_bounded_work [OF test_registry_run] by (rule conjunct1)

end
