(* ===== verification/Node_Cache.thy ===== *)
theory Node_Cache
  imports Eth_Scan_Chain Bootstrap
begin

text \<open>
  \<open>crates/resurrect-node/src/cache.rs\<close>: the disposable cache of verified records. The database
  is the list of its rows; each SQL statement of the source is a function on it. Failures of
  the disk, the database and its task are faults around these; the system clock is an argument.
\<close>

section \<open>The database\<close>

record cache_row =
  cr_namespace :: b256
  cr_record_type :: int
  cr_peer_id :: bytes
  cr_sequence :: int
  cr_raw_signed_record :: bytes
  cr_expires_at :: int
  cr_announcement_block :: "int option"
  cr_announcement_log_index :: "int option"

type_synonym cache_db = "cache_row list"

datatype cache_error =
    CacheIo string | CacheSqlite string | CacheTask string | Clock
  | NumericOverflow string | InvalidRow string

fun cache_error_text :: "cache_error \<Rightarrow> string" where
  "cache_error_text (CacheIo e) = ''cache filesystem operation failed: '' @ e"
| "cache_error_text (CacheSqlite e) = ''cache SQLite operation failed: '' @ e"
| "cache_error_text (CacheTask e) = ''cache task failed: '' @ e"
| "cache_error_text Clock = ''system clock predates the Unix epoch''"
| "cache_error_text (NumericOverflow field) = ''cache field '' @ field @ '' exceeds SQLite integer range''"
| "cache_error_text (InvalidRow field) = ''cache row contains invalid '' @ field"

definition row_key :: "cache_row \<Rightarrow> b256 \<times> int \<times> bytes" where
  "row_key row = (cr_namespace row, cr_record_type row, cr_peer_id row)"

text \<open>\<open>CREATE TABLE IF NOT EXISTS\<close>.\<close>

definition initialize :: "cache_db option \<Rightarrow> cache_db" where
  "initialize db = (case db of None \<Rightarrow> [] | Some rows \<Rightarrow> rows)"

definition to_i64 :: "u64 \<Rightarrow> string \<Rightarrow> cache_error + int" where
  "to_i64 v field = (if unat v < 2 ^ 63 then Inr (uint v) else Inl (NumericOverflow field))"

definition to_i64_option :: "u64 option \<Rightarrow> string \<Rightarrow> cache_error + int option" where
  "to_i64_option v field =
     (case v of None \<Rightarrow> Inr None | Some x \<Rightarrow> res_bind (to_i64 x field) (\<lambda>y. Inr (Some y)))"

definition optional_u64 :: "int option \<Rightarrow> string \<Rightarrow> cache_error + u64 option" where
  "optional_u64 v field =
     (case v of None \<Rightarrow> Inr None
      | Some x \<Rightarrow> if x < 0 then Inl (InvalidRow field) else Inr (Some (word_of_int x)))"

section \<open>Storing\<close>

definition coalesce0 :: "int option \<Rightarrow> int" where
  "coalesce0 v = (case v of None \<Rightarrow> 0 | Some x \<Rightarrow> x)"

text \<open>The \<open>WHERE\<close> clause of the upsert: whether the new row replaces the old one.\<close>

definition supersedes :: "cache_row \<Rightarrow> cache_row \<Rightarrow> bool" where
  "supersedes excluded existing \<longleftrightarrow>
     cr_sequence existing < cr_sequence excluded \<or>
     cr_sequence excluded = cr_sequence existing \<and>
     coalesce0 (cr_announcement_block existing) \<le> coalesce0 (cr_announcement_block excluded)"

text \<open>\<open>INSERT ... ON CONFLICT(namespace, record_type, peer_id) DO UPDATE ... WHERE\<close>.\<close>

fun upsert :: "cache_row \<Rightarrow> cache_db \<Rightarrow> cache_db" where
  "upsert row [] = [row]"
| "upsert row (r # rs) =
     (if row_key r = row_key row then (if supersedes row r then row # rs else r # rs)
      else r # upsert row rs)"

definition candidate_row :: "b256 \<Rightarrow> peer_candidate \<Rightarrow> cache_error + cache_row" where
  "candidate_row ns candidate =
     res_bind (to_i64 (pc_sequence candidate) ''sequence'') (\<lambda>sequence.
     res_bind (to_i64 (pc_expires_at candidate) ''expires_at'') (\<lambda>expires_at.
     res_bind (to_i64_option (pc_announcement_block candidate) ''announcement_block'') (\<lambda>block.
     res_bind (to_i64_option (pc_announcement_log_index candidate) ''announcement_log_index'') (\<lambda>log_index.
     Inr \<lparr> cr_namespace = ns, cr_record_type = uint (pc_record_type candidate),
       cr_peer_id = pc_peer_id candidate, cr_sequence = sequence,
       cr_raw_signed_record = pc_raw_signed_record candidate, cr_expires_at = expires_at,
       cr_announcement_block = block, cr_announcement_log_index = log_index \<rparr>))))"

text \<open>The loop of \<open>store\<close> inside its transaction.\<close>

fun store_rows :: "b256 \<Rightarrow> peer_candidate list \<Rightarrow> cache_db \<Rightarrow> cache_error + cache_db" where
  "store_rows ns [] db = Inr db"
| "store_rows ns (c # cs) db =
     res_bind (candidate_row ns c) (\<lambda>row. store_rows ns cs (upsert row db))"

text \<open>Dropping the uncommitted transaction on an error rolls it back.\<close>

definition store_verified :: "namespace \<Rightarrow> peer_candidate list \<Rightarrow> (cache_db, cache_error, unit) proc" where
  "store_verified ns candidates db =
     (case ns of Namespace w \<Rightarrow>
      case store_rows w candidates db of
        Inl error \<Rightarrow> (Inl error, db)
      | Inr db' \<Rightarrow> (Inr (), db'))"

section \<open>Loading\<close>

record cached_row =
  cd_record_type :: u32
  cd_raw_signed_record :: bytes
  cd_expires_at :: u64
  cd_block_number :: "u64 option"
  cd_log_index :: "u64 option"

definition read_row :: "cache_row \<Rightarrow> cache_error + cached_row" where
  "read_row row =
     res_bind (if 0 \<le> cr_record_type row \<and> cr_record_type row < 2 ^ 32
               then Inr (word_of_int (cr_record_type row)) else Inl (InvalidRow ''record_type''))
       (\<lambda>record_type.
     res_bind (if 0 \<le> cr_expires_at row then Inr (word_of_int (cr_expires_at row))
               else Inl (InvalidRow ''expires_at'')) (\<lambda>expires_at.
     res_bind (optional_u64 (cr_announcement_block row) ''announcement_block'') (\<lambda>block_number.
     res_bind (optional_u64 (cr_announcement_log_index row) ''announcement_log_index'') (\<lambda>log_index.
     Inr \<lparr> cd_record_type = record_type, cd_raw_signed_record = cr_raw_signed_record row,
       cd_expires_at = expires_at, cd_block_number = block_number, cd_log_index = log_index \<rparr>))))"

text \<open>\<open>ORDER BY sequence DESC, announcement_block DESC\<close>, nulls last.\<close>

definition load_rows :: "b256 \<Rightarrow> cache_db \<Rightarrow> cache_error + cached_row list" where
  "load_rows ns db =
     traverse read_row
       (sort_key (\<lambda>row. - cr_sequence row)
         (sort_key (\<lambda>row. case cr_announcement_block row of None \<Rightarrow> 2 ^ 63 | Some b \<Rightarrow> - b)
           (filter (\<lambda>row. cr_namespace row = ns) db)))"

record cache_config =
  ch_codecs :: codec_registry
  ch_accepted_record_types :: "u32 list"
  ch_dial_context :: dial_context
  ch_max_candidates :: nat

definition row_announcement :: "namespace \<Rightarrow> cached_row \<Rightarrow> announcement" where
  "row_announcement ns row =
     \<lparr> an_namespace = ns, an_record_type = cd_record_type row, an_valid_until = cd_expires_at row,
       an_peer_record = cd_raw_signed_record row, an_block_number = opt_default (cd_block_number row),
       an_log_index = opt_default (cd_log_index row), an_block_hash = None \<rparr>"

definition cache_policy :: "cache_config \<Rightarrow> namespace \<Rightarrow> u64 \<Rightarrow> announcement_policy" where
  "cache_policy cache ns now =
     \<lparr> ap_expected_namespace = ns, ap_accepted_record_types = ch_accepted_record_types cache,
       ap_chain_time = now, ap_max_record_bytes = DEFAULT_MAX_RECORD_BYTES,
       ap_max_endpoints = DEFAULT_MAX_ENDPOINTS_PER_RECORD, ap_dial_context = ch_dial_context cache \<rparr>"

text \<open>The loop over the rows: revalidate, mark, insert.\<close>

primrec load_loop ::
  "(bytes \<Rightarrow> b256) \<Rightarrow> cache_config \<Rightarrow> namespace \<Rightarrow> u64 \<Rightarrow> cached_row list \<Rightarrow> candidate_store \<Rightarrow> candidate_store"
where
  "load_loop keccak cache ns now [] store = store"
| "load_loop keccak cache ns now (row # rows) store =
     (case validate_announcement (ch_codecs cache) (row_announcement ns row) (cache_policy cache ns now) of
        Inr candidate \<Rightarrow>
          load_loop keccak cache ns now rows
            (fst (store_insert keccak store (candidate\<lparr> pc_source := LocalCache \<rparr>)))
      | Inl _ \<Rightarrow> load_loop keccak cache ns now rows store)"

definition load ::
  "(bytes \<Rightarrow> b256) \<Rightarrow> cache_config \<Rightarrow> (cache_error + u64) \<Rightarrow> namespace \<Rightarrow> cache_db \<Rightarrow>
   cache_error + peer_candidate list"
where
  "load keccak cache clock ns db =
     (case ns of Namespace w \<Rightarrow>
      res_bind (load_rows w db) (\<lambda>rows.
      res_bind clock (\<lambda>now.
      Inr (store_ranked keccak (load_loop keccak cache ns now rows
        (store_new \<lparr> csc_max_candidates = ch_max_candidates cache, csc_sampling_seed = w \<rparr>))))))"

definition cache_discover ::
  "(bytes \<Rightarrow> b256) \<Rightarrow> cache_config \<Rightarrow> (cache_error \<Rightarrow> string) \<Rightarrow> (cache_error + u64) \<Rightarrow> namespace \<Rightarrow>
   (cache_db, bootstrap_error, peer_candidate list) proc"
where
  "cache_discover keccak cache error_text clock ns db =
     (map_err (\<lambda>e. Discovery (error_text e)) (load keccak cache clock ns db), db)"

definition open_cache :: "codec_registry \<Rightarrow> u32 list \<Rightarrow> dial_context \<Rightarrow> nat \<Rightarrow> cache_config" where
  "open_cache codecs accepted_record_types ctx max_candidates =
     \<lparr> ch_codecs = codecs, ch_accepted_record_types = accepted_record_types,
       ch_dial_context = ctx, ch_max_candidates = max max_candidates 1 \<rparr>"

definition prune_expired :: "(cache_error + u64) \<Rightarrow> (cache_db, cache_error, nat) proc" where
  "prune_expired clock db =
     (case res_bind clock (\<lambda>now. to_i64 now ''time'') of
        Inl error \<Rightarrow> (Inl error, db)
      | Inr now \<Rightarrow>
          let kept = filter (\<lambda>row. \<not> cr_expires_at row \<le> now) db in (Inr (length kept), kept))"

definition cache_unix_time :: "duration option \<Rightarrow> cache_error + u64" where
  "cache_unix_time clock = (case clock of None \<Rightarrow> Inl Clock | Some d \<Rightarrow> Inr (as_secs d))"

text \<open>
  The operations above are what the statements do when the database and the blocking task work.
  A fault, if there is one, keeps the operation from happening, or only its success from being
  reported.
\<close>

type_synonym database_fault = "(bool \<times> cache_error) option"

definition on_database :: "database_fault \<Rightarrow> ('w, cache_error, 'a) proc \<Rightarrow> ('w, cache_error, 'a) proc" where
  "on_database fault m w =
     (case fault of
        None \<Rightarrow> m w
      | Some (False, e) \<Rightarrow> (Inl e, w)
      | Some (True, e) \<Rightarrow> (case m w of (Inl e', v) \<Rightarrow> (Inl e', v) | (Inr _, v) \<Rightarrow> (Inl e, v)))"

section \<open>The primary key\<close>

definition cache_ok :: "cache_db \<Rightarrow> bool" where
  "cache_ok db \<longleftrightarrow> distinct (map row_key db)"

definition row_of :: "cache_db \<Rightarrow> b256 \<times> int \<times> bytes \<Rightarrow> cache_row option" where
  "row_of db k = find (\<lambda>r. row_key r = k) db"

lemma row_of_simps [simp]:
  "row_of [] k = None" "row_of (r # rs) k = (if row_key r = k then Some r else row_of rs k)"
  by (simp_all add: row_of_def)

lemma keys_upsert: "set (map row_key (upsert row db)) = insert (row_key row) (set (map row_key db))"
  by (induction db) auto

lemma upsert_ok: "cache_ok db \<Longrightarrow> cache_ok (upsert row db)"
proof (induction db)
  case (Cons r rs)
  then show ?case using keys_upsert [of row rs] by (auto simp: cache_ok_def)
qed (simp add: cache_ok_def)

lemma row_of_upsert:
  "row_of (upsert row db) k =
     (if k = row_key row
      then (case row_of db k of None \<Rightarrow> Some row | Some old \<Rightarrow> Some (if supersedes row old then row else old))
      else row_of db k)"
  by (induction db) auto

lemma store_rows_ok: "store_rows ns cs db = Inr db' \<Longrightarrow> cache_ok db \<Longrightarrow> cache_ok db'"
  by (induction cs arbitrary: db) (auto simp: res_bind_Inr_iff upsert_ok)

lemma to_i64_Inr_iff: "to_i64 v f = Inr x \<longleftrightarrow> unat v < 2 ^ 63 \<and> x = uint v"
  by (auto simp: to_i64_def)

text \<open>A candidate fits the database when all its numbers fit signed 64-bit columns.\<close>

definition fits :: "peer_candidate \<Rightarrow> bool" where
  "fits c \<longleftrightarrow> unat (pc_sequence c) < 2 ^ 63 \<and> unat (pc_expires_at c) < 2 ^ 63 \<and>
     unat (opt_default (pc_announcement_block c)) < 2 ^ 63 \<and>
     unat (opt_default (pc_announcement_log_index c)) < 2 ^ 63"

lemma candidate_row_fits: "(\<exists>row. candidate_row ns c = Inr row) \<longleftrightarrow> fits c"
  by (auto simp: candidate_row_def fits_def res_bind_Inr_iff to_i64_Inr_iff to_i64_option_def
      opt_default_def split: option.splits)

lemma store_rows_fits: "(\<exists>db'. store_rows ns cs db = Inr db') \<longleftrightarrow> (\<forall>c \<in> set cs. fits c)"
proof (induction cs arbitrary: db)
  case (Cons c cs)
  show ?case
  proof (cases "fits c")
    case True
    then obtain row where "candidate_row ns c = Inr row" using candidate_row_fits by blast
    with True Cons.IH show ?thesis by simp
  next
    case False
    then obtain e where "candidate_row ns c = Inl e" using candidate_row_fits [of ns c] by (cases "candidate_row ns c") auto
    with False show ?thesis by simp
  qed
qed simp

text \<open>
  C25: storing a batch is atomic and keeps the primary key: it succeeds exactly when every
  number of every candidate fits a signed 64-bit column, and otherwise leaves the database
  as it was, so a single candidate with an oversized sequence number keeps the whole
  scan out of the cache.
\<close>

theorem store_verified_atomic:
  assumes "cache_ok db"
  shows "cache_ok (snd (store_verified ns cs db)) \<and>
    (fst (store_verified ns cs db) = Inr () \<longleftrightarrow> (\<forall>c \<in> set cs. fits c)) \<and>
    ((\<exists>c \<in> set cs. \<not> fits c) \<longrightarrow> snd (store_verified ns cs db) = db)"
proof (cases ns)
  case (Namespace w)
  show ?thesis
  proof (cases "store_rows w cs db")
    case (Inl e)
    with store_rows_fits [of w cs db] assms Namespace show ?thesis by (auto simp: store_verified_def)
  next
    case (Inr db')
    with store_rows_fits [of w cs db] store_rows_ok [OF Inr assms] Namespace show ?thesis
      by (auto simp: store_verified_def)
  qed
qed

theorem store_verified_atomic_witness:
  "snd (store_verified (Namespace 7)
     [test_peer, test_peer\<lparr> pc_peer_id := [2], pc_sequence := - 1, pc_expires_at := 5 \<rparr>] []) = []"
proof -
  have "cache_ok []" by (simp add: cache_ok_def)
  moreover have "\<not> fits (test_peer\<lparr> pc_peer_id := [2], pc_sequence := - 1, pc_expires_at := 5 \<rparr>)"
    by (simp add: fits_def unat_max_word)
  ultimately show ?thesis
    using store_verified_atomic [of "[]" "Namespace 7"
        "[test_peer, test_peer\<lparr> pc_peer_id := [2], pc_sequence := - 1, pc_expires_at := 5 \<rparr>]"]
    by (metis list.set_intros)
qed

section \<open>What is kept\<close>

text \<open>The order of the upsert: sequence first, then block.\<close>

definition row_le :: "cache_row \<Rightarrow> cache_row \<Rightarrow> bool" where
  "row_le a b \<longleftrightarrow> supersedes b a"

lemma supersedes_refl [simp]: "supersedes r r" by (simp add: supersedes_def)
lemma supersedes_linear: "\<not> supersedes a b \<Longrightarrow> supersedes b a" by (auto simp: supersedes_def)
lemma row_le_refl [simp]: "row_le r r" by (simp add: row_le_def supersedes_def)
lemma row_le_trans: "row_le a b \<Longrightarrow> row_le b c \<Longrightarrow> row_le a c" by (auto simp: row_le_def supersedes_def)
lemma row_le_linear: "row_le a b \<or> row_le b a" by (auto simp: row_le_def supersedes_def)

lemma upsert_grows:
  assumes "row_of db k = Some old"
  shows "\<exists>r. row_of (upsert row db) k = Some r \<and> row_le old r"
  using assms supersedes_linear by (auto simp: row_of_upsert row_le_def)

lemma store_rows_grows:
  "store_rows ns cs db = Inr db' \<Longrightarrow> row_of db k = Some old \<Longrightarrow>
   \<exists>r. row_of db' k = Some r \<and> row_le old r"
proof (induction cs arbitrary: db old)
  case (Cons c cs)
  then obtain row where "candidate_row ns c = Inr row" and rest: "store_rows ns cs (upsert row db) = Inr db'"
    by (auto simp: res_bind_Inr_iff)
  from upsert_grows [OF Cons.prems(2)] obtain r where r: "row_of (upsert row db) k = Some r" "row_le old r" by blast
  from Cons.IH [OF rest r(1)] r(2) show ?case using row_le_trans by blast
qed simp

lemma store_rows_contains:
  "store_rows ns cs db = Inr db' \<Longrightarrow> c \<in> set cs \<Longrightarrow> candidate_row ns c = Inr row \<Longrightarrow>
   \<exists>r. row_of db' (row_key row) = Some r \<and> row_le row r"
proof (induction cs arbitrary: db)
  case (Cons d cs)
  then obtain row' where d: "candidate_row ns d = Inr row'" and rest: "store_rows ns cs (upsert row' db) = Inr db'"
    by (auto simp: res_bind_Inr_iff)
  show ?case
  proof (cases "c = d")
    case True
    with d Cons.prems have "row' = row" by simp
    then have "\<exists>r. row_of (upsert row' db) (row_key row) = Some r \<and> row_le row r"
      using supersedes_linear by (auto simp: row_of_upsert row_le_def split: option.split)
    then obtain r where r: "row_of (upsert row' db) (row_key row) = Some r" "row_le row r" by blast
    from store_rows_grows [OF rest r(1)] r(2) show ?thesis using row_le_trans by blast
  next
    case False
    with Cons rest show ?thesis by auto
  qed
qed simp

lemma store_rows_origin:
  "store_rows ns cs db = Inr db' \<Longrightarrow> row_of db' k = Some r \<Longrightarrow>
   row_of db k = Some r \<or> (\<exists>c \<in> set cs. candidate_row ns c = Inr r \<and> row_key r = k)"
proof (induction cs arbitrary: db)
  case (Cons c cs)
  then obtain row where row: "candidate_row ns c = Inr row" and rest: "store_rows ns cs (upsert row db) = Inr db'"
    by (auto simp: res_bind_Inr_iff)
  from Cons.IH [OF rest Cons.prems(2)] row show ?case
    by (auto simp: row_of_upsert split: if_splits option.splits)
qed simp

text \<open>
  C29: after a successful store the row of an identity is the freshest of the old one and those of the
  batch, by sequence number and then by block: it is at least as fresh as each of them
  and is one of them; identities that the batch does not touch keep their rows. The
  log index does not take part, unlike in the candidate store's own order.
\<close>

theorem store_keeps_freshest:
  assumes "store_verified (Namespace w) cs db = (Inr (), db')"
  shows "(\<forall>k old. row_of db k = Some old \<longrightarrow> (\<exists>r. row_of db' k = Some r \<and> row_le old r)) \<and>
    (\<forall>c row. c \<in> set cs \<and> candidate_row w c = Inr row \<longrightarrow>
       (\<exists>r. row_of db' (row_key row) = Some r \<and> row_le row r)) \<and>
    (\<forall>k r. row_of db' k = Some r \<longrightarrow>
       row_of db k = Some r \<or> (\<exists>c \<in> set cs. candidate_row w c = Inr r \<and> row_key r = k))"
proof -
  from assms have run: "store_rows w cs db = Inr db'" by (auto simp: store_verified_def split: sum.splits)
  show ?thesis
    using store_rows_grows [OF run] store_rows_contains [OF run] store_rows_origin [OF run] by blast
qed

theorem store_keeps_freshest_witness:
  "\<exists>db' r. store_verified (Namespace 7) [test_peer\<lparr> pc_expires_at := 9 \<rparr>,
       test_peer\<lparr> pc_expires_at := 9, pc_sequence := 5 \<rparr>, test_peer\<lparr> pc_expires_at := 9, pc_sequence := 3 \<rparr>] [] =
     (Inr (), db') \<and> row_of db' (7, 2, [1]) = Some r \<and> cr_sequence r = 5"
proof -
  let ?cs = "[test_peer\<lparr> pc_expires_at := 9 \<rparr>,
       test_peer\<lparr> pc_expires_at := 9, pc_sequence := 5 \<rparr>, test_peer\<lparr> pc_expires_at := 9, pc_sequence := 3 \<rparr>]"
  obtain db' where run: "store_verified (Namespace 7) ?cs [] = (Inr (), db')"
    using store_rows_fits [of 7 ?cs "[]"]
    by (auto simp: store_verified_def fits_def test_peer_def opt_default_def)
  let ?row = "\<lambda>s. \<lparr> cr_namespace = 7, cr_record_type = 2, cr_peer_id = [1], cr_sequence = s,
    cr_raw_signed_record = [1], cr_expires_at = 9, cr_announcement_block = None,
    cr_announcement_log_index = None \<rparr>"
  have rows: "candidate_row 7 (test_peer\<lparr> pc_expires_at := 9 \<rparr>) = Inr (?row 1)"
    "candidate_row 7 (test_peer\<lparr> pc_expires_at := 9, pc_sequence := 5 \<rparr>) = Inr (?row 5)"
    "candidate_row 7 (test_peer\<lparr> pc_expires_at := 9, pc_sequence := 3 \<rparr>) = Inr (?row 3)"
    by (simp_all add: candidate_row_def to_i64_def to_i64_option_def test_peer_def)
  note facts = store_keeps_freshest [OF run]
  have "test_peer\<lparr> pc_expires_at := 9, pc_sequence := 5 \<rparr> \<in> set ?cs" by simp
  with facts rows(2) obtain r where r: "row_of db' (row_key (?row 5)) = Some r" "row_le (?row 5) r"
    by blast
  have "row_of [] (row_key (?row 5)) \<noteq> Some r" by simp
  with r(1) facts have "\<exists>c \<in> set ?cs. candidate_row 7 c = Inr r" by blast
  with rows r(2) have "cr_sequence r = 5" by (auto simp: row_le_def supersedes_def)
  with run r(1) show ?thesis by (auto simp: row_key_def)
qed

section \<open>What is loaded\<close>

primrec revalidated :: "cache_config \<Rightarrow> namespace \<Rightarrow> u64 \<Rightarrow> cached_row list \<Rightarrow> peer_candidate list" where
  "revalidated cache ns now [] = []"
| "revalidated cache ns now (row # rows) =
     (case validate_announcement (ch_codecs cache) (row_announcement ns row) (cache_policy cache ns now) of
        Inr candidate \<Rightarrow> candidate\<lparr> pc_source := LocalCache \<rparr> # revalidated cache ns now rows
      | Inl _ \<Rightarrow> revalidated cache ns now rows)"

lemma load_loop_inserts:
  "load_loop keccak cache ns now rows store = insert_all keccak store (revalidated cache ns now rows)"
  by (induction rows arbitrary: store) (simp_all add: insert_all_def split: sum.split)

lemma in_revalidated:
  "c \<in> set (revalidated cache ns now rows) \<longleftrightarrow> (\<exists>row \<in> set rows. \<exists>d.
     validate_announcement (ch_codecs cache) (row_announcement ns row) (cache_policy cache ns now) = Inr d \<and>
     c = d\<lparr> pc_source := LocalCache \<rparr>)"
  by (induction rows) (auto split: sum.splits)

lemma load_result:
  "load keccak cache (Inr now) (Namespace w) db =
     res_bind (load_rows w db) (\<lambda>rows. Inr (store_ranked keccak (insert_all keccak
       (store_new \<lparr> csc_max_candidates = ch_max_candidates cache, csc_sampling_seed = w \<rparr>)
       (revalidated cache (Namespace w) now rows))))"
  by (simp add: load_def load_loop_inserts)

lemma cached_candidates_sound:
  assumes "cache_discover keccak cache error_text (Inr now) ns db = (Inr cs, db')"
  shows "db' = db \<and> distinct (map identity_key cs) \<and> length cs \<le> max (ch_max_candidates cache) 1 \<and>
    (\<forall>c \<in> set cs. pc_source c = LocalCache \<and> now < pc_expires_at c \<and>
       pc_record_type c \<in> set (ch_accepted_record_types cache) \<and>
       length (pc_endpoints c) \<le> DEFAULT_MAX_ENDPOINTS_PER_RECORD \<and>
       (\<exists>codec raw d. ch_codecs cache (pc_record_type c) = Some codec \<and>
          0 < length raw \<and> length raw \<le> DEFAULT_MAX_RECORD_BYTES \<and>
          decode_and_verify codec raw (ch_dial_context cache) = Inr d \<and>
          pc_peer_id c = pc_peer_id d \<and> pc_sequence c = pc_sequence d \<and> pc_endpoints c = pc_endpoints d))"
proof -
  obtain w where ns: "ns = Namespace w" by (cases ns)
  let ?config = "\<lparr> csc_max_candidates = ch_max_candidates cache, csc_sampling_seed = w \<rparr>"
  from assms ns obtain rows where db: "db' = db" and cs: "cs = store_ranked keccak (insert_all keccak
       (store_new ?config) (revalidated cache ns now rows))"
    by (auto simp: cache_discover_def load_result res_bind_Inr_iff)
  have ok: "store_ok (insert_all keccak (store_new ?config) (revalidated cache ns now rows))"
    by (intro store_ok_insert_all store_ok_new)
  have "length cs \<le> max (ch_max_candidates cache) 1"
    using ranked_identities(2) [OF ok, of keccak] cs by (simp add: store_new_def)
  moreover have "distinct (map identity_key cs)" using ranked_identities(1) [OF ok] cs by simp
  moreover have "pc_source c = LocalCache \<and> now < pc_expires_at c \<and>
       pc_record_type c \<in> set (ch_accepted_record_types cache) \<and>
       length (pc_endpoints c) \<le> DEFAULT_MAX_ENDPOINTS_PER_RECORD \<and>
       (\<exists>codec raw d. ch_codecs cache (pc_record_type c) = Some codec \<and>
          0 < length raw \<and> length raw \<le> DEFAULT_MAX_RECORD_BYTES \<and>
          decode_and_verify codec raw (ch_dial_context cache) = Inr d \<and>
          pc_peer_id c = pc_peer_id d \<and> pc_sequence c = pc_sequence d \<and> pc_endpoints c = pc_endpoints d)"
    if "c \<in> set cs" for c
  proof -
    from that cs insert_all_contents [OF store_ok_new, of keccak ?config "revalidated cache ns now rows"]
    have "c \<in> set (revalidated cache ns now rows)" by (auto simp: set_store_ranked store_new_def)
    then obtain row d where d: "validate_announcement (ch_codecs cache) (row_announcement ns row)
        (cache_policy cache ns now) = Inr d" "c = d\<lparr> pc_source := LocalCache \<rparr>"
      by (auto simp: in_revalidated)
    from validate_announcement_InrD [OF d(1)] show ?thesis
      by (auto simp: d(2) envelope_ok_def cache_policy_def)
  qed
  ultimately show ?thesis using db by blast
qed

text \<open>
  C14: whatever is in the database, even rows written by somebody else, what the cache offers
  for dialing has been verified again: each candidate is the decoding of its raw bytes by
  the codec registered for its type, of an accepted type, unexpired now, within the size and endpoint
  caps, and marked as coming from the cache; identities are distinct and at most the
  configured number (at least one). Loading changes nothing.
\<close>

theorem cache_revalidates:
  assumes "cache_discover keccak cache error_text (Inr now) ns db = (Inr cs, db')"
  shows "db' = db \<and> distinct (map identity_key cs) \<and> length cs \<le> max (ch_max_candidates cache) 1 \<and>
    (\<forall>c \<in> set cs. pc_source c = LocalCache \<and> now < pc_expires_at c \<and>
       pc_record_type c \<in> set (ch_accepted_record_types cache) \<and>
       length (pc_endpoints c) \<le> DEFAULT_MAX_ENDPOINTS_PER_RECORD \<and>
       (\<exists>codec raw d. ch_codecs cache (pc_record_type c) = Some codec \<and>
          0 < length raw \<and> length raw \<le> DEFAULT_MAX_RECORD_BYTES \<and>
          decode_and_verify codec raw (ch_dial_context cache) = Inr d \<and>
          pc_peer_id c = pc_peer_id d \<and> pc_sequence c = pc_sequence d \<and> pc_endpoints c = pc_endpoints d))"
  using cached_candidates_sound [OF assms] .

section \<open>Round trip and pruning\<close>

text \<open>The row of a candidate that fits, and what it is read as.\<close>

definition row_for :: "b256 \<Rightarrow> peer_candidate \<Rightarrow> cache_row" where
  "row_for ns c = \<lparr> cr_namespace = ns, cr_record_type = uint (pc_record_type c), cr_peer_id = pc_peer_id c,
    cr_sequence = uint (pc_sequence c), cr_raw_signed_record = pc_raw_signed_record c,
    cr_expires_at = uint (pc_expires_at c), cr_announcement_block = map_option uint (pc_announcement_block c),
    cr_announcement_log_index = map_option uint (pc_announcement_log_index c) \<rparr>"

definition read_back :: "peer_candidate \<Rightarrow> cached_row" where
  "read_back c = \<lparr> cd_record_type = pc_record_type c, cd_raw_signed_record = pc_raw_signed_record c,
    cd_expires_at = pc_expires_at c, cd_block_number = pc_announcement_block c,
    cd_log_index = pc_announcement_log_index c \<rparr>"

lemma candidate_row_for: "fits c \<Longrightarrow> candidate_row ns c = Inr (row_for ns c)"
  by (auto simp: candidate_row_def to_i64_def to_i64_option_def fits_def opt_default_def row_for_def
      split: option.split)

lemma read_row_for: "read_row (row_for ns c) = Inr (read_back c)"
proof -
  have "uint (pc_record_type c) < 4294967296" using uint_lt2p [of "pc_record_type c"] by simp
  then show ?thesis
    by (auto simp: read_row_def optional_u64_def row_for_def read_back_def split: option.split)
qed

lemma upsert_new: "row_key row \<notin> row_key ` set db \<Longrightarrow> upsert row db = db @ [row]"
  by (induction db) auto

lemma store_rows_new:
  "\<forall>c \<in> set cs. fits c \<Longrightarrow> distinct (map identity_key cs) \<Longrightarrow>
   row_key ` set db \<inter> (row_key \<circ> row_for ns) ` set cs = {} \<Longrightarrow>
   store_rows ns cs db = Inr (db @ map (row_for ns) cs)"
proof (induction cs arbitrary: db)
  case (Cons c cs)
  have "row_key (row_for ns c) \<notin> (row_key \<circ> row_for ns) ` set cs"
    using Cons.prems(2) by (auto simp: row_key_def row_for_def identity_key_def word_uint_eq_iff [symmetric])
  with Cons show ?case by (simp add: candidate_row_for upsert_new)
qed simp

lemma insort_key_map: "insort_key f (g x) (map g xs) = map g (insort_key (\<lambda>x. f (g x)) x xs)"
  by (induction xs) auto

lemma sort_key_map: "sort_key f (map g xs) = map g (sort_key (\<lambda>x. f (g x)) xs)"
  by (induction xs) (simp_all add: insort_key_map)

lemma traverse_map: "\<forall>x \<in> set xs. f (g x) = Inr (h x) \<Longrightarrow> traverse f (map g xs) = Inr (map h xs)"
  by (induction xs) auto

text \<open>A candidate that a scan validated and the cache may return later.\<close>

definition cacheable :: "codec_registry \<Rightarrow> u32 list \<Rightarrow> dial_context \<Rightarrow> u64 \<Rightarrow> peer_candidate \<Rightarrow> bool" where
  "cacheable codecs types ctx now c \<longleftrightarrow>
     (\<exists>a policy. validate_announcement codecs a policy = Inr c \<and> ap_dial_context policy = ctx \<and>
        length (an_peer_record a) \<le> DEFAULT_MAX_RECORD_BYTES) \<and>
     pc_record_type c \<in> set types \<and> now < pc_expires_at c \<and>
     length (pc_endpoints c) \<le> DEFAULT_MAX_ENDPOINTS_PER_RECORD"

lemma read_back_validated:
  assumes "lawful_registry codecs" and "cacheable codecs types ctx now c"
  shows "validate_announcement codecs (row_announcement ns (read_back c))
    (cache_policy (open_cache codecs types ctx n) ns now) = Inr c"
proof -
  from assms(2) obtain a policy where a: "validate_announcement codecs a policy = Inr c"
    "ap_dial_context policy = ctx" "length (an_peer_record a) \<le> DEFAULT_MAX_RECORD_BYTES"
    unfolding cacheable_def by blast
  from a(1,2) obtain codec d where cd: "codecs (an_record_type a) = Some codec"
    "decode_and_verify codec (an_peer_record a) ctx = Inr d" "pc_record_type d = an_record_type a"
    "c = stamped a d" and ne: "0 < length (an_peer_record a)"
    by (auto simp: validate_announcement_Inr_iff envelope_ok_def)
  have "pc_raw_signed_record d = an_peer_record a"
    using lawful_validated(1) [OF assms(1) a(1)] cd(4) by simp
  moreover have "pc_record_type c \<in> set types" "now < pc_expires_at c"
    "length (pc_endpoints c) \<le> DEFAULT_MAX_ENDPOINTS_PER_RECORD"
    using assms(2) by (simp_all add: cacheable_def)
  ultimately show ?thesis using cd a(3) ne
    by (simp add: validate_announcement_def row_announcement_def cache_policy_def open_cache_def read_back_def
        opt_default_def stamped_def)
qed

lemma revalidated_all:
  "\<forall>c \<in> set cs. validate_announcement (ch_codecs cache) (row_announcement ns (read_back c))
     (cache_policy cache ns now) = Inr c \<Longrightarrow>
   revalidated cache ns now (map read_back cs) = map (\<lambda>c. c\<lparr> pc_source := LocalCache \<rparr>) cs"
  by (induction cs) auto

lemma stored_batch_returns:
  assumes "lawful_registry codecs" and "\<forall>c \<in> set cs. fits c \<and> cacheable codecs types ctx now c"
    and "distinct (map identity_key cs)" and "length cs \<le> max n 1"
    and "\<forall>row \<in> set db. Namespace (cr_namespace row) \<noteq> ns"
  shows "\<exists>db' out. store_verified ns cs db = (Inr (), db') \<and>
    cache_discover keccak (open_cache codecs types ctx n) error_text (Inr now) ns db' = (Inr out, db') \<and>
    set out = (\<lambda>c. c\<lparr> pc_source := LocalCache \<rparr>) ` set cs \<and> length out = length cs"
proof -
  obtain w where ns: "ns = Namespace w" by (cases ns)
  let ?cache = "open_cache codecs types ctx n" and ?mark = "\<lambda>c. c\<lparr> pc_source := LocalCache \<rparr>"
  let ?db = "db @ map (row_for w) cs"
  have "store_rows w cs db = Inr ?db"
    using assms(2,3,5) by (intro store_rows_new) (auto simp: ns row_key_def row_for_def)
  then have stored: "store_verified ns cs db = (Inr (), ?db)" by (simp add: store_verified_def ns)
  have here: "filter (\<lambda>row. cr_namespace row = w) ?db = map (row_for w) cs"
    using assms(5) by (auto simp: ns row_for_def filter_empty_conv)
  have rd: "traverse read_row (map (row_for w) xs) = Inr (map read_back xs)" for xs
    by (simp add: traverse_map read_row_for)
  define cs' where "cs' = sort_key (\<lambda>c. - cr_sequence (row_for w c))
      (sort_key (\<lambda>c. case cr_announcement_block (row_for w c) of None \<Rightarrow> 2 ^ 63 | Some b \<Rightarrow> - b) cs)"
  have rows: "load_rows w ?db = Inr (map read_back cs')"
    by (simp only: load_rows_def here sort_key_map rd cs'_def)
  have cs': "mset cs' = mset cs" by (simp add: cs'_def)
  have set': "set cs' = set cs" using cs' by (metis set_mset_mset)
  let ?s = "insert_all keccak (store_new \<lparr> csc_max_candidates = ch_max_candidates ?cache,
      csc_sampling_seed = w \<rparr>) (map ?mark cs')"
  have "revalidated ?cache ns now (map read_back cs') = map ?mark cs'"
    using assms(2) read_back_validated [OF assms(1)]
    by (intro revalidated_all) (auto simp: set' open_cache_def)
  then have loaded: "load keccak ?cache (Inr now) ns ?db = Inr (store_ranked keccak ?s)"
    using rows by (simp add: ns load_result)
  have "identity_key \<circ> ?mark = identity_key" by (simp add: fun_eq_iff identity_key_def)
  moreover have "distinct (map identity_key cs')" using assms(3) cs'
    by (metis mset_eq_imp_distinct_iff mset_map)
  moreover have len: "length cs' = length cs" using cs' by (metis size_mset)
  ultimately have "cs_candidates ?s = map (\<lambda>c. (identity_key c, c)) (map ?mark cs')"
    using assms(4) by (intro insert_all_room) (simp_all add: open_cache_def)
  then have "set (store_ranked keccak ?s) = ?mark ` set cs" "length (store_ranked keccak ?s) = length cs"
    using len by (simp_all add: set_store_ranked image_image set') (simp add: store_ranked_def)
  with stored loaded show ?thesis by (auto simp: cache_discover_def)
qed

lemma stored_candidate_returns:
  assumes "lawful_registry codecs" and "validate_announcement codecs a policy = Inr c" and "fits c"
    and "ap_dial_context policy = ctx" and "pc_record_type c \<in> set types" and "now < pc_expires_at c"
    and "length (an_peer_record a) \<le> DEFAULT_MAX_RECORD_BYTES"
    and "length (pc_endpoints c) \<le> DEFAULT_MAX_ENDPOINTS_PER_RECORD"
  shows "\<exists>db. store_verified ns [c] [] = (Inr (), db) \<and>
    cache_discover keccak (open_cache codecs types ctx n) error_text (Inr now) ns db =
      (Inr [c\<lparr> pc_source := LocalCache \<rparr>], db)"
proof -
  have "cacheable codecs types ctx now c" unfolding cacheable_def using assms(2,4-8) by blast
  then have c: "\<forall>d \<in> set [c]. fits d \<and> cacheable codecs types ctx now d" "distinct (map identity_key [c])"
    "length [c] \<le> max n 1" "\<forall>row \<in> set []. Namespace (cr_namespace row) \<noteq> ns"
    using assms(3) by simp_all
  from stored_batch_returns [OF assms(1) this, of keccak error_text] obtain db out where "store_verified ns [c] [] = (Inr (), db)"
    "cache_discover keccak (open_cache codecs types ctx n) error_text (Inr now) ns db = (Inr out, db)"
    and out: "set out = (\<lambda>c. c\<lparr> pc_source := LocalCache \<rparr>) ` set [c]" "length out = length [c]" by blast
  from out obtain d where "out = [d]" by (cases out) auto
  with out(1) have "out = [c\<lparr> pc_source := LocalCache \<rparr>]" by simp
  with \<open>store_verified ns [c] [] = (Inr (), db)\<close>
    \<open>cache_discover keccak (open_cache codecs types ctx n) error_text (Inr now) ns db = (Inr out, db)\<close>
  show ?thesis by blast
qed

text \<open>
  One row of the namespace that does not have the ranges of the columns, which the schema does
  not enforce, makes every load of that namespace fail: it is not ignored. Pruning
  removes such a row only once it has expired.
\<close>

lemma traverse_fails: "x \<in> set xs \<Longrightarrow> \<nexists>y. f x = Inr y \<Longrightarrow> \<exists>e. traverse f xs = Inl e"
proof (induction xs)
  case (Cons z zs)
  then show ?case by (cases "f z") auto
qed simp

lemma unreadable_row_blocks:
  assumes "row \<in> set db" and "Namespace (cr_namespace row) = ns" and "\<nexists>r. read_row row = Inr r"
  shows "\<exists>e. cache_discover keccak cache error_text clock ns db = (Inl (Discovery e), db)"
proof -
  obtain e where "load_rows (cr_namespace row) db = Inl e"
    unfolding load_rows_def using assms(1) traverse_fails [of row _ read_row, OF _ assms(3)] by fastforce
  then show ?thesis using assms(2) by (auto simp: cache_discover_def load_def map_err_def)
qed

lemma unreadable_row_survives_prune:
  assumes "row \<in> set db" and "Namespace (cr_namespace row) = ns"
    and "cr_announcement_block row = Some b" "b < 0" and "uint now < cr_expires_at row"
  shows "\<exists>e. cache_discover keccak cache error_text clock ns (snd (prune_expired (Inr now) db)) =
    (Inl (Discovery e), snd (prune_expired (Inr now) db))"
proof (rule unreadable_row_blocks [OF _ assms(2)])
  show "row \<in> set (snd (prune_expired (Inr now) db))"
    using assms(1,5) by (auto simp: prune_expired_def to_i64_def Let_def)
  show "\<nexists>r. read_row row = Inr r"
    using assms(3,4) by (auto simp: read_row_def optional_u64_def res_bind_Inr_iff)
qed

lemma revalidated_unexpired:
  "revalidated cache ns now (filter (\<lambda>row. \<not> cd_expires_at row \<le> now) rows) = revalidated cache ns now rows"
proof (induction rows)
  case (Cons row rows)
  have "cd_expires_at row \<le> now \<Longrightarrow>
      \<exists>e. validate_announcement (ch_codecs cache) (row_announcement ns row) (cache_policy cache ns now) = Inl e"
    by (intro validate_announcement_expired) (simp add: row_announcement_def cache_policy_def)
  with Cons show ?case by (auto split: sum.splits)
qed simp

lemma traverse_filter:
  assumes "traverse f xs = Inr ys" and "\<And>x y. f x = Inr y \<Longrightarrow> x \<in> set xs \<Longrightarrow> Q y \<longleftrightarrow> P x"
  shows "traverse f (filter P xs) = Inr (filter Q ys)"
  using assms by (induction xs arbitrary: ys) (auto simp: res_bind_Inr_iff)

text \<open>
  Pruning removes exactly the expired rows, answers how many remain, and cannot be noticed by
  discovery: from a readable table, what is loaded at that time, or later, is the same
  with and without the prune.
\<close>

theorem prune_invisible:
  assumes "unat now < 2 ^ 63" and "now \<le> later" and "load_rows w db = Inr rows"
    and "\<And>row. row \<in> set db \<Longrightarrow> cr_expires_at row < 2 ^ 63"
  shows "prune_expired (Inr now) db =
      (let kept = filter (\<lambda>row. uint now < cr_expires_at row) db in (Inr (length kept), kept)) \<and>
    load keccak cache (Inr later) (Namespace w) (snd (prune_expired (Inr now) db)) =
      load keccak cache (Inr later) (Namespace w) db"
proof -
  let ?P = "\<lambda>row. uint now < cr_expires_at row" and ?Q = "\<lambda>row. now < cd_expires_at row"
  let ?order = "\<lambda>db. sort_key (\<lambda>row. - cr_sequence row)
         (sort_key (\<lambda>row. case cr_announcement_block row of None \<Rightarrow> 2 ^ 63 | Some b \<Rightarrow> - b)
           (filter (\<lambda>row. cr_namespace row = w) db))"
  have prune: "prune_expired (Inr now) db = (Inr (length (filter ?P db)), filter ?P db)"
    using assms(1) by (simp add: prune_expired_def to_i64_def not_le Let_def)
  have exp: "?Q y \<longleftrightarrow> ?P x" if "read_row x = Inr y" "x \<in> set (?order db)" for x y
  proof -
    from that(1) have y: "cd_expires_at y = word_of_int (cr_expires_at x)" "0 \<le> cr_expires_at x"
      by (auto simp: read_row_def res_bind_Inr_iff split: if_splits)
    have "cr_expires_at x < 2 ^ 63" using that(2) assms(4) by auto
    with y have "uint (cd_expires_at y) = cr_expires_at x" by (simp add: uint_word_of_int)
    then show ?thesis by (simp add: word_less_def)
  qed
  have "?order (filter ?P db) = filter ?P (?order db)"
    by (simp add: filter_sort conj_commute)
  then have rows: "load_rows w (filter ?P db) = Inr (filter ?Q rows)"
    using traverse_filter [of read_row "?order db" rows ?Q ?P] assms(3) exp by (simp add: load_rows_def)
  have still: "revalidated cache (Namespace w) later (filter ?Q rows) = revalidated cache (Namespace w) later rows"
  proof -
    let ?L = "\<lambda>row. \<not> cd_expires_at row \<le> later"
    have "filter ?L (filter ?Q rows) = filter ?L rows" using assms(2) by (auto intro: filter_cong)
    with revalidated_unexpired [of cache "Namespace w" later "filter ?Q rows"]
      revalidated_unexpired [of cache "Namespace w" later rows] show ?thesis by metis
  qed
  show ?thesis
    unfolding prune using still by (simp add: load_result rows assms(3) Let_def)
qed

section \<open>Instances\<close>

interpretation test_codec: verifying_codec
    "\<lparr> codec_record_type = RECORD_TYPE_LIBP2P, decode_and_verify = test_decode \<rparr>"
  by unfold_locales (auto simp: test_decode_def split: if_splits)

lemma test_lawful: "lawful_registry test_codecs"
  unfolding test_codecs_def by (intro lawful_register lawful_new test_codec.verifying_codec_axioms)

text \<open>The tampered row of the source's test.\<close>

definition tampered_row :: cache_row where
  "tampered_row = \<lparr> cr_namespace = 7, cr_record_type = 2, cr_peer_id = [1], cr_sequence = 1,
     cr_raw_signed_record = [0], cr_expires_at = 9, cr_announcement_block = Some 1,
     cr_announcement_log_index = Some 1 \<rparr>"

definition test_cache :: cache_config where
  "test_cache = open_cache test_codecs [RECORD_TYPE_LIBP2P] NativeServer 16"

lemma tampered_loads:
  "load_rows 7 [tampered_row] = Inr [\<lparr> cd_record_type = 2, cd_raw_signed_record = [0],
     cd_expires_at = 9, cd_block_number = Some 1, cd_log_index = Some 1 \<rparr>]"
  by (simp add: load_rows_def tampered_row_def read_row_def optional_u64_def)

theorem cache_revalidates_witness:
  "\<exists>cs. cache_discover sum_hash test_cache (\<lambda>_. ''error'') (Inr 5) (Namespace 7) [tampered_row] =
     (Inr cs, [tampered_row]) \<and> length cs \<le> 16"
proof -
  obtain cs where run: "cache_discover sum_hash test_cache (\<lambda>_. ''error'') (Inr 5) (Namespace 7) [tampered_row] =
     (Inr cs, [tampered_row])"
    by (simp add: cache_discover_def load_result tampered_loads)
  from cache_revalidates [OF run] have "length cs \<le> max (ch_max_candidates test_cache) 1" by simp
  with run show ?thesis by (auto simp: test_cache_def open_cache_def)
qed


theorem prune_invisible_witness:
  "snd (prune_expired (Inr 9) [tampered_row]) = [] \<and>
   load sum_hash test_cache (Inr 10) (Namespace 7) [] =
     load sum_hash test_cache (Inr 10) (Namespace 7) [tampered_row]"
proof -
  have "unat (9 :: u64) < 2 ^ 63" "(9 :: u64) \<le> 10" by simp_all
  moreover have "cr_expires_at row < 2 ^ 63" if "row \<in> set [tampered_row]" for row
    using that by (simp add: tampered_row_def)
  ultimately have p: "prune_expired (Inr 9) [tampered_row] =
      (let kept = filter (\<lambda>row. uint (9 :: u64) < cr_expires_at row) [tampered_row] in (Inr (length kept), kept)) \<and>
    load sum_hash test_cache (Inr 10) (Namespace 7) (snd (prune_expired (Inr 9) [tampered_row])) =
      load sum_hash test_cache (Inr 10) (Namespace 7) [tampered_row]"
    by (intro prune_invisible [OF _ _ tampered_loads])
  have "snd (prune_expired (Inr 9) [tampered_row]) = []"
    using p by (simp add: tampered_row_def)
  with p show ?thesis by simp
qed

end
