(* ===== verification/Libp2p_Policy.thy ===== *)
theory Libp2p_Policy
  imports Core_Record
begin

unbundle bit_operations_syntax

text \<open>
  \<open>crates/resurrect-libp2p/src/endpoint_policy.rs\<close>: which addresses of a verified record may
  be dialed. A multiaddr is its list of protocols; those the policy does not look at are
  one constructor. The predicates of Rust's \<open>Ipv4Addr\<close> and \<open>Ipv6Addr\<close> that the code calls are
  written out.
\<close>

section \<open>Internet addresses\<close>

type_synonym ipv4 = "32 word"
type_synonym ipv6 = "128 word"

datatype ip_addr = V4 ipv4 | V6 ipv6

definition octet :: "ipv4 \<Rightarrow> nat \<Rightarrow> nat" where
  "octet ip i = unat (drop_bit (8 * (3 - i)) ip) mod 256"

definition segment :: "ipv6 \<Rightarrow> nat \<Rightarrow> u16" where
  "segment ip i = ucast (drop_bit (16 * (7 - i)) ip)"

text \<open>Rust's \<open>Ipv4Addr\<close>.\<close>

definition is_private :: "ipv4 \<Rightarrow> bool" where
  "is_private ip \<longleftrightarrow> octet ip 0 = 10 \<or> octet ip 0 = 172 \<and> 16 \<le> octet ip 1 \<and> octet ip 1 \<le> 31
     \<or> octet ip 0 = 192 \<and> octet ip 1 = 168"

definition is_multicast4 :: "ipv4 \<Rightarrow> bool" where
  "is_multicast4 ip \<longleftrightarrow> 224 \<le> octet ip 0 \<and> octet ip 0 \<le> 239"

definition is_documentation :: "ipv4 \<Rightarrow> bool" where
  "is_documentation ip \<longleftrightarrow>
     octet ip 0 = 192 \<and> octet ip 1 = 0 \<and> octet ip 2 = 2
     \<or> octet ip 0 = 198 \<and> octet ip 1 = 51 \<and> octet ip 2 = 100
     \<or> octet ip 0 = 203 \<and> octet ip 1 = 0 \<and> octet ip 2 = 113"

definition is_global_ipv4 :: "ipv4 \<Rightarrow> bool" where
  "is_global_ipv4 ip \<longleftrightarrow>
     \<not> (ip = 0 \<comment> \<open>unspecified\<close>
        \<or> octet ip 0 = 127 \<comment> \<open>loopback\<close>
        \<or> is_private ip
        \<or> octet ip 0 = 169 \<and> octet ip 1 = 254 \<comment> \<open>link local\<close>
        \<or> is_multicast4 ip
        \<or> ip = 0xFFFFFFFF \<comment> \<open>broadcast\<close>
        \<or> is_documentation ip
        \<or> octet ip 0 = 0
        \<or> 240 \<le> octet ip 0
        \<or> octet ip 0 = 100 \<and> 64 \<le> octet ip 1 \<and> octet ip 1 \<le> 127
        \<or> octet ip 0 = 198 \<and> (octet ip 1 = 18 \<or> octet ip 1 = 19))"

text \<open>Rust's \<open>Ipv6Addr\<close>.\<close>

definition to_ipv4_mapped :: "ipv6 \<Rightarrow> ipv4 option" where
  "to_ipv4_mapped ip =
     (if segment ip 0 = 0 \<and> segment ip 1 = 0 \<and> segment ip 2 = 0 \<and> segment ip 3 = 0
         \<and> segment ip 4 = 0 \<and> segment ip 5 = 0xFFFF
      then Some (ucast ip) else None)"

definition is_multicast6 :: "ipv6 \<Rightarrow> bool" where
  "is_multicast6 ip \<longleftrightarrow> segment ip 0 AND 0xFF00 = 0xFF00"

definition is_global_ipv6 :: "ipv6 \<Rightarrow> bool" where
  "is_global_ipv6 ip \<longleftrightarrow>
     (case to_ipv4_mapped ip of
        Some mapped \<Rightarrow> is_global_ipv4 mapped
      | None \<Rightarrow>
          \<not> (ip = 0 \<or> ip = 1 \<or> is_multicast6 ip
             \<or> segment ip 0 AND 0xFE00 = 0xFC00
             \<or> segment ip 0 AND 0xFFC0 = 0xFE80
             \<or> segment ip 0 = 0x2001 \<and> segment ip 1 = 0x0DB8))"

section \<open>The policy\<close>

type_synonym peer_id = bytes

datatype protocol =
    Ip4 ipv4 | Ip6 ipv6 | Tcp u16 | Udp u16 | QuicV1 | WebTransport
  | Wss string | Https | Tls | Certhash bytes | P2p peer_id | OtherProtocol string

type_synonym multiaddr = "protocol list"

record endpoint_policy =
  pol_allow_non_global :: bool

definition default_endpoint_policy :: endpoint_policy where
  "default_endpoint_policy = \<lparr> pol_allow_non_global = False \<rparr>"

definition local_testing :: endpoint_policy where
  "local_testing = \<lparr> pol_allow_non_global = True \<rparr>"

definition accept_ip :: "endpoint_policy \<Rightarrow> ip_addr \<Rightarrow> bool" where
  "accept_ip policy ip =
     (if pol_allow_non_global policy
      then (case ip of V4 a \<Rightarrow> a \<noteq> 0 \<and> \<not> is_multicast4 a | V6 a \<Rightarrow> a \<noteq> 0 \<and> \<not> is_multicast6 a)
      else (case ip of V4 a \<Rightarrow> is_global_ipv4 a | V6 a \<Rightarrow> is_global_ipv6 a))"

text \<open>One protocol: \<open>None\<close> is the early \<open>return false\<close>, otherwise the two flags.\<close>

definition accept_protocol ::
  "endpoint_policy \<Rightarrow> peer_id option \<Rightarrow> protocol \<Rightarrow> bool \<times> bool \<Rightarrow> (bool \<times> bool) option"
where
  "accept_protocol policy expected_peer protocol flags =
     (case flags of (has_transport, browser_secure) \<Rightarrow>
      case protocol of
        Ip4 ip \<Rightarrow> if accept_ip policy (V4 ip) then Some (has_transport, browser_secure) else None
      | Ip6 ip \<Rightarrow> if accept_ip policy (V6 ip) then Some (has_transport, browser_secure) else None
      | P2p peer \<Rightarrow>
          (case expected_peer of
             Some expected \<Rightarrow> if expected \<noteq> peer then None else Some (has_transport, browser_secure)
           | None \<Rightarrow> Some (has_transport, browser_secure))
      | Tcp _ \<Rightarrow> Some (True, browser_secure)
      | Udp _ \<Rightarrow> Some (True, browser_secure)
      | QuicV1 \<Rightarrow> Some (True, browser_secure)
      | WebTransport \<Rightarrow> Some (True, True)
      | Wss _ \<Rightarrow> Some (True, True)
      | Https \<Rightarrow> Some (True, True)
      | Tls \<Rightarrow> Some (has_transport, True)
      | Certhash _ \<Rightarrow> Some (has_transport, True)
      | OtherProtocol _ \<Rightarrow> Some (has_transport, browser_secure))"

fun accept_protocols ::
  "endpoint_policy \<Rightarrow> peer_id option \<Rightarrow> multiaddr \<Rightarrow> bool \<times> bool \<Rightarrow> (bool \<times> bool) option"
where
  "accept_protocols policy expected_peer [] flags = Some flags"
| "accept_protocols policy expected_peer (p # ps) flags =
     (case accept_protocol policy expected_peer p flags of
        None \<Rightarrow> None
      | Some flags' \<Rightarrow> accept_protocols policy expected_peer ps flags')"

definition accepts ::
  "endpoint_policy \<Rightarrow> multiaddr \<Rightarrow> peer_id option \<Rightarrow> dial_context \<Rightarrow> bool"
where
  "accepts policy address expected_peer ctx =
     (if address = [] then False
      else case accept_protocols policy expected_peer address (False, False) of
          None \<Rightarrow> False
        | Some (has_transport, browser_secure) \<Rightarrow>
            (case ctx of
               NativeServer \<Rightarrow> has_transport
             | Mobile \<Rightarrow> has_transport
             | Browser \<Rightarrow> has_transport \<and> browser_secure
             | RestrictedEgress \<Rightarrow> has_transport \<and> browser_secure))"

section \<open>Address blocks\<close>

text \<open>An address block: the addresses that share their first \<open>len\<close> bits with the base.\<close>

definition in_block :: "'a::len word \<Rightarrow> 'a word \<times> nat \<Rightarrow> bool" where
  "in_block ip b = (case b of (base, len) \<Rightarrow>
     drop_bit (LENGTH('a) - len) ip = drop_bit (LENGTH('a) - len) base)"

definition ip4 :: "nat \<Rightarrow> nat \<Rightarrow> nat \<Rightarrow> nat \<Rightarrow> ipv4" where
  "ip4 a b c d = word_of_nat (((a * 256 + b) * 256 + c) * 256 + d)"

definition reserved_ipv4 :: "(ipv4 \<times> nat) list" where
  "reserved_ipv4 =
     [(ip4 0 0 0 0, 8), (ip4 10 0 0 0, 8), (ip4 100 64 0 0, 10), (ip4 127 0 0 0, 8),
      (ip4 169 254 0 0, 16), (ip4 172 16 0 0, 12), (ip4 192 0 2 0, 24), (ip4 192 168 0 0, 16),
      (ip4 198 18 0 0, 15), (ip4 198 51 100 0, 24), (ip4 203 0 113 0, 24), (ip4 224 0 0 0, 4),
      (ip4 240 0 0 0, 4)]"

lemma unat_drop_bit: "unat (drop_bit k w) = unat w div 2 ^ k"
  unfolding unsigned_drop_bit_eq by (simp add: drop_bit_eq_div take_bit_nat_eq_self unat_less_pow)

lemma octet_nat: "octet ip i = unat ip div 2 ^ (8 * (3 - i)) mod 256"
  by (simp only: octet_def unat_drop_bit)

lemma in_block_nat:
  fixes ip base :: "'a::len word"
  shows "in_block ip (base, len) \<longleftrightarrow> unat ip div 2 ^ (LENGTH('a) - len) = unat base div 2 ^ (LENGTH('a) - len)"
  by (simp only: in_block_def prod.case word_unat_eq_iff unat_drop_bit)

lemma unat_ip4: "a < 256 \<Longrightarrow> b < 256 \<Longrightarrow> c < 256 \<Longrightarrow> d < 256 \<Longrightarrow>
    unat (ip4 a b c d) = ((a * 256 + b) * 256 + c) * 256 + d"
  unfolding ip4_def unsigned_of_nat by (subst take_bit_nat_eq_self) simp_all

text \<open>The four octets of an address as a number.\<close>

lemma octets_of_nat:
  fixes n :: nat
  assumes "n < 2 ^ 32"
  obtains a b c d where "n = ((a * 256 + b) * 256 + c) * 256 + d" "a < 256" "b < 256" "c < 256" "d < 256"
proof (rule that)
  have "n = n div 256 * 256 + n mod 256" "n div 256 = n div 256 div 256 * 256 + n div 256 mod 256"
    "n div 256 div 256 = n div 256 div 256 div 256 * 256 + n div 256 div 256 mod 256" by simp_all
  then show "n = ((n div 256 div 256 div 256 * 256 + n div 256 div 256 mod 256) * 256 + n div 256 mod 256) * 256 + n mod 256"
    by simp
qed (use assms in simp_all)

lemma digits_eq:
  fixes a q r s k :: nat
  assumes "r < k" and "s < k"
  shows "a * k + r = q * k + s \<longleftrightarrow> a = q \<and> r = s"
proof
  assume e: "a * k + r = q * k + s"
  have "(a * k + r) div k = a" "(q * k + s) div k = q" using assms by simp_all
  with e show "a = q \<and> r = s" by simp
qed simp

lemma div_split: "0 < k \<Longrightarrow> (a * (m * k) + b) div k = a * m + b div (k::nat)"
  by (simp flip: mult.assoc)

lemma octet_arith:
  fixes a b c :: nat
  assumes b: "b < 256" and c: "c < 256"
  shows "(a * 256 + b) div 64 = 401 \<longleftrightarrow> a = 100 \<and> 64 \<le> b \<and> b \<le> 127"
    and "(a * 256 + b) div 16 = 2753 \<longleftrightarrow> a = 172 \<and> 16 \<le> b \<and> b \<le> 31"
    and "(a * 256 + b) div 2 = 25353 \<longleftrightarrow> a = 198 \<and> (b = 18 \<or> b = 19)"
    and "a * 256 + b = 43518 \<longleftrightarrow> a = 169 \<and> b = 254"
    and "a * 256 + b = 49320 \<longleftrightarrow> a = 192 \<and> b = 168"
    and "(a * 256 + b) * 256 + c = 12582914 \<longleftrightarrow> a = 192 \<and> b = 0 \<and> c = 2"
    and "(a * 256 + b) * 256 + c = 12989284 \<longleftrightarrow> a = 198 \<and> b = 51 \<and> c = 100"
    and "(a * 256 + b) * 256 + c = 13303921 \<longleftrightarrow> a = 203 \<and> b = 0 \<and> c = 113"
proof -
  show "(a * 256 + b) div 64 = 401 \<longleftrightarrow> a = 100 \<and> 64 \<le> b \<and> b \<le> 127"
    using b div_split [of 64 a 4 b] digits_eq [of "b div 64" 4 1 a 100] by auto
  show "(a * 256 + b) div 16 = 2753 \<longleftrightarrow> a = 172 \<and> 16 \<le> b \<and> b \<le> 31"
    using b div_split [of 16 a 16 b] digits_eq [of "b div 16" 16 1 a 172] by auto
  show "(a * 256 + b) div 2 = 25353 \<longleftrightarrow> a = 198 \<and> (b = 18 \<or> b = 19)"
    using b div_split [of 2 a 128 b] digits_eq [of "b div 2" 128 9 a 198] by auto
  show "a * 256 + b = 43518 \<longleftrightarrow> a = 169 \<and> b = 254" using b digits_eq [of b 256 254 a 169] by simp
  show "a * 256 + b = 49320 \<longleftrightarrow> a = 192 \<and> b = 168" using b digits_eq [of b 256 168 a 192] by simp
  show "(a * 256 + b) * 256 + c = 12582914 \<longleftrightarrow> a = 192 \<and> b = 0 \<and> c = 2"
    using b c digits_eq [of c 256 2 "a * 256 + b" "192 * 256 + 0"] digits_eq [of b 256 0 a 192] by simp
  show "(a * 256 + b) * 256 + c = 12989284 \<longleftrightarrow> a = 198 \<and> b = 51 \<and> c = 100"
    using b c digits_eq [of c 256 100 "a * 256 + b" "198 * 256 + 51"] digits_eq [of b 256 51 a 198] by simp
  show "(a * 256 + b) * 256 + c = 13303921 \<longleftrightarrow> a = 203 \<and> b = 0 \<and> c = 113"
    using b c digits_eq [of c 256 113 "a * 256 + b" "203 * 256 + 0"] digits_eq [of b 256 0 a 203] by simp
qed

lemma high_octet: "a < 256 \<Longrightarrow> a div 16 = 14 \<longleftrightarrow> 224 \<le> a \<and> a \<le> (239::nat)"
  "a < 256 \<Longrightarrow> a div 16 = 15 \<longleftrightarrow> 240 \<le> (a::nat)"
  by auto

text \<open>
  The octet tests of \<open>is_global_ipv4\<close> amount to the exclusion of exactly thirteen address
  blocks: the unspecified, private, shared, loopback, link-local, documentation,
  benchmarking, multicast and reserved (with broadcast) ones.
\<close>

theorem is_global_ipv4_blocks: "is_global_ipv4 ip \<longleftrightarrow> \<not> list_ex (in_block ip) reserved_ipv4"
proof -
  define n where "n = unat ip"
  have lt: "n < 2 ^ 32" using unat_less_pow [of ip] by (simp add: n_def)
  have z: "ip = 0 \<longleftrightarrow> n = 0" "ip = 0xFFFFFFFF \<longleftrightarrow> n = 0xFFFFFFFF" by (simp_all add: n_def word_unat_eq_iff)
  obtain a b c d where n: "n = ((a * 256 + b) * 256 + c) * 256 + d"
    and r: "a < 256" "b < 256" "c < 256" "d < 256" using lt by (rule octets_of_nat)
  have div: "n div 256 = (a * 256 + b) * 256 + c" "n div 65536 = a * 256 + b" "n div 16777216 = a"
    "n div 4194304 = (a * 256 + b) div 64" "n div 1048576 = (a * 256 + b) div 16"
    "n div 131072 = (a * 256 + b) div 2" "n div 268435456 = a div 16"
    using r by (simp_all add: n)
  have blocks: "\<not> list_ex (in_block ip) reserved_ipv4 \<longleftrightarrow> \<not> (a = 0 \<or> a = 10 \<or>
      (a * 256 + b) div 64 = 401 \<or> a = 127 \<or> a * 256 + b = 43518 \<or> (a * 256 + b) div 16 = 2753 \<or>
      (a * 256 + b) * 256 + c = 12582914 \<or> a * 256 + b = 49320 \<or> (a * 256 + b) div 2 = 25353 \<or>
      (a * 256 + b) * 256 + c = 12989284 \<or> (a * 256 + b) * 256 + c = 13303921 \<or>
      a div 16 = 14 \<or> a div 16 = 15)"
    by (simp add: reserved_ipv4_def in_block_nat unat_ip4 div flip: n_def)
  note arith = octet_arith [OF r(2,3)] high_octet [OF r(1)]
  have o: "octet ip 0 = a" "octet ip 1 = b" "octet ip 2 = c"
    using r mod_mult_self3 [of "a * 256 + b" 256 c] by (simp_all add: octet_nat div flip: n_def)
  have "n = 0 \<Longrightarrow> a = 0" "n = 4294967295 \<Longrightarrow> 240 \<le> a" using r by (simp_all add: n)
  then have zero: "n = 0 \<or> a = 0 \<longleftrightarrow> a = 0" "n = 4294967295 \<or> 240 \<le> a \<longleftrightarrow> 240 \<le> a" by blast+
  have lhs: "is_global_ipv4 ip \<longleftrightarrow> \<not> ((n = 0 \<or> a = 0) \<or> (n = 4294967295 \<or> 240 \<le> a) \<or> a = 127 \<or> a = 10 \<or>
      (a = 172 \<and> 16 \<le> b \<and> b \<le> 31) \<or> (a = 192 \<and> b = 168) \<or> (a = 169 \<and> b = 254) \<or> (224 \<le> a \<and> a \<le> 239) \<or>
      (a = 192 \<and> b = 0 \<and> c = 2) \<or> (a = 198 \<and> b = 51 \<and> c = 100) \<or> (a = 203 \<and> b = 0 \<and> c = 113) \<or>
      (a = 100 \<and> 64 \<le> b \<and> b \<le> 127) \<or> (a = 198 \<and> (b = 18 \<or> b = 19)))"
    unfolding is_global_ipv4_def is_private_def is_multicast4_def is_documentation_def z o
    by (simp only: disj_ac)
  show ?thesis unfolding lhs blocks arith zero by (simp only: disj_ac)
qed

section \<open>What the policy accepts\<close>

definition transport_protocol :: "protocol \<Rightarrow> bool" where
  "transport_protocol p \<longleftrightarrow> (case p of Tcp _ \<Rightarrow> True | Udp _ \<Rightarrow> True | QuicV1 \<Rightarrow> True | WebTransport \<Rightarrow> True
     | Wss _ \<Rightarrow> True | Https \<Rightarrow> True | _ \<Rightarrow> False)"

definition browser_protocol :: "protocol \<Rightarrow> bool" where
  "browser_protocol p \<longleftrightarrow> (case p of WebTransport \<Rightarrow> True | Wss _ \<Rightarrow> True | Https \<Rightarrow> True | Tls \<Rightarrow> True
     | Certhash _ \<Rightarrow> True | _ \<Rightarrow> False)"

definition permitted :: "endpoint_policy \<Rightarrow> peer_id option \<Rightarrow> protocol \<Rightarrow> bool" where
  "permitted policy expected p \<longleftrightarrow>
     (case p of Ip4 ip \<Rightarrow> accept_ip policy (V4 ip) | Ip6 ip \<Rightarrow> accept_ip policy (V6 ip)
      | P2p peer \<Rightarrow> expected = None \<or> expected = Some peer | _ \<Rightarrow> True)"

lemma accept_protocol_spec:
  "accept_protocol policy expected p (t, b) =
     (if permitted policy expected p then Some (t \<or> transport_protocol p, b \<or> browser_protocol p) else None)"
  by (cases p) (auto simp: accept_protocol_def permitted_def transport_protocol_def browser_protocol_def
      split: option.splits)

lemma accept_protocols_spec:
  "accept_protocols policy expected ps (t, b) =
     (if \<forall>p \<in> set ps. permitted policy expected p
      then Some (t \<or> (\<exists>p \<in> set ps. transport_protocol p), b \<or> (\<exists>p \<in> set ps. browser_protocol p))
      else None)"
proof (induction ps arbitrary: t b)
  case (Cons p ps)
  show ?case
    by (cases "permitted policy expected p") (auto simp: accept_protocol_spec Cons.IH)
qed simp

lemma accepts_spec:
  "accepts policy address expected ctx \<longleftrightarrow>
     (\<forall>p \<in> set address. permitted policy expected p) \<and>
     (\<exists>p \<in> set address. transport_protocol p) \<and>
     (ctx \<in> {Browser, RestrictedEgress} \<longrightarrow> (\<exists>p \<in> set address. browser_protocol p))"
  by (cases ctx) (auto simp: accepts_def accept_protocols_spec)

text \<open>
  C31: an address is accepted exactly when every IP address in it passes the policy, every
  peer id in it is the record's own (so a circuit through a relay never is), some transport is
  named, and, for browsers and restricted networks, some component is browser-secure; the
  order of the components does not matter.
\<close>

theorem accepts_iff:
  "accepts policy address expected ctx \<longleftrightarrow>
     (\<forall>ip. Ip4 ip \<in> set address \<longrightarrow> accept_ip policy (V4 ip)) \<and>
     (\<forall>ip. Ip6 ip \<in> set address \<longrightarrow> accept_ip policy (V6 ip)) \<and>
     (\<forall>peer. P2p peer \<in> set address \<longrightarrow> expected = None \<or> expected = Some peer) \<and>
     (\<exists>p \<in> set address. transport_protocol p) \<and>
     (ctx \<in> {Browser, RestrictedEgress} \<longrightarrow> (\<exists>p \<in> set address. browser_protocol p))"
proof -
  have "(\<forall>p \<in> set address. permitted policy expected p) \<longleftrightarrow>
      (\<forall>ip. Ip4 ip \<in> set address \<longrightarrow> accept_ip policy (V4 ip)) \<and>
      (\<forall>ip. Ip6 ip \<in> set address \<longrightarrow> accept_ip policy (V6 ip)) \<and>
      (\<forall>peer. P2p peer \<in> set address \<longrightarrow> expected = None \<or> expected = Some peer)"
    by (auto simp: permitted_def split: protocol.splits)
  then show ?thesis by (simp add: accepts_spec)
qed

theorem accepts_iff_witness:
  "\<not> accepts default_endpoint_policy [Ip4 (ip4 127 0 0 1), Tcp 4001] None NativeServer \<and>
   accepts local_testing [Ip4 (ip4 127 0 0 1), Tcp 4001] None NativeServer \<and>
   \<not> accepts default_endpoint_policy [Ip4 (ip4 8 8 8 8), Tcp 4001] None Browser \<and>
   accepts default_endpoint_policy [OtherProtocol ''dns4'', Tcp 443, Wss ''/''] None Browser"
proof -
  have o: "octet (ip4 127 0 0 1) 0 = 127" "octet (ip4 8 8 8 8) 0 = 8" "octet (ip4 127 0 0 1) 1 = 0"
    by (simp_all add: octet_nat unat_ip4)
  show ?thesis
    unfolding accepts_iff
    using o by (auto simp: default_endpoint_policy_def local_testing_def accept_ip_def is_global_ipv4_def
        is_multicast4_def transport_protocol_def browser_protocol_def ip4_def)
qed

end
