(* ===== verification/Libp2p_Codecs.thy ===== *)
theory Libp2p_Codecs
  imports Libp2p_Policy Core_Validation
begin

text \<open>
  The two peer-record codecs: \<open>crates/resurrect-libp2p/src/enr_codec.rs\<close> and
  \<open>signed_peer_record.rs\<close>. RLP, protobuf, multiaddr and signature libraries are
  parameters, collected in records of the functions this code calls; the unsigned varints and
  the signing input, which this code writes itself, are modelled byte by byte.
\<close>

section \<open>Multiaddrs\<close>

record multiaddr_lib =
  ma_parse :: "string \<Rightarrow> multiaddr option"
  ma_show :: "multiaddr \<Rightarrow> string"
  ma_from_bytes :: "bytes \<Rightarrow> multiaddr option"
  ma_to_bytes :: "multiaddr \<Rightarrow> bytes"
  ma_ipv6_text :: "ipv6 \<Rightarrow> string"

section \<open>The ENR codec\<close>

definition MAX_ENR_BYTES :: nat where "MAX_ENR_BYTES = 300"

record enr =
  enr_ip4 :: "ipv4 option"
  enr_tcp4 :: "u16 option"
  enr_udp4 :: "u16 option"
  enr_ip6 :: "ipv6 option"
  enr_tcp6 :: "u16 option"
  enr_udp6 :: "u16 option"
  enr_seq :: u64
  enr_node_id :: bytes

text \<open>The RLP decoder verifies the record's signature and returns the bytes it left over.\<close>

type_synonym enr_decoder = "bytes \<Rightarrow> string + (enr \<times> bytes)"

definition ipv4_text :: "ipv4 \<Rightarrow> string" where
  "ipv4_text ip = decimal (octet ip 0) @ ''.'' @ decimal (octet ip 1) @ ''.'' @
     decimal (octet ip 2) @ ''.'' @ decimal (octet ip 3)"

definition push_endpoint ::
  "multiaddr_lib \<Rightarrow> multiaddr list \<Rightarrow> ip_addr \<Rightarrow> string \<Rightarrow> u16 \<Rightarrow> multiaddr list"
where
  "push_endpoint lib endpoints ip transport port =
     (let prefix = (case ip of V4 a \<Rightarrow> ''/ip4/'' @ ipv4_text a | V6 a \<Rightarrow> ''/ip6/'' @ ma_ipv6_text lib a)
      in case ma_parse lib (prefix @ ''/'' @ transport @ ''/'' @ decimal (unat port)) of
           Some address \<Rightarrow> endpoints @ [address]
         | None \<Rightarrow> endpoints)"

definition push_if ::
  "multiaddr_lib \<Rightarrow> ip_addr option \<Rightarrow> u16 option \<Rightarrow> string \<Rightarrow> multiaddr list \<Rightarrow> multiaddr list"
where
  "push_if lib ip port transport endpoints =
     (case (ip, port) of (Some a, Some p) \<Rightarrow> push_endpoint lib endpoints a transport p | _ \<Rightarrow> endpoints)"

definition enr_endpoints :: "multiaddr_lib \<Rightarrow> enr \<Rightarrow> multiaddr list" where
  "enr_endpoints lib r =
     push_if lib (map_option V6 (enr_ip6 r)) (enr_udp6 r) ''udp''
      (push_if lib (map_option V4 (enr_ip4 r)) (enr_udp4 r) ''udp''
        (push_if lib (map_option V6 (enr_ip6 r)) (enr_tcp6 r) ''tcp''
          (push_if lib (map_option V4 (enr_ip4 r)) (enr_tcp4 r) ''tcp'' [])))"

definition shown_endpoints ::
  "multiaddr_lib \<Rightarrow> endpoint_policy \<Rightarrow> peer_id option \<Rightarrow> dial_context \<Rightarrow> multiaddr list \<Rightarrow> endpoint list"
where
  "shown_endpoints lib policy expected ctx addresses =
     map (\<lambda>address. \<lparr> ep_address = ma_show lib address \<rparr>)
       (filter (\<lambda>address. accepts policy address expected ctx) addresses)"

definition decode_enr ::
  "multiaddr_lib \<Rightarrow> enr_decoder \<Rightarrow> endpoint_policy \<Rightarrow> bytes \<Rightarrow> dial_context \<Rightarrow>
   peer_record_error + peer_candidate"
where
  "decode_enr lib decode policy raw ctx =
     (if raw = [] \<or> MAX_ENR_BYTES < length raw then Inl (InvalidSize (length raw))
      else if ctx = Browser then Inl (NoUsableEndpoint ctx)
      else case decode raw of
        Inl error \<Rightarrow> Inl (if str_contains error ''Signature'' then InvalidSignature else Malformed error)
      | Inr (record, remaining) \<Rightarrow>
          (if remaining \<noteq> [] then Inl (Malformed ''trailing bytes after ENR'')
           else let endpoints = shown_endpoints lib policy None ctx (enr_endpoints lib record)
             in if endpoints = [] then Inl (NoUsableEndpoint ctx)
                else Inr \<lparr> pc_record_type = RECORD_TYPE_ENR, pc_peer_id = enr_node_id record,
                  pc_sequence = enr_seq record, pc_endpoints = endpoints,
                  pc_raw_signed_record = raw, pc_expires_at = 0, pc_source = ResurrectRegistry,
                  pc_announcement_block = None, pc_announcement_log_index = None \<rparr>))"

definition enr_codec :: "multiaddr_lib \<Rightarrow> enr_decoder \<Rightarrow> endpoint_policy \<Rightarrow> peer_codec" where
  "enr_codec lib decode policy =
     \<lparr> codec_record_type = RECORD_TYPE_ENR, decode_and_verify = decode_enr lib decode policy \<rparr>"

interpretation enr: verifying_codec "enr_codec lib decode policy" for lib decode policy
  by unfold_locales
    (auto simp: enr_codec_def decode_enr_def Let_def split: if_splits sum.splits prod.splits)

lemma length_push_if: "length (push_if lib ip port transport es) \<le> Suc (length es)"
  by (simp add: push_if_def push_endpoint_def Let_def split: option.split)

lemma length_enr_endpoints: "length (enr_endpoints lib r) \<le> 4"
proof -
  have step: "length es \<le> n \<Longrightarrow> length (push_if lib ip port t es) \<le> Suc n" for es n ip port t
    using length_push_if [of lib ip port t es] by simp
  have "length (enr_endpoints lib r) \<le> Suc (Suc (Suc (Suc 0)))"
    unfolding enr_endpoints_def by (intro step) simp
  then show ?thesis by simp
qed

section \<open>Unsigned varints and the signing input\<close>

definition LIBP2P_PEER_RECORD_DOMAIN :: string where
  "LIBP2P_PEER_RECORD_DOMAIN = ''libp2p-peer-record''"

definition LIBP2P_PEER_RECORD_PAYLOAD_TYPE :: bytes where
  "LIBP2P_PEER_RECORD_PAYLOAD_TYPE = [0x03, 0x01]"

definition MAX_ENVELOPE_BYTES :: nat where "MAX_ENVELOPE_BYTES = 4096"

function append_uvarint :: "bytes \<Rightarrow> nat \<Rightarrow> bytes" where
  "append_uvarint buffer v =
     (if 0x80 \<le> v
      then append_uvarint (buffer @ [or (and (word_of_nat (v mod 256)) 0x7f) 0x80]) (v div 2 ^ 7)
      else buffer @ [word_of_nat (v mod 256)])"
  by pat_completeness auto
termination by (relation "measure (\<lambda>(buffer, v). v)") auto

declare append_uvarint.simps [simp del]

definition signing_input :: "bytes \<Rightarrow> bytes \<Rightarrow> bytes" where
  "signing_input payload_type payload =
     append_uvarint (append_uvarint (append_uvarint [] (length LIBP2P_PEER_RECORD_DOMAIN)
          @ string_bytes LIBP2P_PEER_RECORD_DOMAIN)
        (length payload_type) @ payload_type)
      (length payload) @ payload"

text \<open>A decoder of varints, to state that the encoding loses nothing.\<close>

fun read_uvarint :: "bytes \<Rightarrow> (nat \<times> bytes) option" where
  "read_uvarint [] = None"
| "read_uvarint (b # bs) =
     (if unat b < 128 then Some (unat b, bs)
      else map_option (\<lambda>(v, rest). (unat b - 128 + 128 * v, rest)) (read_uvarint bs))"

lemma append_uvarint_buffer: "append_uvarint (xs @ ys) v = xs @ append_uvarint ys v"
proof (induction v arbitrary: ys rule: less_induct)
  case (less v)
  show ?case
    by (simp add: append_uvarint.simps [of "xs @ ys"] append_uvarint.simps [of ys] less.IH)
qed

lemma set_high_bit:
  assumes "y < (128 :: nat)"
  shows "or y 128 = 128 + y"
proof -
  have "take_bit 7 y = y" using assms by (simp add: take_bit_nat_eq_self)
  then have "\<not> bit y 7" by (metis bit_take_bit_iff less_irrefl)
  then have "\<not> bit y n \<or> \<not> bit (128 :: nat) n" for n
    using bit_exp_iff [of 7 n, where 'a = nat] by auto
  then have "y + 128 = or y 128" by (rule disjunctive_add)
  then show ?thesis by simp
qed

lemma low_byte: "unat (or (and (word_of_nat (v mod 256)) 0x7f) 0x80 :: u8) = 128 + v mod 128"
proof -
  have "unat (or (and (word_of_nat (v mod 256)) 0x7f) 0x80 :: u8) = or (and (v mod 256) 0x7f) 0x80"
    by (simp add: unsigned_or_eq unsigned_and_eq unsigned_of_nat take_bit_nat_eq_self)
  also have "and (v mod 256) 0x7f = v mod 128"
    using take_bit_eq_mask [of 7 "v mod 256"]
    by (simp add: take_bit_eq_mod mask_eq_exp_minus_1 mod_mod_cancel)
  also have "or (v mod 128) 0x80 = 128 + v mod 128" by (rule set_high_bit) simp
  finally show ?thesis .
qed

lemma read_append_uvarint: "read_uvarint (append_uvarint [] v @ rest) = Some (v, rest)"
proof (induction v arbitrary: rest rule: less_induct)
  case (less v)
  show ?case
  proof (cases "128 \<le> v")
    case True
    let ?b = "or (and (word_of_nat (v mod 256)) 0x7f) 0x80 :: u8"
    have "append_uvarint [] v = ?b # append_uvarint [] (v div 128)"
      using True append_uvarint_buffer [of "[?b]" "[]"] by (simp add: append_uvarint.simps [of "[]" v])
    with True less low_byte [of v] show ?thesis by simp
  next
    case False
    then show ?thesis by (simp add: append_uvarint.simps [of "[]" v] unsigned_of_nat take_bit_nat_eq_self)
  qed
qed

lemma append_uvarint_nil: "append_uvarint buffer v = buffer @ append_uvarint [] v"
  using append_uvarint_buffer [of buffer "[]" v] by simp

lemma uvarint_split:
  "append_uvarint [] v @ xs = append_uvarint [] u @ ys \<longleftrightarrow> v = u \<and> xs = ys"
  by (metis read_append_uvarint option.inject prod.inject)

text \<open>
  C24: the signing input is injective: two pairs of payload type and payload that are signed as the
  same bytes are the same pair, so a signature cannot be moved to another payload, nor to
  another payload type by shifting the boundary between the two.
\<close>

theorem signing_input_injective:
  "signing_input t p = signing_input t' p' \<longleftrightarrow> t = t' \<and> p = p'"
proof -
  have "signing_input t p = append_uvarint [] (length LIBP2P_PEER_RECORD_DOMAIN)
      @ string_bytes LIBP2P_PEER_RECORD_DOMAIN @ append_uvarint [] (length t) @ t
      @ append_uvarint [] (length p) @ p" for t p
    unfolding signing_input_def by (simp add: append_uvarint_nil [of "_ @ _"])
  moreover have "length t = length t' \<and> t @ append_uvarint [] (length p) @ p =
      t' @ append_uvarint [] (length p') @ p' \<longleftrightarrow> t = t' \<and> p = p'"
    by (auto simp: uvarint_split)
  ultimately show ?thesis by (simp add: uvarint_split)
qed

section \<open>The signed peer record codec\<close>

record envelope =
  env_public_key :: bytes
  env_payload_type :: bytes
  env_payload :: bytes
  env_signature :: bytes

record peer_record_message =
  pm_peer_id :: bytes
  pm_sequence :: u64
  pm_addresses :: "bytes list"

text \<open>
  The libraries: the protobuf codecs of the two messages, keys, signatures and peer ids (a
  peer id is its bytes; \<open>lp_peer_from_bytes\<close> checks that bytes are one).
\<close>

record ('pk, 'sk) libp2p_lib =
  lp_decode_envelope :: "bytes \<Rightarrow> string + envelope"
  lp_encode_envelope :: "envelope \<Rightarrow> bytes"
  lp_decode_message :: "bytes \<Rightarrow> string + peer_record_message"
  lp_encode_message :: "peer_record_message \<Rightarrow> bytes"
  lp_decode_key :: "bytes \<Rightarrow> string + 'pk"
  lp_encode_key :: "'pk \<Rightarrow> bytes"
  lp_verify :: "'pk \<Rightarrow> bytes \<Rightarrow> bytes \<Rightarrow> bool"
  lp_peer_of_key :: "'pk \<Rightarrow> peer_id"
  lp_peer_from_bytes :: "bytes \<Rightarrow> string + peer_id"
  lp_public :: "'sk \<Rightarrow> 'pk"
  lp_sign :: "'sk \<Rightarrow> bytes \<Rightarrow> string + bytes"

definition decode_libp2p ::
  "multiaddr_lib \<Rightarrow> ('pk, 'sk) libp2p_lib \<Rightarrow> endpoint_policy \<Rightarrow> nat \<Rightarrow> bytes \<Rightarrow> dial_context \<Rightarrow>
   peer_record_error + peer_candidate"
where
  "decode_libp2p mlib lib policy max_endpoints raw ctx =
     (if raw = [] \<or> MAX_ENVELOPE_BYTES < length raw then Inl (InvalidSize (length raw))
      else
       res_bind (map_err Malformed (lp_decode_envelope lib raw)) (\<lambda>envelope.
       if env_payload_type envelope \<noteq> LIBP2P_PEER_RECORD_PAYLOAD_TYPE
       then Inl (Malformed ''unexpected signed-envelope payload type'')
       else
       res_bind (map_err Malformed (lp_decode_key lib (env_public_key envelope))) (\<lambda>public_key.
       if \<not> lp_verify lib public_key
              (signing_input (env_payload_type envelope) (env_payload envelope)) (env_signature envelope)
       then Inl InvalidSignature
       else
       res_bind (map_err Malformed (lp_decode_message lib (env_payload envelope))) (\<lambda>payload.
       res_bind (map_err Malformed (lp_peer_from_bytes lib (pm_peer_id payload))) (\<lambda>payload_peer.
       if lp_peer_of_key lib public_key \<noteq> payload_peer then Inl IdentityMismatch
       else if max_endpoints < length (pm_addresses payload) then Inl (TooManyEndpoints max_endpoints)
       else
         let endpoints = shown_endpoints mlib policy (Some (lp_peer_of_key lib public_key)) ctx
           (List.map_filter (ma_from_bytes mlib) (pm_addresses payload))
         in if endpoints = [] then Inl (NoUsableEndpoint ctx)
            else Inr \<lparr> pc_record_type = RECORD_TYPE_LIBP2P,
              pc_peer_id = lp_peer_of_key lib public_key, pc_sequence = pm_sequence payload,
              pc_endpoints = endpoints, pc_raw_signed_record = raw, pc_expires_at = 0,
              pc_source = ResurrectRegistry, pc_announcement_block = None,
              pc_announcement_log_index = None \<rparr>)))))"

definition libp2p_codec ::
  "multiaddr_lib \<Rightarrow> ('pk, 'sk) libp2p_lib \<Rightarrow> endpoint_policy \<Rightarrow> nat \<Rightarrow> peer_codec"
where
  "libp2p_codec mlib lib policy max_endpoints =
     \<lparr> codec_record_type = RECORD_TYPE_LIBP2P,
       decode_and_verify = decode_libp2p mlib lib policy max_endpoints \<rparr>"

datatype signed_peer_record_error =
    NoEndpoints
  | SignTooManyEndpoints nat
  | Signing string
  | EnvelopeTooLarge nat

definition seal_payload ::
  "('pk, 'sk) libp2p_lib \<Rightarrow> 'sk \<Rightarrow> bytes \<Rightarrow> signed_peer_record_error + bytes"
where
  "seal_payload lib keypair payload =
     res_bind (map_err Signing
         (lp_sign lib keypair (signing_input LIBP2P_PEER_RECORD_PAYLOAD_TYPE payload))) (\<lambda>signature.
     let encoded = lp_encode_envelope lib
       \<lparr> env_public_key = lp_encode_key lib (lp_public lib keypair),
         env_payload_type = LIBP2P_PEER_RECORD_PAYLOAD_TYPE,
         env_payload = payload, env_signature = signature \<rparr>
     in if MAX_ENVELOPE_BYTES < length encoded then Inl (EnvelopeTooLarge (length encoded))
        else Inr encoded)"

definition sign_peer_record ::
  "multiaddr_lib \<Rightarrow> ('pk, 'sk) libp2p_lib \<Rightarrow> 'sk \<Rightarrow> u64 \<Rightarrow> multiaddr list \<Rightarrow>
   signed_peer_record_error + bytes"
where
  "sign_peer_record mlib lib keypair sequence addresses =
     (if addresses = [] then Inl NoEndpoints
      else if DEFAULT_MAX_ENDPOINTS_PER_RECORD < length addresses
      then Inl (SignTooManyEndpoints DEFAULT_MAX_ENDPOINTS_PER_RECORD)
      else seal_payload lib keypair (lp_encode_message lib
        \<lparr> pm_peer_id = lp_peer_of_key lib (lp_public lib keypair), pm_sequence = sequence,
          pm_addresses = map (ma_to_bytes mlib) addresses \<rparr>))"

interpretation signed: verifying_codec "libp2p_codec mlib lib policy max_endpoints"
  for mlib lib policy max_endpoints
  by unfold_locales
    (auto simp: libp2p_codec_def decode_libp2p_def res_bind_Inr_iff Let_def split: if_splits)

text \<open>
  C12: the codec accepts exactly the envelopes that are within size, of the peer-record payload
  type, signed by the embedded key over the domain-separated input, whose payload names that
  key's peer and at most the configured number of addresses, at least one of which decodes
  and passes the policy for this peer; the candidate is the payload's, its identity the key's.
\<close>

theorem decode_libp2p_iff:
  "decode_and_verify (libp2p_codec mlib lib policy max_endpoints) raw ctx = Inr c \<longleftrightarrow>
   0 < length raw \<and> length raw \<le> 4096 \<and>
   (\<exists>envelope key payload addresses.
      lp_decode_envelope lib raw = Inr envelope \<and>
      env_payload_type envelope = [0x03, 0x01] \<and>
      lp_decode_key lib (env_public_key envelope) = Inr key \<and>
      lp_verify lib key (signing_input [0x03, 0x01] (env_payload envelope)) (env_signature envelope) \<and>
      lp_decode_message lib (env_payload envelope) = Inr payload \<and>
      lp_peer_from_bytes lib (pm_peer_id payload) = Inr (lp_peer_of_key lib key) \<and>
      length (pm_addresses payload) \<le> max_endpoints \<and>
      addresses = filter (\<lambda>a. accepts policy a (Some (lp_peer_of_key lib key)) ctx)
        (List.map_filter (ma_from_bytes mlib) (pm_addresses payload)) \<and>
      addresses \<noteq> [] \<and>
      c = \<lparr> pc_record_type = RECORD_TYPE_LIBP2P, pc_peer_id = lp_peer_of_key lib key,
        pc_sequence = pm_sequence payload,
        pc_endpoints = map (\<lambda>a. \<lparr> ep_address = ma_show mlib a \<rparr>) addresses,
        pc_raw_signed_record = raw, pc_expires_at = 0, pc_source = ResurrectRegistry,
        pc_announcement_block = None, pc_announcement_log_index = None \<rparr>)"
  unfolding libp2p_codec_def peer_codec.select_convs decode_libp2p_def MAX_ENVELOPE_BYTES_def
    LIBP2P_PEER_RECORD_PAYLOAD_TYPE_def shown_endpoints_def
  by (auto simp: res_bind_Inr_iff Let_def not_less)

text \<open>
  The documented behaviour of the libraries that signing relies on. A protobuf message is decoded
  from what it is encoded to; the encoding omits default fields, so that an envelope
  is only known to be encoded to some bytes when it names a payload type.
\<close>

definition lawful_libp2p :: "('pk, 'sk) libp2p_lib \<Rightarrow> bool" where
  "lawful_libp2p lib \<longleftrightarrow>
     (\<forall>e. lp_decode_envelope lib (lp_encode_envelope lib e) = Inr e) \<and>
     (\<forall>e. env_payload_type e \<noteq> [] \<longrightarrow> lp_encode_envelope lib e \<noteq> []) \<and>
     (\<forall>m. lp_decode_message lib (lp_encode_message lib m) = Inr m) \<and>
     (\<forall>k. lp_decode_key lib (lp_encode_key lib k) = Inr k) \<and>
     (\<forall>k. lp_peer_from_bytes lib (lp_peer_of_key lib k) = Inr (lp_peer_of_key lib k)) \<and>
     (\<forall>s m sig. lp_sign lib s m = Inr sig \<longrightarrow> lp_verify lib (lp_public lib s) m sig)"

lemma map_filter_encoded:
  "\<forall>a \<in> set as. ma_from_bytes mlib (ma_to_bytes mlib a) = Some a \<Longrightarrow>
   List.map_filter (ma_from_bytes mlib) (map (ma_to_bytes mlib) as) = as"
  by (induction as) (simp_all add: List.map_filter_def)

lemma signed_record_decodes:
  assumes "lawful_libp2p lib" and "sign_peer_record mlib lib keypair sequence addresses = Inr raw"
    and "\<forall>a \<in> set addresses. ma_from_bytes mlib (ma_to_bytes mlib a) = Some a"
    and "length addresses \<le> max_endpoints"
  shows "length raw \<le> DEFAULT_MAX_RECORD_BYTES \<and>
    decode_and_verify (libp2p_codec mlib lib policy max_endpoints) raw ctx =
      (let usable = filter (\<lambda>a. accepts policy a (Some (lp_peer_of_key lib (lp_public lib keypair))) ctx) addresses
       in if usable = [] then Inl (NoUsableEndpoint ctx)
          else Inr \<lparr> pc_record_type = RECORD_TYPE_LIBP2P,
            pc_peer_id = lp_peer_of_key lib (lp_public lib keypair), pc_sequence = sequence,
            pc_endpoints = map (\<lambda>a. \<lparr> ep_address = ma_show mlib a \<rparr>) usable,
            pc_raw_signed_record = raw, pc_expires_at = 0, pc_source = ResurrectRegistry,
            pc_announcement_block = None, pc_announcement_log_index = None \<rparr>)"
proof -
  let ?key = "lp_public lib keypair"
  let ?payload = "lp_encode_message lib \<lparr> pm_peer_id = lp_peer_of_key lib ?key, pm_sequence = sequence,
    pm_addresses = map (ma_to_bytes mlib) addresses \<rparr>"
  from assms(2) obtain sig where sig:
    "lp_sign lib keypair (signing_input LIBP2P_PEER_RECORD_PAYLOAD_TYPE ?payload) = Inr sig"
    and raw: "raw = lp_encode_envelope lib \<lparr> env_public_key = lp_encode_key lib ?key,
      env_payload_type = LIBP2P_PEER_RECORD_PAYLOAD_TYPE, env_payload = ?payload, env_signature = sig \<rparr>"
    and len: "length raw \<le> MAX_ENVELOPE_BYTES"
    by (auto simp: sign_peer_record_def seal_payload_def res_bind_Inr_iff Let_def not_less split: if_splits)
  have law: "lp_decode_envelope lib (lp_encode_envelope lib e) = Inr e"
    "env_payload_type e \<noteq> [] \<Longrightarrow> lp_encode_envelope lib e \<noteq> []"
    "lp_decode_message lib (lp_encode_message lib m) = Inr m" "lp_decode_key lib (lp_encode_key lib k) = Inr k"
    "lp_peer_from_bytes lib (lp_peer_of_key lib k) = Inr (lp_peer_of_key lib k)"
    "lp_sign lib s b = Inr g \<Longrightarrow> lp_verify lib (lp_public lib s) b g" for e m k s b g
    using assms(1) by (simp_all add: lawful_libp2p_def)
  show ?thesis
    using len law(2) assms(4) law(6) [OF sig] map_filter_encoded [OF assms(3)]
    by (auto simp: libp2p_codec_def decode_libp2p_def shown_endpoints_def raw law(1,3,4,5) Let_def
        LIBP2P_PEER_RECORD_PAYLOAD_TYPE_def MAX_ENVELOPE_BYTES_def DEFAULT_MAX_RECORD_BYTES_def)
qed


text \<open>A toy wire format and signature scheme for the concrete instance.\<close>

definition toy_field :: "bytes \<Rightarrow> bytes" where
  "toy_field bs = append_uvarint [] (length bs) @ bs"

definition toy_take :: "bytes \<Rightarrow> (bytes \<times> bytes) option" where
  "toy_take bs = map_option (\<lambda>(n, rest). (take n rest, drop n rest)) (read_uvarint bs)"

lemma toy_take_field [simp]: "toy_take (toy_field bs @ rest) = Some (bs, rest)"
  by (simp add: toy_take_def toy_field_def read_append_uvarint)

primrec toy_fields :: "nat \<Rightarrow> bytes \<Rightarrow> bytes list option" where
  "toy_fields 0 bs = Some []"
| "toy_fields (Suc n) bs =
     Option.bind (toy_take bs) (\<lambda>(f, rest). map_option ((#) f) (toy_fields n rest))"

lemma toy_fields_concat [simp]: "toy_fields (length fs) (concat (map toy_field fs)) = Some fs"
  by (induction fs) simp_all

definition toy_lib :: "(unit, unit) libp2p_lib" where
  "toy_lib =
     \<lparr> lp_decode_envelope = (\<lambda>bs. case Option.bind (toy_take bs) (\<lambda>(k, r1).
           Option.bind (toy_take r1) (\<lambda>(t, r2). Option.bind (toy_take r2) (\<lambda>(p, r3).
           Option.bind (toy_take r3) (\<lambda>(s, _). Some \<lparr> env_public_key = k, env_payload_type = t,
             env_payload = p, env_signature = s \<rparr>)))) of None \<Rightarrow> Inl ''envelope'' | Some e \<Rightarrow> Inr e),
       lp_encode_envelope = (\<lambda>e. toy_field (env_public_key e) @ toy_field (env_payload_type e) @
           toy_field (env_payload e) @ toy_field (env_signature e) @ [0]),
       lp_decode_message = (\<lambda>bs. case Option.bind (toy_take bs) (\<lambda>(p, r1).
           Option.bind (read_uvarint r1) (\<lambda>(s, r2). Option.bind (read_uvarint r2) (\<lambda>(n, r3).
           map_option (\<lambda>as. \<lparr> pm_peer_id = p, pm_sequence = word_of_nat s, pm_addresses = as \<rparr>)
             (toy_fields n r3)))) of None \<Rightarrow> Inl ''message'' | Some m \<Rightarrow> Inr m),
       lp_encode_message = (\<lambda>m. toy_field (pm_peer_id m) @ append_uvarint [] (unat (pm_sequence m)) @
           append_uvarint [] (length (pm_addresses m)) @ concat (map toy_field (pm_addresses m))),
       lp_decode_key = (\<lambda>_. Inr ()), lp_encode_key = (\<lambda>_. []),
       lp_verify = (\<lambda>_ m s. m = s), lp_peer_of_key = (\<lambda>_. [1]),
       lp_peer_from_bytes = Inr, lp_public = (\<lambda>_. ()), lp_sign = (\<lambda>_ m. Inr m) \<rparr>"

lemma toy_lawful: "lawful_libp2p toy_lib"
  by (simp add: lawful_libp2p_def toy_lib_def read_append_uvarint)

definition toy_multiaddrs :: multiaddr_lib where
  "toy_multiaddrs =
     \<lparr> ma_parse = (\<lambda>_. None), ma_show = (\<lambda>_. ''/ip4/8.8.8.8/tcp/4001''),
       ma_from_bytes = (\<lambda>_. Some [Ip4 (ip4 8 8 8 8), Tcp 4001]), ma_to_bytes = (\<lambda>_. [4]),
       ma_ipv6_text = (\<lambda>_. ''::'') \<rparr>"

lemma uvarint_small: "v < 128 \<Longrightarrow> append_uvarint [] v = [word_of_nat v]"
  by (simp add: append_uvarint.simps [of "[]" v])

lemma toy_signed:
  "\<exists>raw. sign_peer_record toy_multiaddrs toy_lib () 42 [[Ip4 (ip4 8 8 8 8), Tcp 4001]] = Inr raw"
  by (simp add: sign_peer_record_def seal_payload_def toy_lib_def toy_multiaddrs_def toy_field_def
      signing_input_def append_uvarint_nil [of "_ @ _"] append_uvarint_nil [of "_ # _"] uvarint_small
      LIBP2P_PEER_RECORD_DOMAIN_def LIBP2P_PEER_RECORD_PAYLOAD_TYPE_def string_bytes_def
      DEFAULT_MAX_ENDPOINTS_PER_RECORD_def MAX_ENVELOPE_BYTES_def)


end
