(* ===== verification/Node_Registry.thy ===== *)
theory Node_Registry
  imports Node_Cache Libp2p_Codecs Eth_Alloy
begin

text \<open>
  \<open>crates/resurrect-node/src/registry.rs\<close>: the registry as a discovery source of the bootstrap
  cycle, and the announcer of the node's own record. The state of each is a record carried
  along with the outside world; the clock, the random number generator and the texts of
  errors are arguments.
\<close>

section \<open>Telemetry\<close>

record registry_telemetry =
  rt_scans :: u64
  rt_scan_failures :: u64
  rt_logs_processed :: u64
  rt_rejected_records :: u64
  rt_reorgs :: u64
  rt_announcements :: u64

definition no_telemetry :: registry_telemetry where
  "no_telemetry = \<lparr> rt_scans = 0, rt_scan_failures = 0, rt_logs_processed = 0,
     rt_rejected_records = 0, rt_reorgs = 0, rt_announcements = 0 \<rparr>"

text \<open>The counters wrap around, as \<open>fetch_add\<close> does. A snapshot is what the status shows.\<close>

record telemetry_snapshot =
  ts_scans :: u64
  ts_scan_failures :: u64
  ts_logs_processed :: u64
  ts_rejected_records :: u64
  ts_reorgs :: u64
  ts_announcements :: u64

definition snapshot :: "registry_telemetry \<Rightarrow> telemetry_snapshot" where
  "snapshot t =
     \<lparr> ts_scans = rt_scans t, ts_scan_failures = rt_scan_failures t,
       ts_logs_processed = rt_logs_processed t, ts_rejected_records = rt_rejected_records t,
       ts_reorgs = rt_reorgs t, ts_announcements = rt_announcements t \<rparr>"

section \<open>The clock\<close>

text \<open>
  \<open>SystemTime::now().duration_since(UNIX_EPOCH)\<close> is a duration, or \<open>None\<close> for a clock before
  the epoch.
\<close>

definition sequence_now :: "duration option \<Rightarrow> u64" where
  "sequence_now clock =
     (case clock of None \<Rightarrow> 1
      | Some d \<Rightarrow> let micros = d div 1000 in if micros < 2 ^ 64 then word_of_nat micros else - 1 - 1)"

definition unix_time :: "duration option \<Rightarrow> string + u64" where
  "unix_time clock =
     (case clock of None \<Rightarrow> Inl ''system clock predates the Unix epoch'' | Some d \<Rightarrow> Inr (as_secs d))"

section \<open>Discovery\<close>

record registry_discovery =
  dv_checkpoint :: "scan_checkpoint option"
  dv_telemetry :: registry_telemetry

definition new_discovery :: "registry_telemetry \<Rightarrow> registry_discovery" where
  "new_discovery telemetry = \<lparr> dv_checkpoint = None, dv_telemetry = telemetry \<rparr>"

definition count_scan :: "scan_report \<Rightarrow> registry_telemetry \<Rightarrow> registry_telemetry" where
  "count_scan report t =
     t\<lparr> rt_scans := rt_scans t + 1,
        rt_logs_processed := rt_logs_processed t + word_of_nat (sr_logs_processed report),
        rt_rejected_records := rt_rejected_records t + word_of_nat (sr_records_rejected report),
        rt_reorgs := (if sr_reorg_detected report then rt_reorgs t + 1 else rt_reorgs t) \<rparr>"

text \<open>
  \<open>RegistryDiscovery::discover\<close>. The cache, when there is one, is its \<open>store_verified\<close>
  operation on the world; its errors are only logged.
\<close>

definition registry_discover ::
  "(bytes \<Rightarrow> b256) \<Rightarrow> 'w registry_provider \<Rightarrow> network_descriptor \<Rightarrow> codec_registry \<Rightarrow> scanner_config \<Rightarrow>
   bytes \<Rightarrow> (namespace \<Rightarrow> peer_candidate list \<Rightarrow> ('w, cache_error, unit) proc) option \<Rightarrow>
   (scan_error \<Rightarrow> string) \<Rightarrow> namespace \<Rightarrow>
   ('w \<times> registry_discovery, bootstrap_error, peer_candidate list) proc"
where
  "registry_discover keccak P descriptor codecs config local_node_id cache error_text ns ws =
     (case ws of (w, s) \<Rightarrow>
      if ns \<noteq> nd_namespace descriptor
      then (Inl (Discovery ''bootstrap namespace differs from descriptor''), (w, s))
      else case scan keccak P codecs config descriptor local_node_id (dv_checkpoint s) w of
        (Inl error, v) \<Rightarrow>
          (Inl (Discovery (error_text error)),
           (v, s\<lparr> dv_telemetry := (dv_telemetry s)
                 \<lparr> rt_scan_failures := rt_scan_failures (dv_telemetry s) + 1 \<rparr> \<rparr>))
      | (Inr report, v) \<Rightarrow>
          let s' = s\<lparr> dv_checkpoint := Some (sr_checkpoint report),
                dv_telemetry := count_scan report (dv_telemetry s) \<rparr>;
              v' = (case cache of None \<Rightarrow> v | Some store \<Rightarrow> snd (store ns (sr_candidates report) v))
          in (Inr (sr_candidates report), (v', s')))"

section \<open>Renewal times\<close>

definition saturating_mul :: "'a::len word \<Rightarrow> 'a word \<Rightarrow> 'a word" where
  "saturating_mul a b = (if unat a * unat b < 2 ^ LENGTH('a) then a * b else - 1)"

text \<open>\<open>random_range(0..=m)\<close>, its choice made by the number \<open>pick\<close>.\<close>

definition random_up_to :: "nat \<Rightarrow> u64 \<Rightarrow> u64" where
  "random_up_to pick m = word_of_nat (pick mod (unat m + 1))"

definition jittered_renewal :: "nat \<Rightarrow> u64 \<Rightarrow> u64 \<Rightarrow> u64" where
  "jittered_renewal pick base ttl =
     (let window = min (min (24 * 60 * 60) (saturating_sub base 1))
                       (saturating_sub (saturating_sub ttl base) 1)
      in if window = 0 then base
         else saturating_add (saturating_sub base window) (random_up_to pick (saturating_mul window 2)))"

lemma unat_random_up_to: "unat (random_up_to pick m) = pick mod (unat m + 1)"
proof -
  have "pick mod (unat m + 1) < unat m + 1" by simp
  moreover have "unat m + 1 \<le> 2 ^ 64" using unat_less_pow [of m] by simp
  ultimately have "pick mod (unat m + 1) < 2 ^ 64" by (rule less_le_trans)
  then show ?thesis by (simp add: random_up_to_def unsigned_of_nat take_bit_nat_eq_self)
qed

lemma unat_min_word: "unat (min a b) = min (unat a) (unat (b :: u64))"
  by (simp add: min_def word_le_nat_alt)

lemma jittered_value:
  assumes "1 \<le> base" and "base < ttl"
  obtains n q where "unat (jittered_renewal pick base ttl) = unat base - n + q" "q \<le> 2 * n"
    "n \<le> 86400" "n < unat base" "unat base + n < unat ttl"
proof -
  let ?b = "unat base" and ?t = "unat ttl"
  define window where "window = min (min (24 * 60 * 60) (saturating_sub base 1))
                       (saturating_sub (saturating_sub ttl base) 1)"
  have b: "1 \<le> ?b" "?b < ?t" using assms by (simp_all add: word_le_nat_alt word_less_nat_alt)
  have tl: "?t < 2 ^ 64" using unat_less_pow [of ttl] by simp
  define n where "n = min (min 86400 (?b - 1)) (?t - ?b - 1)"
  have w: "unat window = n" by (simp add: window_def unat_min_word n_def)
  have nb: "n \<le> 86400" "n < ?b" "?b + n < ?t" using b by (auto simp: n_def)
  have j: "jittered_renewal pick base ttl = (if window = 0 then base
         else saturating_add (saturating_sub base window) (random_up_to pick (saturating_mul window 2)))"
    by (simp add: jittered_renewal_def window_def Let_def)
  show thesis
  proof (cases "window = 0")
    case True
    with nb show thesis by (intro that [of 0 0]) (simp_all add: j)
  next
    case False
    have "unat (saturating_mul window 2) = 2 * n"
      using nb(1) by (simp add: saturating_mul_def w unat_word_ariths)
    moreover define q where "q = pick mod (2 * n + 1)"
    ultimately have r: "unat (random_up_to pick (saturating_mul window 2)) = q"
      by (simp add: unat_random_up_to)
    have rb: "q < 2 * n + 1" by (simp add: q_def)
    have "unat (jittered_renewal pick base ttl) = ?b - n + q"
      using False rb nb tl by (simp add: j r w)
    with rb nb show thesis by (intro that [of n q]) simp_all
  qed
qed

text \<open>
  A renewal is never due at once and never after the expiry it prevents: for a base below the
  lifetime it lies strictly between now and the expiry, within a day of the base and of
  the base's own size. (For a base equal to a lifetime of one second, it is that second.)
\<close>

theorem jittered_renewal_bounds:
  assumes "1 \<le> base" and "base < ttl"
  shows "1 \<le> jittered_renewal pick base ttl \<and> jittered_renewal pick base ttl < ttl \<and>
    unat base - 86400 \<le> unat (jittered_renewal pick base ttl) \<and>
    unat (jittered_renewal pick base ttl) \<le> unat base + 86400 \<and>
    unat (jittered_renewal pick base ttl) < 2 * unat base"
  using assms by (rule jittered_value [where pick = pick]) (auto simp: word_le_nat_alt word_less_nat_alt)

theorem jittered_renewal_bounds_witness:
  "1 \<le> jittered_renewal 5 600 1200 \<and> jittered_renewal 5 600 1200 < 1200"
  using jittered_renewal_bounds [of 600 1200 5] by simp

section \<open>The announcer\<close>

record registry_announcer =
  na_sequence :: u64
  na_next_renewal :: u64
  na_telemetry :: registry_telemetry

record 'sk announcer_config =
  ac_descriptor :: network_descriptor
  ac_keypair :: 'sk
  ac_addresses :: "multiaddr list"
  ac_eligible :: bool
  ac_renewal_interval :: duration

definition new_announcer :: "u64 \<Rightarrow> registry_telemetry \<Rightarrow> registry_announcer" where
  "new_announcer first_sequence telemetry =
     \<lparr> na_sequence = first_sequence, na_next_renewal = 0, na_telemetry = telemetry \<rparr>"

definition renewal_due :: "'sk announcer_config \<Rightarrow> (string + u64) \<Rightarrow> registry_announcer \<Rightarrow> bool" where
  "renewal_due config clock s \<longleftrightarrow>
     ac_eligible config \<and> (case clock of Inl _ \<Rightarrow> False | Inr now \<Rightarrow> na_next_renewal s \<le> now)"

definition eligible :: "'sk announcer_config \<Rightarrow> (string + u64) \<Rightarrow> registry_announcer \<Rightarrow> bool" where
  "eligible config clock s \<longleftrightarrow> ac_eligible config \<and> renewal_due config clock s"

definition check_ttl :: "network_descriptor \<Rightarrow> nat \<Rightarrow> string + u32" where
  "check_ttl descriptor ttl =
     (if 2 ^ 32 \<le> ttl then Inl ''announcement TTL exceeds uint32''
      else if ttl = 0 \<or> unat (rd_max_ttl_seconds (nd_registry descriptor)) < ttl
      then Inl ''announcement TTL is outside registry bounds''
      else Inr (word_of_nat ttl))"

definition check_constants :: "registry_constants \<Rightarrow> network_descriptor \<Rightarrow> string + unit" where
  "check_constants constants descriptor =
     (if rc_version constants \<noteq> RESURRECT_VERSION
         \<or> rc_max_ttl constants \<noteq> MAX_TTL_SECONDS
         \<or> rc_max_ttl constants \<noteq> rd_max_ttl_seconds (nd_registry descriptor)
         \<or> unat (rc_max_record_bytes constants) \<noteq> DEFAULT_MAX_RECORD_BYTES
      then Inl ''deployed registry constants do not match Resurrect v1'' else Inr ())"

text \<open>
  The chain checks that \<open>announce\<close> makes before it signs anything. The texts of the wrapped
  errors are arguments.
\<close>

record error_texts =
  et_provider :: "provider_error \<Rightarrow> string"
  et_descriptor :: "descriptor_error \<Rightarrow> string"
  et_signing :: "signed_peer_record_error \<Rightarrow> string"

definition announce_checks ::
  "'w registry_provider \<Rightarrow> error_texts \<Rightarrow> network_descriptor \<Rightarrow> nat \<Rightarrow> ('w, string, u32) proc"
where
  "announce_checks P texts descriptor ttl_seconds =
     and_then (ensure (RECORD_TYPE_LIBP2P \<in> set (nd_accepted_record_types descriptor))
         ''descriptor does not accept libp2p peer records'') (\<lambda>_.
     and_then (lift_res (check_ttl descriptor ttl_seconds)) (\<lambda>ttl.
     and_then (proc_err (et_provider texts) (rp_chain_id P)) (\<lambda>actual_chain.
     and_then (lift_res (map_err (et_descriptor texts) (verify_chain_id descriptor actual_chain))) (\<lambda>_.
     and_then (proc_err (et_provider texts)
         (rp_registry_constants P (rd_address (nd_registry descriptor)))) (\<lambda>constants.
     and_then (lift_res (check_constants constants descriptor)) (\<lambda>_.
     succeed ttl))))))"

text \<open>
  \<open>RegistryAnnouncer::announce\<close>, its state after the world. The sequence number is taken
  (\<open>fetch_add\<close>, wrapping) before signing, whatever comes of the transaction.
\<close>

definition announce ::
  "multiaddr_lib \<Rightarrow> ('pk, 'sk) libp2p_lib \<Rightarrow> error_texts \<Rightarrow> 'w registry_provider \<Rightarrow> 'sk announcer_config \<Rightarrow>
   (string + u64) \<Rightarrow> nat \<Rightarrow> duration \<Rightarrow> ('w \<times> registry_announcer, bootstrap_error, unit) proc"
where
  "announce mlib lib texts P config clock pick lifetime ws =
     (case ws of (w, s) \<Rightarrow>
      if \<not> ac_eligible config then (Inr (), (w, s))
      else case announce_checks P texts (ac_descriptor config) (unat (as_secs lifetime)) w of
        (Inl error, v) \<Rightarrow> (Inl (AnnouncementFailed error), (v, s))
      | (Inr ttl, v) \<Rightarrow>
          let sequence = na_sequence s; s1 = s\<lparr> na_sequence := na_sequence s + 1 \<rparr>
          in case sign_peer_record mlib lib (ac_keypair config) sequence (ac_addresses config) of
            Inl error \<Rightarrow> (Inl (AnnouncementFailed (et_signing texts error)), (v, s1))
          | Inr record \<Rightarrow>
              (case rp_announce P (rd_address (nd_registry (ac_descriptor config)))
                      (nd_namespace (ac_descriptor config)) RECORD_TYPE_LIBP2P ttl record v of
                 (Inl error, u) \<Rightarrow> (Inl (AnnouncementFailed (et_provider texts error)), (u, s1))
               | (Inr transaction, u) \<Rightarrow>
                   (case clock of
                      Inl error \<Rightarrow> (Inl (AnnouncementFailed error), (u, s1))
                    | Inr now \<Rightarrow>
                        let base_renewal = min (as_secs (ac_renewal_interval config))
                              (max (ucast ttl div 2) 1);
                            renewal_after = jittered_renewal pick base_renewal (ucast ttl)
                        in (Inr (), (u, s1\<lparr> na_next_renewal := saturating_add now renewal_after,
                             na_telemetry := (na_telemetry s1)
                               \<lparr> rt_announcements := rt_announcements (na_telemetry s1) + 1 \<rparr> \<rparr>)))))"

lemma check_ttl_Inr_iff:
  "check_ttl d n = Inr t \<longleftrightarrow> unat t = n \<and> 0 < n \<and> n \<le> unat (rd_max_ttl_seconds (nd_registry d))"
proof -
  have "n < 2 ^ 32 \<Longrightarrow> unat (word_of_nat n :: u32) = n" by (simp add: unsigned_of_nat take_bit_nat_eq_self)
  moreover have "unat (rd_max_ttl_seconds (nd_registry d)) < 2 ^ 32"
    using unat_less_pow [of "rd_max_ttl_seconds (nd_registry d)"] by simp
  ultimately show ?thesis by (auto simp: check_ttl_def not_le word_unat_eq_iff)
qed

lemma check_constants_Inr_iff: "check_constants c d = Inr () \<longleftrightarrow> verify_constants c d = Inr ()"
  by (simp add: check_constants_def verify_constants_def)

lemma verify_chain_id_Inr_iff: "verify_chain_id d c = Inr () \<longleftrightarrow> c = rd_chain_id (nd_registry d)"
  by (auto simp: verify_chain_id_def)

lemma and_then_ensure_Inr_iff:
  "and_then (ensure b e) f w = (Inr y, u) \<longleftrightarrow> b \<and> f () w = (Inr y, u)"
  by (auto simp: and_then_Inr_iff)

lemma and_then_lift_Inr_iff:
  "and_then (lift_res r) f w = (Inr y, u) \<longleftrightarrow> (\<exists>x. r = Inr x \<and> f x w = (Inr y, u))"
  by (auto simp: and_then_Inr_iff)

lemmas and_then_pure_Inr_iff = and_then_ensure_Inr_iff and_then_lift_Inr_iff

lemma and_then_logged_Inr_iff:
  "and_then (proc_err g (logged c m)) f (w, calls) = (Inr y, u) \<longleftrightarrow>
     (\<exists>x. fst (m w) = Inr x \<and> f x (snd (m w), calls @ [c]) = (Inr y, u))"
  by (auto simp: and_then_Inr_iff logged_eq)

definition is_announce :: "provider_call \<Rightarrow> bool" where
  "is_announce q \<longleftrightarrow> (case q of CallAnnounce _ _ _ _ _ \<Rightarrow> True | _ \<Rightarrow> False)"

lemma is_announce_simps [simp]:
  "is_announce (CallAnnounce a ns rt t raw)" "\<not> is_announce CallChainId" "\<not> is_announce (CallConstants a)"
  by (simp_all add: is_announce_def)

lemma announce_checks_observed:
  assumes "announce_checks (observed P) texts d ttl (w, []) = (r, (v, calls))"
  shows "q \<in> set calls \<Longrightarrow> \<not> is_announce q"
    and "r = Inr t \<Longrightarrow> calls = [CallChainId, CallConstants (rd_address (nd_registry d))] \<and>
      unat t = ttl \<and> 0 < ttl \<and> ttl \<le> unat (rd_max_ttl_seconds (nd_registry d)) \<and>
      RECORD_TYPE_LIBP2P \<in> set (nd_accepted_record_types d) \<and>
      fst (rp_chain_id P w) = Inr (rd_chain_id (nd_registry d)) \<and>
      (\<exists>k. fst (rp_registry_constants P (rd_address (nd_registry d)) (snd (rp_chain_id P w))) = Inr k \<and>
         verify_constants k d = Inr ())"
proof -
  have "asks (\<lambda>q. \<not> is_announce q) (announce_checks (observed P) texts d ttl)"
    unfolding announce_checks_def by (auto intro!: asks_intros)
  from asksE [OF this assms] obtain qs where "calls = [] @ qs" "\<And>q. q \<in> set qs \<Longrightarrow> \<not> is_announce q" by blast
  then show "q \<in> set calls \<Longrightarrow> \<not> is_announce q" by simp
next
  assume ok: "r = Inr t"
  obtain a w1 where a: "rp_chain_id P w = (a, w1)" by fastforce
  obtain c w2 where c: "rp_registry_constants P (rd_address (nd_registry d)) w1 = (c, w2)" by fastforce
  from assms ok have run: "announce_checks (observed P) texts d ttl (w, []) = (Inr t, (v, calls))" by simp
  have "RECORD_TYPE_LIBP2P \<in> set (nd_accepted_record_types d) \<and> check_ttl d ttl = Inr t \<and>
    (\<exists>x. a = Inr x \<and> verify_chain_id d x = Inr ()) \<and> (\<exists>k. c = Inr k \<and> check_constants k d = Inr ()) \<and>
    calls = [CallChainId, CallConstants (rd_address (nd_registry d))]"
    using run unfolding announce_checks_def
    by (simp only: and_then_pure_Inr_iff and_then_logged_Inr_iff map_err_Inr_iff observed_simps
        a c fst_conv snd_conv prod.inject succeed_def) auto
  with a c show "calls = [CallChainId, CallConstants (rd_address (nd_registry d))] \<and>
      unat t = ttl \<and> 0 < ttl \<and> ttl \<le> unat (rd_max_ttl_seconds (nd_registry d)) \<and>
      RECORD_TYPE_LIBP2P \<in> set (nd_accepted_record_types d) \<and>
      fst (rp_chain_id P w) = Inr (rd_chain_id (nd_registry d)) \<and>
      (\<exists>k. fst (rp_registry_constants P (rd_address (nd_registry d)) (snd (rp_chain_id P w))) = Inr k \<and>
         verify_constants k d = Inr ())"
    by (auto simp: check_ttl_Inr_iff check_constants_Inr_iff verify_chain_id_Inr_iff)
qed

text \<open>
  C7: the announcer spends gas only as it should. A node that is not configured to publish
  asks nothing. Otherwise at most one transaction is sent, as the last of three calls, to the
  descriptor's registry and namespace, with a positive lifetime within the registry's maximum,
  after the chain id and the deployed constants were verified; it carries the node's own
  record, signed with the announcer's current sequence number, which is thereby used up
  even if the transaction fails.
\<close>

theorem announce_safe:
  assumes "announce mlib lib texts (observed P) config clock pick lifetime ((w, []), s) = (r, ((v, calls), s'))"
    and "d = ac_descriptor config" and "ttl = unat (as_secs lifetime)"
  shows "(\<not> ac_eligible config \<longrightarrow> r = Inr () \<and> calls = [] \<and> s' = s) \<and>
    (\<forall>a ns rt t raw. CallAnnounce a ns rt t raw \<in> set calls \<longrightarrow>
       calls = [CallChainId, CallConstants a, CallAnnounce a ns rt t raw] \<and>
       a = rd_address (nd_registry d) \<and> ns = nd_namespace d \<and> rt = RECORD_TYPE_LIBP2P \<and>
       rt \<in> set (nd_accepted_record_types d) \<and>
       unat t = ttl \<and> 0 < ttl \<and> ttl \<le> unat (rd_max_ttl_seconds (nd_registry d)) \<and>
       fst (rp_chain_id P w) = Inr (rd_chain_id (nd_registry d)) \<and>
       (\<exists>k. fst (rp_registry_constants P a (snd (rp_chain_id P w))) = Inr k \<and> verify_constants k d = Inr ()) \<and>
       sign_peer_record mlib lib (ac_keypair config) (na_sequence s) (ac_addresses config) = Inr raw \<and>
       na_sequence s' = na_sequence s + 1) \<and>
    (r = Inr () \<and> ac_eligible config \<longrightarrow>
       (\<exists>t raw. CallAnnounce (rd_address (nd_registry d)) (nd_namespace d) RECORD_TYPE_LIBP2P t raw \<in> set calls))"
proof (cases "ac_eligible config")
  case False
  with assms show ?thesis by (simp add: announce_def)
next
  case el: True
  obtain c w1 calls1 where c: "announce_checks (observed P) texts d ttl (w, []) = (c, (w1, calls1))"
    by (metis prod.collapse)
  note chk = announce_checks_observed [OF c]
  show ?thesis
  proof (cases c)
    case (Inl e)
    with assms el c have "calls = calls1" "r \<noteq> Inr ()" by (auto simp: announce_def)
    with chk(1) show ?thesis using el is_announce_simps(1) by blast
  next
    case (Inr t)
    note ok = chk(2) [OF Inr]
    show ?thesis
    proof (cases "sign_peer_record mlib lib (ac_keypair config) (na_sequence s) (ac_addresses config)")
      case (Inl e)
      with assms el c Inr have "calls = calls1" "r \<noteq> Inr ()" by (auto simp: announce_def Let_def)
      with chk(1) show ?thesis using el is_announce_simps(1) by blast
    next
      case sig: (Inr raw)
      let ?q = "CallAnnounce (rd_address (nd_registry d)) (nd_namespace d) RECORD_TYPE_LIBP2P t raw"
      from assms el c Inr sig have "calls = calls1 @ [?q]" "na_sequence s' = na_sequence s + 1"
        by (auto simp: announce_def Let_def logged_eq split: sum.splits)
      with ok sig el show ?thesis by auto
    qed
  qed
qed


section \<open>Instances\<close>

text \<open>The provider of the source's tests, which records what is published.\<close>

definition recording_provider :: "u64 \<Rightarrow> u256 \<Rightarrow> registry_constants \<Rightarrow> bytes list registry_provider" where
  "recording_provider now chain_id constants =
     \<lparr> rp_chain_id = succeed chain_id,
       rp_registry_constants = (\<lambda>_. succeed constants),
       rp_block = (\<lambda>_. succeed (Some \<lparr> bi_number = 1, bi_timestamp = now, bi_hash = 0 \<rparr>)),
       rp_announcements = (\<lambda>_ _ _ _. succeed []),
       rp_announce = (\<lambda>_ _ _ _ record published. (Inr 0, published @ [record])) \<rparr>"

definition test_announcer :: "unit announcer_config" where
  "test_announcer =
     \<lparr> ac_descriptor = test_descriptor (Namespace 7), ac_keypair = (),
       ac_addresses = [[Ip4 (ip4 8 8 8 8), Tcp 4001]], ac_eligible = True,
       ac_renewal_interval = from_secs 600 \<rparr>"

text \<open>
  A descriptor that does not list libp2p records lets no announcement through, at any time;
  the checks of the command line do not ask for it.
\<close>

lemma seed_without_libp2p:
  assumes "ac_eligible config" and "RECORD_TYPE_LIBP2P \<notin> set (nd_accepted_record_types (ac_descriptor config))"
  shows "announce mlib lib texts P config clock pick lifetime ws =
    (Inl (AnnouncementFailed ''descriptor does not accept libp2p peer records''), ws)"
  using assms by (cases ws) (simp add: announce_def announce_checks_def proc_defs)

definition test_texts :: error_texts where
  "test_texts = \<lparr> et_provider = (\<lambda>_. ''provider''), et_descriptor = (\<lambda>_. ''descriptor''),
     et_signing = (\<lambda>_. ''signing'') \<rparr>"

lemma test_announces:
  "\<exists>v s'. announce toy_multiaddrs toy_lib test_texts
      (recording_provider 1000 31337 test_registry_constants) test_announcer (Inr 1000) 5 (from_secs 60)
      ([], new_announcer 42 no_telemetry) = (Inr (), (v, s'))"
proof -
  obtain raw where "sign_peer_record toy_multiaddrs toy_lib () 42 [[Ip4 (ip4 8 8 8 8), Tcp 4001]] = Inr raw"
    using toy_signed by blast
  then show ?thesis
    by (simp add: announce_def announce_checks_def test_announcer_def recording_provider_def new_announcer_def
        and_then_def proc_err_def lift_res_def ensure_def succeed_def check_ttl_def verify_chain_id_def
        check_constants_def RESURRECT_VERSION_def DEFAULT_MAX_RECORD_BYTES_def test_descriptor_def MAX_TTL_SECONDS_def as_secs_def from_secs_def Let_def)
qed

lemma test_announces_observed:
  "\<exists>v calls s'. announce toy_multiaddrs toy_lib test_texts
      (observed (recording_provider 1000 31337 test_registry_constants)) test_announcer (Inr 1000) 5 (from_secs 60)
      (([], []), new_announcer 42 no_telemetry) = (Inr (), ((v, calls), s'))"
proof -
  obtain raw where "sign_peer_record toy_multiaddrs toy_lib () 42 [[Ip4 (ip4 8 8 8 8), Tcp 4001]] = Inr raw"
    using toy_signed by blast
  then show ?thesis
    by (simp add: announce_def announce_checks_def test_announcer_def recording_provider_def new_announcer_def
        and_then_def proc_err_def lift_res_def ensure_def succeed_def check_ttl_def verify_chain_id_def
        check_constants_def RESURRECT_VERSION_def DEFAULT_MAX_RECORD_BYTES_def test_descriptor_def MAX_TTL_SECONDS_def as_secs_def from_secs_def Let_def logged_eq)
qed

theorem announce_safe_witness:
  "\<exists>v calls s' t raw. announce toy_multiaddrs toy_lib test_texts
      (observed (recording_provider 1000 31337 test_registry_constants)) test_announcer (Inr 1000) 5 (from_secs 60)
      (([], []), new_announcer 42 no_telemetry) = (Inr (), ((v, calls), s')) \<and>
     calls = [CallChainId, CallConstants 0x0101010101010101010101010101010101010101,
       CallAnnounce 0x0101010101010101010101010101010101010101 (Namespace 7) RECORD_TYPE_LIBP2P t raw]"
proof -
  obtain v calls s' where run: "announce toy_multiaddrs toy_lib test_texts
      (observed (recording_provider 1000 31337 test_registry_constants)) test_announcer (Inr 1000) 5 (from_secs 60)
      (([], []), new_announcer 42 no_telemetry) = (Inr (), ((v, calls), s'))"
    using test_announces_observed by blast
  have "ac_eligible test_announcer" by (simp add: test_announcer_def)
  with announce_safe [OF run refl refl] obtain t raw where
    "CallAnnounce (rd_address (nd_registry (ac_descriptor test_announcer)))
       (nd_namespace (ac_descriptor test_announcer)) RECORD_TYPE_LIBP2P t raw \<in> set calls" by blast
  with announce_safe [OF run refl refl] have "calls = [CallChainId,
      CallConstants (rd_address (nd_registry (ac_descriptor test_announcer))),
      CallAnnounce (rd_address (nd_registry (ac_descriptor test_announcer)))
       (nd_namespace (ac_descriptor test_announcer)) RECORD_TYPE_LIBP2P t raw]" by blast
  with run show ?thesis by (auto simp: test_announcer_def test_descriptor_def)
qed


end
