(* ===== verification/Bootstrap_Morphism.thy ===== *)
theory Bootstrap_Morphism
  imports Bootstrap
begin

text \<open>
  Maps between the worlds of two environments that every interface operation respects: a
  bootstrap cycle respects them too. Two instances: forgetting the observations, so that
  an observed cycle does what the plain one does, and relabelling and extending them, so that
  a component that runs cycles can keep one log of its own.
\<close>

section \<open>The interface\<close>

locale env_morphism =
  fixes h :: "'v \<Rightarrow> 'w"
    and low :: "'v bootstrap_env"
    and high :: "'w bootstrap_env"
  assumes cache_discover: "be_cache_discover high ns (h v) = apsnd h (be_cache_discover low ns v)"
    and native_discover: "be_native_discover high ns (h v) = apsnd h (be_native_discover low ns v)"
    and add_verified_peer: "be_add_verified_peer high p (h v) = apsnd h (be_add_verified_peer low p v)"
    and registry_discover: "be_registry_discover high ns (h v) = apsnd h (be_registry_discover low ns v)"
    and connected_peers: "be_connected_peers high (h v) = apsnd h (be_connected_peers low v)"
    and connect: "be_connect high p t (h v) = h (be_connect low p t v)"
    and next_dial: "be_next_dial high ps (h v) = apsnd h (be_next_dial low ps v)"
    and drop_dials: "be_drop_dials high ps (h v) = h (be_drop_dials low ps v)"
    and eligible: "be_eligible high (h v) = apsnd h (be_eligible low v)"
    and renewal_due: "be_renewal_due high (h v) = apsnd h (be_renewal_due low v)"
    and announce: "be_announce high d (h v) = apsnd h (be_announce low d v)"
begin

lemmas operations = cache_discover native_discover add_verified_peer registry_discover
  connected_peers connect next_dial drop_dials eligible renewal_due announce

lemma foldl_connect:
  "foldl (\<lambda>w p. be_connect high p t w) (h v) ps = h (foldl (\<lambda>w p. be_connect low p t w) v ps)"
  by (induction ps arbitrary: v) (simp_all add: connect)

lemma foldl_add_verified:
  "foldl (\<lambda>w p. snd (be_add_verified_peer high p w)) (h v) ps =
     h (foldl (\<lambda>w p. snd (be_add_verified_peer low p w)) v ps)"
  by (induction ps arbitrary: v) (simp_all add: add_verified_peer)

lemma refill_morphism:
  "refill high policy flying waiting (h v) = apsnd (apsnd h) (refill low policy flying waiting v)"
  by (simp add: refill_def Let_def foldl_connect)

lemma dial_loop_morphism:
  "dial_loop high policy flying waiting (h v) = apsnd h (dial_loop low policy flying waiting v)"
proof (induction "length flying + length waiting" arbitrary: flying waiting v rule: less_induct)
  case less
  obtain fl queued v1 where fill: "refill low policy flying waiting v = (fl, queued, v1)"
    by (metis prod.collapse)
  then have fill': "refill high policy flying waiting (h v) = (fl, queued, h v1)"
    by (simp add: refill_morphism)
  obtain i v2 where i: "be_next_dial low fl v1 = (i, v2)" by fastforce
  obtain n v3 where n: "be_connected_peers low v2 = (n, v3)" by fastforce
  note at = fill fill' i n next_dial connected_peers drop_dials
  show ?case
  proof (cases "fl = []")
    case True
    then show ?thesis by (simp add: dial_loop.simps [of _ policy flying waiting] at)
  next
    case False
    let ?rest = "remove_nth (i mod length fl) fl"
    have "length ?rest + length queued < length flying + length waiting"
      using False refill_lengths [OF fill] by (cases fl) (simp_all add: length_remove_nth)
    from less [OF this, of v3] False show ?thesis
      by (simp add: dial_loop.simps [of _ policy flying waiting] at Let_def)
  qed
qed

lemma dial_found_morphism:
  "dial_found high policy found ts source (h v) = apsnd h (dial_found low policy found ts source v)"
  by (auto simp: dial_found_def dial_candidates_def dial_loop_morphism split: sum.split prod.split bool.split)

lemma add_verified_morphism:
  "add_verified_peers high found (h v) = h (add_verified_peers low found v)"
  by (simp add: add_verified_peers_def foldl_add_verified split: sum.split)

lemma promote_morphism: "promote high policy ts (h v) = apsnd h (promote low policy ts v)"
  by (auto simp: promote_def and_then_def succeed_def eligible announce split: prod.split bool.split sum.split)

lemma run_cycle_morphism: "run_cycle high policy ns (h v) = apsnd h (run_cycle low policy ns v)"
  by (simp add: run_cycle_def operations dial_found_morphism add_verified_morphism promote_morphism
      split_beta)

end

section \<open>Forgetting the observations\<close>

interpretation forget: env_morphism fst "observed_env env" env for env
  by unfold_locales (simp_all add: observed_env_def recorded_def split_beta)

lemma observed_run_cycle:
  "run_cycle env policy ns w =
     apsnd fst (run_cycle (observed_env env) policy ns (w, []))"
  using forget.run_cycle_morphism [of env policy ns "(w, [])"] by simp

section \<open>Logging the events in another log\<close>

definition logged_env :: "(bootstrap_event \<Rightarrow> 'e) \<Rightarrow> 'w bootstrap_env \<Rightarrow> ('w \<times> 'e list) bootstrap_env" where
  "logged_env f env =
     \<lparr> be_cache_discover = (\<lambda>ns. recorded (f \<circ> DiscoveredCache ns) (be_cache_discover env ns)),
       be_native_discover = (\<lambda>ns. recorded (f \<circ> DiscoveredNative ns) (be_native_discover env ns)),
       be_add_verified_peer = (\<lambda>peer. recorded (\<lambda>_. f (AddVerified peer)) (be_add_verified_peer env peer)),
       be_registry_discover = (\<lambda>ns. recorded (f \<circ> DiscoveredRegistry ns) (be_registry_discover env ns)),
       be_connected_peers = recorded (f \<circ> SawConnected) (be_connected_peers env),
       be_connect = (\<lambda>peer timeout (w, es). (be_connect env peer timeout w, es @ [f (DialStarted peer timeout)])),
       be_next_dial = (\<lambda>flying. recorded (\<lambda>i. f (DialFinished (flying ! (i mod length flying))))
          (be_next_dial env flying)),
       be_drop_dials = (\<lambda>peers (w, es). (be_drop_dials env peers w, es @ [f (DialsDropped peers)])),
       be_eligible = recorded (f \<circ> SawEligible) (be_eligible env),
       be_renewal_due = recorded (f \<circ> SawRenewalDue) (be_renewal_due env),
       be_announce = (\<lambda>ttl. recorded (f \<circ> Announced ttl) (be_announce env ttl)) \<rparr>"

interpretation relabel: env_morphism "\<lambda>(w, es). (w, before @ map f es)" "observed_env env" "logged_env f env"
  for before f env
  by unfold_locales (simp_all add: observed_env_def logged_env_def recorded_def split_beta)

lemma logged_run_cycle:
  assumes "run_cycle (logged_env f env) policy ns (w, before) = (r, (v, events))"
  obtains es where "events = before @ map f es" and "cycle_spec policy ns es r"
proof -
  obtain r' v' es where run: "run_cycle (observed_env env) policy ns (w, []) = (r', (v', es))"
    by (metis prod.collapse)
  with relabel.run_cycle_morphism [of f env policy ns before "(w, [])"] assms
  have "r = r'" "events = before @ map f es" by simp_all
  with run_cycle_spec [OF run] that show ?thesis by blast
qed

end
