(* ===== verification/Node_Supervisor.thy ===== *)
theory Node_Supervisor
  imports Node_Registry Bootstrap_Morphism
begin

text \<open>
  \<open>crates/resurrect-node/src/supervisor.rs\<close>: the long-running loop around the bootstrap cycle,
  its retry delays and its status file. One turn of the loop is a function; the loop itself
  may run forever, so it is a partial function, with no value when it never returns. The
  clock, the random number generator, the file system, and the race between a wait and the
  shutdown signal are operations on the outside world.
\<close>

section \<open>Data\<close>

record supervisor_policy =
  sv_bootstrap :: bootstrap_policy
  sv_connected_poll_interval :: duration
  sv_initial_backoff :: duration
  sv_maximum_backoff :: duration
  sv_maintenance_ttl :: duration

definition default_supervisor_policy :: supervisor_policy where
  "default_supervisor_policy =
     \<lparr> sv_bootstrap = default_bootstrap_policy, sv_connected_poll_interval = from_secs 15,
       sv_initial_backoff = from_secs 5, sv_maximum_backoff = from_secs (5 * 60),
       sv_maintenance_ttl = from_secs (30 * 24 * 60 * 60) \<rparr>"

record node_status =
  st_peer_id :: string
  st_state :: bootstrap_state
  st_connected_peers :: nat
  st_connected_via :: "bootstrap_state option"
  st_transitions :: "bootstrap_state list"
  st_registry :: telemetry_snapshot
  st_last_error :: "string option"
  st_updated_at :: u64

datatype supervisor_error = StatusIo string | StatusJson string

section \<open>Retry delays\<close>

definition checked_shl :: "u32 \<Rightarrow> nat \<Rightarrow> u32 option" where
  "checked_shl x n = (if n < 32 then Some (push_bit n x) else None)"

definition exponential_backoff :: "duration \<Rightarrow> duration \<Rightarrow> u32 \<Rightarrow> duration" where
  "exponential_backoff initial maximum attempt =
     (let factor = (case checked_shl 1 (unat (min attempt 20)) of Some f \<Rightarrow> f | None \<Rightarrow> - 1)
      in min (duration_saturating_mul initial (unat factor)) maximum)"

definition backoff_with_jitter :: "nat \<Rightarrow> duration \<Rightarrow> duration \<Rightarrow> u32 \<Rightarrow> duration" where
  "backoff_with_jitter pick initial maximum attempt =
     (let base = exponential_backoff initial maximum attempt;
          lower = base div 2;
          window = base - lower;
          maximum_nanos = (if window < 2 ^ 64 then word_of_nat window else - 1)
      in duration_saturating_add lower (unat (random_up_to pick maximum_nanos)))"

definition supervisor_target :: "bootstrap_policy \<Rightarrow> nat" where
  "supervisor_target policy = max (bp_minimum_successful_peers policy) 1"

lemma supervisor_target_eq: "supervisor_target policy = connection_target policy"
  by (auto simp: supervisor_target_def connection_target_def)

section \<open>The status file\<close>

definition status_unix_time :: "duration option \<Rightarrow> u64" where
  "status_unix_time clock = (case clock of None \<Rightarrow> 0 | Some d \<Rightarrow> as_secs d)"

text \<open>
  The operations of \<open>tokio::fs\<close> that the code calls, errors as their text, and the path and
  JSON libraries.
\<close>

record 'w file_system =
  fs_create_dir_all :: "string \<Rightarrow> ('w, string, unit) proc"
  fs_write :: "string \<Rightarrow> bytes \<Rightarrow> ('w, string, unit) proc"
  fs_rename :: "string \<Rightarrow> string \<Rightarrow> ('w, string, unit) proc"

record path_lib =
  pl_parent :: "string \<Rightarrow> string option"
  pl_with_extension :: "string \<Rightarrow> string \<Rightarrow> string"
  pl_to_json :: "node_status \<Rightarrow> string + bytes"

definition write_atomic_json ::
  "path_lib \<Rightarrow> 'w file_system \<Rightarrow> string \<Rightarrow> node_status \<Rightarrow> ('w, supervisor_error, unit) proc"
where
  "write_atomic_json lib fs path status =
     and_then (case pl_parent lib path of None \<Rightarrow> succeed ()
               | Some parent \<Rightarrow> proc_err StatusIo (fs_create_dir_all fs parent)) (\<lambda>_.
     let temporary = pl_with_extension lib path ''tmp'' in
     and_then (lift_res (map_err StatusJson (pl_to_json lib status))) (\<lambda>bytes.
     and_then (proc_err StatusIo (fs_write fs temporary (bytes @ [10]))) (\<lambda>_.
     proc_err StatusIo (fs_rename fs temporary path))))"

section \<open>The loop\<close>

text \<open>
  The world of the supervisor: the bootstrap interfaces it hands to the controller, and its own
  operations. \<open>se_wait\<close> is \<open>wait_or_shutdown\<close>: it answers whether the shutdown signal won.
  \<open>se_gone\<close> tells of a world whether control never comes back from the turn that led to it: a
  call in it is never answered, or the process was killed. What the operations answer after
  such a point of a turn does not matter, for the run has no value.
\<close>

record 'w supervisor_env =
  se_bootstrap :: "'w bootstrap_env"
  se_telemetry :: "'w \<Rightarrow> telemetry_snapshot \<times> 'w"
  se_unix_time :: "'w \<Rightarrow> u64 \<times> 'w"
  se_random :: "'w \<Rightarrow> nat \<times> 'w"
  se_wait :: "duration \<Rightarrow> 'w \<Rightarrow> bool \<times> 'w"
  se_files :: "'w file_system"
  se_gone :: "'w \<Rightarrow> bool"

record supervisor =
  su_namespace :: namespace
  su_peer_id :: string
  su_policy :: supervisor_policy
  su_status_file :: "string option"
  su_paths :: path_lib
  su_error_text :: "bootstrap_error \<Rightarrow> string"

definition new_supervisor ::
  "namespace \<Rightarrow> string \<Rightarrow> supervisor_policy \<Rightarrow> string option \<Rightarrow> path_lib \<Rightarrow> supervisor"
where
  "new_supervisor ns peer_id policy status_file paths =
     \<lparr> su_namespace = ns, su_peer_id = peer_id, su_policy = policy, su_status_file = status_file,
       su_paths = paths, su_error_text = bootstrap_error_text \<rparr>"

record supervisor_state =
  ss_attempts :: u32
  ss_last_connected_via :: "bootstrap_state option"

definition publish_status :: "'w supervisor_env \<Rightarrow> supervisor \<Rightarrow> node_status \<Rightarrow> ('w, supervisor_error, unit) proc" where
  "publish_status env node status =
     (case su_status_file node of None \<Rightarrow> succeed ()
      | Some path \<Rightarrow> write_atomic_json (su_paths node) (se_files env) path status)"

text \<open>Building and publishing a \<open>NodeStatus\<close>: the telemetry and the clock are read for it.\<close>

definition report_status ::
  "'w supervisor_env \<Rightarrow> supervisor \<Rightarrow> bootstrap_state \<Rightarrow> nat \<Rightarrow> bootstrap_state option \<Rightarrow>
   bootstrap_state list \<Rightarrow> string option \<Rightarrow> ('w, supervisor_error, unit) proc"
where
  "report_status env node state connected via transitions last_error w =
     (case se_telemetry env w of (telemetry, w1) \<Rightarrow>
      case se_unix_time env w1 of (now, w2) \<Rightarrow>
      publish_status env node
        \<lparr> st_peer_id = su_peer_id node, st_state = state, st_connected_peers = connected,
          st_connected_via = via, st_transitions = transitions, st_registry = telemetry,
          st_last_error = last_error, st_updated_at = now \<rparr> w2)"

datatype turn = Stop | Continue supervisor_state

text \<open>The branch of a node that has enough peers.\<close>

definition renew :: "'w supervisor_env \<Rightarrow> supervisor \<Rightarrow> 'w \<Rightarrow> string option \<times> 'w" where
  "renew env node w =
     (case be_renewal_due (se_bootstrap env) w of
        (False, v) \<Rightarrow> (None, v)
      | (True, v) \<Rightarrow>
          (case be_announce (se_bootstrap env) (sv_maintenance_ttl (su_policy node)) v of
             (Inl error, u) \<Rightarrow> (Some (su_error_text node error), u)
           | (Inr (), u) \<Rightarrow> (None, u)))"

definition connected_turn ::
  "'w supervisor_env \<Rightarrow> supervisor \<Rightarrow> nat \<Rightarrow> supervisor_state \<Rightarrow> ('w, supervisor_error, turn) proc"
where
  "connected_turn env node connected s w =
     (case renew env node w of (last_error, w1) \<Rightarrow>
      and_then (report_status env node Connected connected (ss_last_connected_via s) [Connected] last_error)
        (\<lambda>_ w2. case se_wait env (sv_connected_poll_interval (su_policy node)) w2 of
            (True, w3) \<Rightarrow> (Inr Stop, w3)
          | (False, w3) \<Rightarrow> (Inr (Continue (s\<lparr> ss_attempts := 0 \<rparr>)), w3)) w1)"

text \<open>The branch that runs a bootstrap cycle.\<close>

definition retry :: "'w supervisor_env \<Rightarrow> supervisor \<Rightarrow> supervisor_state \<Rightarrow> ('w, supervisor_error, turn) proc" where
  "retry env node s w =
     (case se_random env w of (pick, w1) \<Rightarrow>
      case se_wait env (backoff_with_jitter pick (sv_initial_backoff (su_policy node))
              (sv_maximum_backoff (su_policy node)) (ss_attempts s)) w1 of
        (True, w2) \<Rightarrow> (Inr Stop, w2)
      | (False, w2) \<Rightarrow> (Inr (Continue (s\<lparr> ss_attempts := saturating_add (ss_attempts s) 1 \<rparr>)), w2))"

text \<open>What a cycle's result contributes to the status: state, source, transitions, last error.\<close>

definition cycle_status ::
  "supervisor \<Rightarrow> bootstrap_error + bootstrap_outcome \<Rightarrow>
   bootstrap_state \<times> bootstrap_state option \<times> bootstrap_state list \<times> string option"
where
  "cycle_status node result =
     (case result of
        Inr outcome \<Rightarrow> (bo_state outcome, bo_connected_via outcome, bo_transitions outcome, None)
      | Inl error \<Rightarrow> (Backoff, None, [Backoff], Some (su_error_text node error)))"

definition bootstrap_turn ::
  "'w supervisor_env \<Rightarrow> supervisor \<Rightarrow> supervisor_state \<Rightarrow> ('w, supervisor_error, turn) proc"
where
  "bootstrap_turn env node s w =
     (case run_cycle (se_bootstrap env) (sv_bootstrap (su_policy node)) (su_namespace node) w of (result, w1) \<Rightarrow>
      case cycle_status node result of (state, via, transitions, last_error) \<Rightarrow>
      let s1 = (case via of None \<Rightarrow> s | Some _ \<Rightarrow> s\<lparr> ss_last_connected_via := via \<rparr>)
      in case be_connected_peers (se_bootstrap env) w1 of (connected, w2) \<Rightarrow>
         and_then (report_status env node state connected via transitions last_error)
           (\<lambda>_. if state = Connected then succeed (Continue (s1\<lparr> ss_attempts := 0 \<rparr>))
                else retry env node s1) w2)"

definition supervise_turn ::
  "'w supervisor_env \<Rightarrow> supervisor \<Rightarrow> supervisor_state \<Rightarrow> ('w, supervisor_error, turn) proc"
where
  "supervise_turn env node s w =
     (case be_connected_peers (se_bootstrap env) w of (connected, w1) \<Rightarrow>
      if supervisor_target (sv_bootstrap (su_policy node)) \<le> connected
      then connected_turn env node connected s w1
      else bootstrap_turn env node s w1)"

partial_function (option) supervise ::
  "'w supervisor_env \<Rightarrow> supervisor \<Rightarrow> supervisor_state \<Rightarrow> 'w \<Rightarrow> ((supervisor_error + unit) \<times> 'w) option"
where
  "supervise env node s w =
     (case supervise_turn env node s w of (r, v) \<Rightarrow>
      if se_gone env v then None
      else (case r of
          Inl error \<Rightarrow> Some (Inl error, v)
        | Inr turn \<Rightarrow> (case turn of Stop \<Rightarrow> Some (Inr (), v) | Continue s' \<Rightarrow> supervise env node s' v)))"

definition run_supervisor :: "'w supervisor_env \<Rightarrow> supervisor \<Rightarrow> 'w \<Rightarrow> ((supervisor_error + unit) \<times> 'w) option" where
  "run_supervisor env node = supervise env node \<lparr> ss_attempts = 0, ss_last_connected_via = None \<rparr>"


section \<open>The observed supervisor\<close>

datatype fs_call = CreateDirAll string | WriteFile string bytes | Rename string string

datatype supervisor_event =
    Cycle bootstrap_event
  | File fs_call
  | Waited duration bool

text \<open>An operation that adds nothing to the log.\<close>

definition quiet :: "('w \<Rightarrow> 'a \<times> 'w) \<Rightarrow> 'w \<times> 'e list \<Rightarrow> 'a \<times> 'w \<times> 'e list" where
  "quiet m = (\<lambda>(w, es). case m w of (x, v) \<Rightarrow> (x, (v, es)))"

definition observed_files :: "(fs_call \<Rightarrow> 'e) \<Rightarrow> 'w file_system \<Rightarrow> ('w \<times> 'e list) file_system" where
  "observed_files f fs =
     \<lparr> fs_create_dir_all = (\<lambda>p. logged (f (CreateDirAll p)) (fs_create_dir_all fs p)),
       fs_write = (\<lambda>p b. logged (f (WriteFile p b)) (fs_write fs p b)),
       fs_rename = (\<lambda>p q. logged (f (Rename p q)) (fs_rename fs p q)) \<rparr>"

definition observed_supervisor :: "'w supervisor_env \<Rightarrow> ('w \<times> supervisor_event list) supervisor_env" where
  "observed_supervisor env =
     \<lparr> se_bootstrap = logged_env Cycle (se_bootstrap env), se_telemetry = quiet (se_telemetry env),
       se_unix_time = quiet (se_unix_time env), se_random = quiet (se_random env),
       se_wait = (\<lambda>d. recorded (Waited d) (se_wait env d)),
       se_files = observed_files File (se_files env), se_gone = se_gone env \<circ> fst \<rparr>"

lemma quiet_eq: "quiet m (w, es) = (fst (m w), (snd (m w), es))"
  by (simp add: quiet_def split_beta)

lemma observed_supervisor_simps [simp]:
  "se_bootstrap (observed_supervisor env) = logged_env Cycle (se_bootstrap env)"
  "se_telemetry (observed_supervisor env) (w, es) = (fst (se_telemetry env w), (snd (se_telemetry env w), es))"
  "se_unix_time (observed_supervisor env) (w, es) = (fst (se_unix_time env w), (snd (se_unix_time env w), es))"
  "se_random (observed_supervisor env) (w, es) = (fst (se_random env w), (snd (se_random env w), es))"
  "se_wait (observed_supervisor env) d (w, es) =
     (fst (se_wait env d w), (snd (se_wait env d w), es @ [Waited d (fst (se_wait env d w))]))"
  "se_files (observed_supervisor env) = observed_files File (se_files env)"
  "se_gone (observed_supervisor env) (w, es) = se_gone env w"
  by (simp_all add: observed_supervisor_def quiet_eq recorded_eq)

lemma logged_env_simps [simp]:
  "be_connected_peers (logged_env f env) (w, es) =
     (fst (be_connected_peers env w), (snd (be_connected_peers env w), es @ [f (SawConnected (fst (be_connected_peers env w)))]))"
  "be_renewal_due (logged_env f env) (w, es) =
     (fst (be_renewal_due env w), (snd (be_renewal_due env w), es @ [f (SawRenewalDue (fst (be_renewal_due env w)))]))"
  "be_announce (logged_env f env) d (w, es) =
     (fst (be_announce env d w), (snd (be_announce env d w), es @ [f (Announced d (fst (be_announce env d w)))]))"
  by (simp_all add: logged_env_def recorded_eq)

section \<open>Publishing the status\<close>

text \<open>What a status costs in file-system calls when all goes well, and what is made of them.\<close>

lemma and_then_logged_cases:
  assumes "and_then (proc_err g (logged c m)) k (w, es) = (r, (v, es'))"
  obtains (error) e where "r = Inl e" and "es' = es @ [c]"
    | (ok) x where "k x (snd (m w), es @ [c]) = (r, (v, es'))"
  using assms by (cases "fst (m w)") (auto simp: and_then_def proc_err_def logged_eq)

lemma logged_last_cases:
  assumes "proc_err g (logged c m) (w, es) = (r, (v, es'))"
  shows "es' = es @ [c]"
  using assms by (simp add: proc_err_def logged_eq)

text \<open>The last two calls of \<open>write_atomic_json\<close>, after the directory exists.\<close>

definition replace_file ::
  "path_lib \<Rightarrow> 'w file_system \<Rightarrow> string \<Rightarrow> node_status \<Rightarrow> ('w, supervisor_error, unit) proc"
where
  "replace_file lib fs path status =
     and_then (lift_res (map_err StatusJson (pl_to_json lib status))) (\<lambda>bytes.
     and_then (proc_err StatusIo (fs_write fs (pl_with_extension lib path ''tmp'') (bytes @ [10]))) (\<lambda>_.
     proc_err StatusIo (fs_rename fs (pl_with_extension lib path ''tmp'') path)))"

definition replace_calls :: "path_lib \<Rightarrow> string \<Rightarrow> node_status \<Rightarrow> fs_call list" where
  "replace_calls lib path status =
     (case pl_to_json lib status of Inl _ \<Rightarrow> []
      | Inr bytes \<Rightarrow> [WriteFile (pl_with_extension lib path ''tmp'') (bytes @ [10]),
          Rename (pl_with_extension lib path ''tmp'') path])"

text \<open>The calls of \<open>m\<close> are a prefix of \<open>calls\<close>, and all of them if it succeeds.\<close>

definition follows :: "(fs_call \<Rightarrow> 'e) \<Rightarrow> fs_call list \<Rightarrow> bool \<Rightarrow> 'e list \<Rightarrow> bool" where
  "follows f calls ok es \<longleftrightarrow> (\<exists>n. es = map f (take n calls)) \<and> (ok \<longrightarrow> es = map f calls)"

lemma follows_all: "follows f calls ok (map f calls)"
  unfolding follows_def by (metis take_all_iff order_refl)

lemma follows_some: "follows f calls False (map f (take n calls))"
  unfolding follows_def by blast

lemma follows_Cons: "follows f calls ok es \<Longrightarrow> follows f (c # calls) ok (f c # es)"
  unfolding follows_def by (metis list.simps(9) take_Suc_Cons)

lemma replace_file_calls:
  assumes "replace_file lib (observed_files f fs) path status (w, es) = (r, (v, es'))"
  shows "\<exists>new. es' = es @ new \<and> follows f (replace_calls lib path status) (r = Inr ()) new \<and>
    (r = Inr () \<longrightarrow> (\<exists>bytes. pl_to_json lib status = Inr bytes))"
proof (cases "pl_to_json lib status")
  case (Inl e)
  with assms show ?thesis
    by (auto simp: replace_file_def and_then_def lift_res_def replace_calls_def follows_def)
next
  case (Inr b)
  let ?tmp = "pl_with_extension lib path ''tmp''"
  let ?calls = "replace_calls lib path status"
  have calls: "?calls = [WriteFile ?tmp (b @ [10]), Rename ?tmp path]"
    using Inr by (simp add: replace_calls_def)
  from assms Inr have "and_then (proc_err StatusIo (logged (f (WriteFile ?tmp (b @ [10]))) (fs_write fs ?tmp (b @ [10]))))
      (\<lambda>_. proc_err StatusIo (logged (f (Rename ?tmp path)) (fs_rename fs ?tmp path))) (w, es) = (r, (v, es'))"
    by (simp add: replace_file_def observed_files_def and_then_def lift_res_def)
  then show ?thesis
  proof (cases rule: and_then_logged_cases)
    case (error e)
    with follows_some [of f ?calls 1] show ?thesis by (simp add: calls)
  next
    case (ok x)
    from logged_last_cases [OF this] follows_all [of f ?calls "r = Inr ()"] Inr
    show ?thesis by (simp add: calls)
  qed
qed

definition status_calls :: "path_lib \<Rightarrow> string \<Rightarrow> node_status \<Rightarrow> fs_call list" where
  "status_calls lib path status =
     (case pl_parent lib path of None \<Rightarrow> [] | Some parent \<Rightarrow> [CreateDirAll parent]) @
     replace_calls lib path status"

lemma write_atomic_json_split:
  "write_atomic_json lib fs path status =
     and_then (case pl_parent lib path of None \<Rightarrow> succeed ()
               | Some parent \<Rightarrow> proc_err StatusIo (fs_create_dir_all fs parent))
       (\<lambda>_. replace_file lib fs path status)"
  by (simp add: write_atomic_json_def replace_file_def Let_def)

lemma write_atomic_json_calls:
  assumes "write_atomic_json lib (observed_files f fs) path status (w, es) = (r, (v, es'))"
  shows "\<exists>new. es' = es @ new \<and> follows f (status_calls lib path status) (r = Inr ()) new \<and>
    (r = Inr () \<longrightarrow> (\<exists>bytes. pl_to_json lib status = Inr bytes))"
proof (cases "pl_parent lib path")
  case None
  with assms have "replace_file lib (observed_files f fs) path status (w, es) = (r, (v, es'))"
    by (simp add: write_atomic_json_split and_then_def succeed_def)
  from replace_file_calls [OF this] None show ?thesis by (simp add: status_calls_def)
next
  case (Some parent)
  let ?calls = "status_calls lib path status"
  have calls: "?calls = CreateDirAll parent # replace_calls lib path status"
    using Some by (simp add: status_calls_def)
  from assms Some have "and_then (proc_err StatusIo (logged (f (CreateDirAll parent)) (fs_create_dir_all fs parent)))
      (\<lambda>_. replace_file lib (observed_files f fs) path status) (w, es) = (r, (v, es'))"
    by (simp add: write_atomic_json_split observed_files_def)
  then show ?thesis
  proof (cases rule: and_then_logged_cases)
    case (error e)
    with follows_some [of f ?calls 1] show ?thesis by (simp add: calls)
  next
    case (ok x)
    from replace_file_calls [OF this] follows_Cons show ?thesis unfolding calls by fastforce
  qed
qed

definition published :: "supervisor \<Rightarrow> node_status \<Rightarrow> supervisor_event list \<Rightarrow> supervisor_error + unit \<Rightarrow> bool" where
  "published node status es r \<longleftrightarrow>
     (case su_status_file node of None \<Rightarrow> es = [] \<and> r = Inr ()
      | Some path \<Rightarrow>
         follows File (status_calls (su_paths node) path status) (r = Inr ()) es \<and>
         (r = Inr () \<longrightarrow> (\<exists>bytes. pl_to_json (su_paths node) status = Inr bytes)))"

lemma publish_status_observed:
  assumes "publish_status (observed_supervisor env) node status (w, es) = (r, (v, es'))"
  obtains pub where "es' = es @ pub" and "published node status pub r"
proof (cases "su_status_file node")
  case None
  with assms that [of "[]"] show ?thesis by (simp add: publish_status_def succeed_def published_def)
next
  case (Some path)
  with assms write_atomic_json_calls [of "su_paths node" File "se_files env" path status w es r v es'] that
  show ?thesis by (auto simp: publish_status_def published_def)
qed

section \<open>Atomic replacement\<close>

text \<open>
  Files as a map from paths to contents. A call that completes has its whole effect; one that
  fails, or that the process dies in, may have had none of it, all of it, or, for a write, have
  left any prefix of the contents. The next call is made only once the last one completed.
\<close>

type_synonym files = "string \<rightharpoonup> bytes"

fun fs_done :: "fs_call \<Rightarrow> files \<Rightarrow> files" where
  "fs_done (CreateDirAll p) m = m"
| "fs_done (WriteFile p b) m = m(p \<mapsto> b)"
| "fs_done (Rename p q) m = (if p = q then m else m(q := m p, p := None))"

inductive fs_may :: "fs_call \<Rightarrow> files \<Rightarrow> files \<Rightarrow> bool" where
  nothing: "fs_may c m m"
| completed: "fs_may c m (fs_done c m)"
| torn: "fs_may (WriteFile p b) m (m(p \<mapsto> take n b))"

inductive fs_states :: "fs_call list \<Rightarrow> files \<Rightarrow> files \<Rightarrow> bool" where
  at_rest: "fs_states cs m m"
| during: "fs_may c m m' \<Longrightarrow> fs_states (c # cs) m m'"
| after: "fs_states cs (fs_done c m) m' \<Longrightarrow> fs_states (c # cs) m m'"

inductive_simps fs_states_Nil [simp]: "fs_states [] m m'"
inductive_simps fs_states_Cons: "fs_states (c # cs) m m'"
inductive_simps fs_may_dir [simp]: "fs_may (CreateDirAll p) m m'"
inductive_simps fs_may_write: "fs_may (WriteFile p b) m m'"
inductive_simps fs_may_rename: "fs_may (Rename p q) m m'"

lemma fs_states_take: "fs_states (take n cs) m m' \<Longrightarrow> fs_states cs m m'"
proof (induction cs arbitrary: n m)
  case Nil
  then show ?case by simp
next
  case (Cons c cs)
  then show ?case by (cases n) (auto simp: fs_states_Cons fs_states.at_rest)
qed

lemma replace_calls_states:
  assumes "fs_states (replace_calls lib path status) m m'" and "pl_with_extension lib path ''tmp'' \<noteq> path"
  shows "m' path = m path \<or> (\<exists>bytes. pl_to_json lib status = Inr bytes \<and> m' path = Some (bytes @ [10]))"
    and "q \<noteq> path \<Longrightarrow> q \<noteq> pl_with_extension lib path ''tmp'' \<Longrightarrow> m' q = m q"
  using assms
  by (auto simp: replace_calls_def fs_states_Cons fs_may_write fs_may_rename split: sum.splits)

text \<open>
  C40: a status file is replaced atomically, if its name is not itself that of the temporary
  file: at every moment while a status is written, whatever fails and wherever the
  process dies, the file has its old contents or the complete new JSON text with its newline,
  and no file but it and its temporary is touched; success means that it has the new text.
\<close>

theorem status_file_atomic:
  assumes "write_atomic_json lib (observed_files id fs) path status (w, []) = (r, (v, calls))"
    and "fs_states calls before now" and "pl_with_extension lib path ''tmp'' \<noteq> path"
  shows "(now path = before path \<or>
       (\<exists>bytes. pl_to_json lib status = Inr bytes \<and> now path = Some (bytes @ [10]))) \<and>
    (\<forall>q. q \<noteq> path \<and> q \<noteq> pl_with_extension lib path ''tmp'' \<longrightarrow> now q = before q) \<and>
    (r = Inr () \<longrightarrow> (\<exists>bytes. pl_to_json lib status = Inr bytes \<and>
       fold fs_done calls before path = Some (bytes @ [10])))"
proof -
  from write_atomic_json_calls [OF assms(1)]
  have f: "follows id (status_calls lib path status) (r = Inr ()) calls"
    and json: "r = Inr () \<Longrightarrow> \<exists>b. pl_to_json lib status = Inr b" by auto
  from f obtain n where n: "calls = take n (status_calls lib path status)"
    unfolding follows_def list.map_id by blast
  have ok: "calls = status_calls lib path status" if "r = Inr ()"
    using f that by (simp add: follows_def)
  from assms(2) n have "fs_states (status_calls lib path status) before now" using fs_states_take by blast
  then have "fs_states (replace_calls lib path status) before now"
    by (auto simp: status_calls_def fs_states_Cons fs_states.at_rest split: option.splits)
  note states = replace_calls_states [OF this assms(3)]
  have "fold fs_done calls before path = Some (b @ [10])"
    if "r = Inr ()" "pl_to_json lib status = Inr b" for b
    using that ok assms(3) by (auto simp: status_calls_def replace_calls_def split: option.splits)
  with states json show ?thesis by blast
qed

text \<open>A file system in memory.\<close>

definition memory_files :: "files file_system" where
  "memory_files =
     \<lparr> fs_create_dir_all = (\<lambda>_. succeed ()),
       fs_write = (\<lambda>p b m. (Inr (), fs_done (WriteFile p b) m)),
       fs_rename = (\<lambda>p q m. (Inr (), fs_done (Rename p q) m)) \<rparr>"

definition test_paths :: path_lib where
  "test_paths = \<lparr> pl_parent = (\<lambda>_. Some ''run''), pl_with_extension = (\<lambda>p e. p @ ''.'' @ e),
     pl_to_json = (\<lambda>_. Inr [123, 125]) \<rparr>"

definition test_status :: node_status where
  "test_status = \<lparr> st_peer_id = ''12D3'', st_state = Backoff, st_connected_peers = 0, st_connected_via = None,
     st_transitions = [Backoff], st_registry = snapshot no_telemetry, st_last_error = None, st_updated_at = 1000 \<rparr>"

lemma test_write:
  "write_atomic_json test_paths (observed_files id memory_files) ''run/status'' test_status (Map.empty, []) =
     (Inr (), ((Map.empty(''run/status.tmp'' \<mapsto> [123, 125, 10]))(''run/status'' \<mapsto> [123, 125, 10],
         ''run/status.tmp'' := None),
       [CreateDirAll ''run'', WriteFile ''run/status.tmp'' [123, 125, 10],
        Rename ''run/status.tmp'' ''run/status'']))"
  by (simp add: write_atomic_json_def test_paths_def memory_files_def observed_files_def and_then_def
      proc_err_def lift_res_def logged_eq succeed_def Let_def fun_eq_iff)

theorem status_file_atomic_witness:
  "fold fs_done [CreateDirAll ''run'', WriteFile ''run/status.tmp'' [123, 125, 10],
        Rename ''run/status.tmp'' ''run/status''] Map.empty ''run/status'' = Some [123, 125, 10]"
proof -
  have "pl_with_extension test_paths ''run/status'' ''tmp'' \<noteq> ''run/status''"
    by (simp add: test_paths_def)
  from status_file_atomic [OF test_write fs_states.at_rest this, of Map.empty] show ?thesis
    by (auto simp: test_paths_def)
qed

end
