(* ===== verification/Supervisor_Runs.thy ===== *)
theory Supervisor_Runs
  imports Node_Supervisor
begin

text \<open>
  What the supervisor's loop does (\<open>crates/resurrect-node/src/supervisor.rs\<close>): the retry delays,
  a specification of its turns and runs as relations over their observable events, and when
  it returns.
\<close>

section \<open>Retry delays\<close>

lemma exponential_backoff_value:
  assumes "maximum \<le> duration_max"
  shows "exponential_backoff initial maximum attempt = min (initial * 2 ^ min (unat attempt) 20) maximum"
proof -
  have m: "unat (min attempt 20) = min (unat attempt) 20" by (simp add: min_def word_le_nat_alt)
  have "(2 :: nat) ^ min (unat attempt) 20 \<le> 2 ^ 20" by (rule power_increasing) simp_all
  then have "(2 :: nat) ^ min (unat attempt) 20 < 2 ^ 32" by (rule le_less_trans) simp
  then have "unat (word_of_nat (2 ^ min (unat attempt) 20) :: u32) = 2 ^ min (unat attempt) 20"
    by (simp only: unsigned_of_nat take_bit_nat_eq_self len_num1 len_num0 len_bit0) (simp add: take_bit_nat_eq_self)
  then have "unat (push_bit (min (unat attempt) 20) (1 :: u32)) = 2 ^ min (unat attempt) 20"
    by (simp add: push_bit_eq_mult)
  moreover have "min (unat attempt) 20 < 32" by simp
  ultimately have "exponential_backoff initial maximum attempt =
      min (min (initial * 2 ^ min (unat attempt) 20) duration_max) maximum"
    by (simp only: exponential_backoff_def checked_shl_def duration_saturating_mul_def m Let_def
        if_True option.case)
  with assms show ?thesis by (simp add: min.assoc min.absorb2)
qed

lemma backoff_with_jitter_value:
  assumes base: "base = exponential_backoff initial maximum attempt"
  shows "\<exists>m \<le> base - base div 2.
      backoff_with_jitter pick initial maximum attempt = base div 2 + pick mod (m + 1) \<and>
      (base < 2 ^ 64 \<longrightarrow> m = base - base div 2)"
proof -
  define w where "w = base - base div 2"
  define limit where "limit = (if w < 2 ^ 64 then word_of_nat w else - 1 :: u64)"
  have w: "base div 2 + w = base" by (simp add: w_def)
  have m: "unat limit \<le> w" "w < 2 ^ 64 \<longrightarrow> unat limit = w"
    by (auto simp: limit_def unsigned_of_nat take_bit_nat_eq_self unsigned_minus_1_eq_mask mask_eq_exp_minus_1)
  have "base \<le> duration_max" using base by (simp add: exponential_backoff_def duration_saturating_mul_def Let_def min.coboundedI1)
  moreover have "pick mod (unat limit + 1) \<le> w" using m(1) mod_less_divisor [of "unat limit + 1" pick] by linarith
  ultimately have "base div 2 + pick mod (unat limit + 1) \<le> duration_max" using w by linarith
  then have "backoff_with_jitter pick initial maximum attempt = base div 2 + pick mod (unat limit + 1)"
    by (simp only: backoff_with_jitter_def base [symmetric] w_def [symmetric] limit_def [symmetric] Let_def
        duration_saturating_add_def unat_random_up_to min.absorb1)
  with m w show ?thesis unfolding w_def [symmetric] by (intro exI [of _ "unat limit"]) auto
qed

lemma backoff_with_jitter_range:
  "exponential_backoff initial maximum attempt div 2 \<le> backoff_with_jitter pick initial maximum attempt"
  "backoff_with_jitter pick initial maximum attempt \<le> exponential_backoff initial maximum attempt"
proof -
  let ?base = "exponential_backoff initial maximum attempt"
  obtain m where m: "m \<le> ?base - ?base div 2"
    "backoff_with_jitter pick initial maximum attempt = ?base div 2 + pick mod (m + 1)"
    using backoff_with_jitter_value [OF refl] by blast
  have "pick mod (m + 1) \<le> m" using mod_less_divisor [of "m + 1" pick] by linarith
  with m show "?base div 2 \<le> backoff_with_jitter pick initial maximum attempt"
    "backoff_with_jitter pick initial maximum attempt \<le> ?base" by linarith+
qed

text \<open>
  The retry delays. The delay before jitter doubles with each failed attempt from the initial
  one, up to twenty times and up to the maximum, so it never shrinks as attempts add up; the
  delay waited lies between half of it and all of it, and every value in between is possible
  (the delay before jitter being below \<open>2 ^ 64\<close> nanoseconds, 584 years).
\<close>

theorem retry_delays:
  assumes "maximum \<le> duration_max"
  shows "exponential_backoff initial maximum attempt = min (initial * 2 ^ min (unat attempt) 20) maximum \<and>
    (attempt \<le> later \<longrightarrow>
       exponential_backoff initial maximum attempt \<le> exponential_backoff initial maximum later) \<and>
    exponential_backoff initial maximum attempt div 2 \<le> backoff_with_jitter pick initial maximum attempt \<and>
    backoff_with_jitter pick initial maximum attempt \<le> exponential_backoff initial maximum attempt \<and>
    (\<forall>d. exponential_backoff initial maximum attempt < 2 ^ 64 \<and>
         exponential_backoff initial maximum attempt div 2 \<le> d \<and>
         d \<le> exponential_backoff initial maximum attempt \<longrightarrow>
       (\<exists>choice. backoff_with_jitter choice initial maximum attempt = d))"
proof -
  let ?base = "exponential_backoff initial maximum"
  have mono: "?base attempt \<le> ?base later" if "attempt \<le> later"
  proof -
    have "min (unat attempt) 20 \<le> min (unat later) 20" using that by (auto simp: word_le_nat_alt)
    then have "initial * 2 ^ min (unat attempt) 20 \<le> initial * 2 ^ min (unat later) 20"
      by (intro mult_le_mono2 power_increasing) simp_all
    then show ?thesis unfolding exponential_backoff_value [OF assms] by (rule min.mono) simp
  qed
  have "backoff_with_jitter (d - ?base attempt div 2) initial maximum attempt = d"
    if "?base attempt < 2 ^ 64" "?base attempt div 2 \<le> d" "d \<le> ?base attempt" for d
    using backoff_with_jitter_value [OF refl, of initial maximum attempt "d - ?base attempt div 2"] that by auto
  with backoff_with_jitter_range mono exponential_backoff_value [OF assms] show ?thesis by blast
qed

theorem retry_delays_witness:
  "exponential_backoff 2000000000 9000000000 2 = 8000000000 \<and>
   exponential_backoff 2000000000 9000000000 2 div 2 \<le> backoff_with_jitter 77 2000000000 9000000000 2"
proof -
  have le: "(9000000000 :: duration) \<le> duration_max" by (simp add: from_secs_def duration_max_def)
  have "min (2000000000 * 2 ^ min (unat (2 :: u32)) 20) 9000000000 = (8000000000 :: nat)" by simp
  with retry_delays [OF le, of 2000000000 2 2 77] show ?thesis by (metis (no_types))
qed

section \<open>Turns\<close>

text \<open>The renewal of a node with enough peers, and a status with the values given.\<close>

definition renewed :: "supervisor \<Rightarrow> supervisor_event list \<Rightarrow> string option \<Rightarrow> bool" where
  "renewed node es last_error \<longleftrightarrow>
     es = [Cycle (SawRenewalDue False)] \<and> last_error = None \<or>
     (\<exists>answer. es = [Cycle (SawRenewalDue True),
          Cycle (Announced (sv_maintenance_ttl (su_policy node)) answer)] \<and>
        last_error = (case answer of Inl e \<Rightarrow> Some (su_error_text node e) | Inr _ \<Rightarrow> None))"

definition reported ::
  "supervisor \<Rightarrow> bootstrap_state \<Rightarrow> nat \<Rightarrow> bootstrap_state option \<Rightarrow> bootstrap_state list \<Rightarrow>
   string option \<Rightarrow> supervisor_event list \<Rightarrow> supervisor_error + unit \<Rightarrow> bool"
where
  "reported node state connected via transitions last_error es r \<longleftrightarrow>
     (\<exists>telemetry now. published node
        \<lparr> st_peer_id = su_peer_id node, st_state = state, st_connected_peers = connected,
          st_connected_via = via, st_transitions = transitions, st_registry = telemetry,
          st_last_error = last_error, st_updated_at = now \<rparr> es r)"

abbreviation base_delay :: "supervisor \<Rightarrow> u32 \<Rightarrow> duration" where
  "base_delay node attempts \<equiv> exponential_backoff (sv_initial_backoff (su_policy node))
     (sv_maximum_backoff (su_policy node)) attempts"

abbreviation target :: "supervisor \<Rightarrow> nat" where
  "target node \<equiv> connection_target (sv_bootstrap (su_policy node))"

text \<open>
  One turn: look at the connections. With enough of them, renew if due, report, wait for the poll
  interval and forget failed attempts. Otherwise run one cycle and report it; once it is
  connected turn again at once, else wait for a jittered delay that grows with the attempts.
\<close>

inductive turn_spec :: "supervisor \<Rightarrow> supervisor_state \<Rightarrow> supervisor_event list \<Rightarrow>
    supervisor_error + turn \<Rightarrow> bool" for node s where
  renewal_unreported: "target node \<le> n \<Longrightarrow> renewed node ren err \<Longrightarrow>
    reported node Connected n (ss_last_connected_via s) [Connected] err pub (Inl e) \<Longrightarrow>
    turn_spec node s (Cycle (SawConnected n) # ren @ pub) (Inl e)"
| idle: "target node \<le> n \<Longrightarrow> renewed node ren err \<Longrightarrow>
    reported node Connected n (ss_last_connected_via s) [Connected] err pub (Inr ()) \<Longrightarrow>
    turn_spec node s
      (Cycle (SawConnected n) # ren @ pub @ [Waited (sv_connected_poll_interval (su_policy node)) stop])
      (Inr (if stop then Stop else Continue (s\<lparr> ss_attempts := 0 \<rparr>)))"
| cycle_unreported: "n < target node \<Longrightarrow>
    cycle_spec (sv_bootstrap (su_policy node)) (su_namespace node) es result \<Longrightarrow>
    cycle_status node result = (state, via, path, err) \<Longrightarrow>
    reported node state m via path err pub (Inl e) \<Longrightarrow>
    turn_spec node s (Cycle (SawConnected n) # map Cycle es @ Cycle (SawConnected m) # pub) (Inl e)"
| cycle_connected: "n < target node \<Longrightarrow>
    cycle_spec (sv_bootstrap (su_policy node)) (su_namespace node) es result \<Longrightarrow>
    cycle_status node result = (Connected, Some source, path, None) \<Longrightarrow>
    reported node Connected m (Some source) path None pub (Inr ()) \<Longrightarrow>
    turn_spec node s (Cycle (SawConnected n) # map Cycle es @ Cycle (SawConnected m) # pub)
      (Inr (Continue (s\<lparr> ss_last_connected_via := Some source, ss_attempts := 0 \<rparr>)))"
| cycle_retried: "n < target node \<Longrightarrow>
    cycle_spec (sv_bootstrap (su_policy node)) (su_namespace node) es result \<Longrightarrow>
    cycle_status node result = (Backoff, None, path, err) \<Longrightarrow>
    reported node Backoff m None path err pub (Inr ()) \<Longrightarrow>
    base_delay node (ss_attempts s) div 2 \<le> d \<Longrightarrow> d \<le> base_delay node (ss_attempts s) \<Longrightarrow>
    turn_spec node s
      (Cycle (SawConnected n) # map Cycle es @ Cycle (SawConnected m) # pub @ [Waited d stop])
      (Inr (if stop then Stop
            else Continue (s\<lparr> ss_attempts := saturating_add (ss_attempts s) 1 \<rparr>)))"

lemma cycle_status_cases:
  assumes "cycle_spec policy ns es result" and "cycle_status node result = (state, via, path, err)"
  obtains source where "state = Connected" and "via = Some source" and "err = None"
    | "state = Backoff" and "via = None"
  using assms by (cases rule: cycle_spec.cases) (auto simp: cycle_status_def connected_outcome_def)

lemma renew_observed:
  assumes "renew (observed_supervisor env) node (w, es) = (err, (v, es'))"
  shows "\<exists>ren. es' = es @ ren \<and> renewed node ren err"
proof (cases "fst (be_renewal_due (se_bootstrap env) w)")
  case False
  with assms show ?thesis by (auto simp: renew_def renewed_def)
next
  case True
  let ?ttl = "sv_maintenance_ttl (su_policy node)"
  let ?answer = "fst (be_announce (se_bootstrap env) ?ttl (snd (be_renewal_due (se_bootstrap env) w)))"
  from True assms have "es' = es @ [Cycle (SawRenewalDue True), Cycle (Announced ?ttl ?answer)]"
    "err = (case ?answer of Inl e \<Rightarrow> Some (su_error_text node e) | Inr _ \<Rightarrow> None)"
    by (simp_all add: renew_def split: sum.splits unit.splits)
  then show ?thesis unfolding renewed_def by blast
qed

lemma report_status_observed:
  assumes "report_status (observed_supervisor env) node state m via path err (w, es) = (r, (v, es'))"
  obtains pub where "es' = es @ pub" and "reported node state m via path err pub r"
proof -
  from assms have "publish_status (observed_supervisor env) node
      \<lparr> st_peer_id = su_peer_id node, st_state = state, st_connected_peers = m,
        st_connected_via = via, st_transitions = path, st_registry = fst (se_telemetry env w),
        st_last_error = err, st_updated_at = fst (se_unix_time env (snd (se_telemetry env w))) \<rparr>
      (snd (se_unix_time env (snd (se_telemetry env w))), es) = (r, (v, es'))"
    by (simp add: report_status_def)
  from publish_status_observed [OF this] that show ?thesis unfolding reported_def by blast
qed

lemma connected_turn_observed:
  assumes "connected_turn (observed_supervisor env) node n s (w, es @ [Cycle (SawConnected n)]) = (r, (v, es'))"
    and "target node \<le> n"
  shows "\<exists>new. es' = es @ new \<and> turn_spec node s new r"
proof -
  obtain err w1 es1 where ren: "renew (observed_supervisor env) node (w, es @ [Cycle (SawConnected n)]) = (err, (w1, es1))"
    by (metis prod.collapse)
  from renew_observed [OF this] obtain ren where r: "es1 = es @ Cycle (SawConnected n) # ren" "renewed node ren err"
    by auto
  obtain a w2 es2 where rep: "report_status (observed_supervisor env) node Connected n
      (ss_last_connected_via s) [Connected] err (w1, es1) = (a, (w2, es2))" by (metis prod.collapse)
  from report_status_observed [OF this] obtain pub where p: "es2 = es1 @ pub"
    "reported node Connected n (ss_last_connected_via s) [Connected] err pub a" by blast
  show ?thesis
  proof (cases a)
    case (Inl e)
    with assms(1) ren rep r p have "r = Inl e" "es' = es @ Cycle (SawConnected n) # ren @ pub"
      by (simp_all add: connected_turn_def and_then_def)
    with turn_spec.renewal_unreported [OF assms(2) r(2) p(2) [unfolded Inl]] show ?thesis by blast
  next
    case (Inr u)
    let ?wait = "se_wait env (sv_connected_poll_interval (su_policy node)) w2"
    from Inr assms(1) ren rep r p have "r = Inr (if fst ?wait then Stop else Continue (s\<lparr> ss_attempts := 0 \<rparr>))"
      "es' = es @ Cycle (SawConnected n) # ren @ pub @ [Waited (sv_connected_poll_interval (su_policy node)) (fst ?wait)]"
      by (simp_all add: connected_turn_def and_then_def split: bool.splits)
    moreover have "reported node Connected n (ss_last_connected_via s) [Connected] err pub (Inr ())"
      using p(2) Inr by simp
    ultimately show ?thesis using turn_spec.idle [OF assms(2) r(2)] by blast
  qed
qed

lemma retry_observed:
  assumes "retry (observed_supervisor env) node s (w, es) = (r, (v, es'))"
  obtains d stop where "es' = es @ [Waited d stop]"
    and "base_delay node (ss_attempts s) div 2 \<le> d" and "d \<le> base_delay node (ss_attempts s)"
    and "r = Inr (if stop then Stop else Continue (s\<lparr> ss_attempts := saturating_add (ss_attempts s) 1 \<rparr>))"
proof -
  let ?d = "backoff_with_jitter (fst (se_random env w)) (sv_initial_backoff (su_policy node))
      (sv_maximum_backoff (su_policy node)) (ss_attempts s)"
  let ?stop = "fst (se_wait env ?d (snd (se_random env w)))"
  from assms have "es' = es @ [Waited ?d ?stop]"
    "r = Inr (if ?stop then Stop else Continue (s\<lparr> ss_attempts := saturating_add (ss_attempts s) 1 \<rparr>))"
    by (simp_all add: retry_def split: bool.splits)
  from that [OF this(1) backoff_with_jitter_range this(2)] show ?thesis .
qed

lemma bootstrap_turn_observed:
  assumes "bootstrap_turn (observed_supervisor env) node s (w, es @ [Cycle (SawConnected n)]) = (r, (v, es'))"
    and "n < target node"
  shows "\<exists>new. es' = es @ new \<and> turn_spec node s new r"
proof -
  let ?policy = "sv_bootstrap (su_policy node)"
  obtain result w1 es1 where cycle: "run_cycle (logged_env Cycle (se_bootstrap env)) ?policy
      (su_namespace node) (w, es @ [Cycle (SawConnected n)]) = (result, (w1, es1))" by (metis prod.collapse)
  from logged_run_cycle [OF this] obtain cs where
    logged: "es1 = (es @ [Cycle (SawConnected n)]) @ map Cycle cs"
    and cs2: "cycle_spec ?policy (su_namespace node) cs result" .
  from logged have "es1 = es @ Cycle (SawConnected n) # map Cycle cs" by simp
  note cs = this cs2
  obtain state via path err where st: "cycle_status node result = (state, via, path, err)"
    by (rule prod_cases4)
  let ?s1 = "case via of None \<Rightarrow> s | Some _ \<Rightarrow> s\<lparr> ss_last_connected_via := via \<rparr>"
  let ?m = "fst (be_connected_peers (se_bootstrap env) w1)"
  let ?w2 = "(snd (be_connected_peers (se_bootstrap env) w1), es1 @ [Cycle (SawConnected ?m)])"
  obtain a w3 es3 where rep: "report_status (observed_supervisor env) node state ?m via path err ?w2 = (a, (w3, es3))"
    by (metis prod.collapse)
  from report_status_observed [OF this] obtain pub where
    p: "es3 = es1 @ Cycle (SawConnected ?m) # pub" "reported node state ?m via path err pub a" by auto
  note run = assms(1) [unfolded bootstrap_turn_def] cycle st rep
  show ?thesis
  proof (cases a)
    case (Inl e)
    with run cs p have "r = Inl e"
      "es' = es @ Cycle (SawConnected n) # map Cycle cs @ Cycle (SawConnected ?m) # pub"
      by (simp_all add: and_then_def Let_def)
    with turn_spec.cycle_unreported [OF assms(2) cs(2) st p(2) [unfolded Inl]] show ?thesis by blast
  next
    case (Inr u)
    then have rep': "reported node state ?m via path err pub (Inr ())" using p(2) by simp
    from cs(2) st show ?thesis
    proof (cases rule: cycle_status_cases)
      case (1 source)
      with Inr run cs p have
        "r = Inr (Continue (s\<lparr> ss_last_connected_via := Some source, ss_attempts := 0 \<rparr>))"
        "es' = es @ Cycle (SawConnected n) # map Cycle cs @ Cycle (SawConnected ?m) # pub"
        by (simp_all add: and_then_def Let_def succeed_def)
      with turn_spec.cycle_connected [OF assms(2) cs(2) st [unfolded 1] rep' [unfolded 1]] show ?thesis by blast
    next
      case 2
      with Inr run have "retry (observed_supervisor env) node s (w3, es3) = (r, (v, es'))"
        by (simp add: and_then_def Let_def)
      from retry_observed [OF this] obtain d stop where d: "es' = es3 @ [Waited d stop]"
        "base_delay node (ss_attempts s) div 2 \<le> d" "d \<le> base_delay node (ss_attempts s)"
        "r = Inr (if stop then Stop else Continue (s\<lparr> ss_attempts := saturating_add (ss_attempts s) 1 \<rparr>))" .
      with turn_spec.cycle_retried [OF assms(2) cs(2) st [unfolded 2] rep' [unfolded 2] d(2,3), of stop] cs p
      show ?thesis by auto
    qed
  qed
qed

lemma supervise_turn_observed:
  assumes "supervise_turn (observed_supervisor env) node s (w, es) = (r, (v, es'))"
  obtains new where "es' = es @ new" and "turn_spec node s new r"
proof -
  let ?n = "fst (be_connected_peers (se_bootstrap env) w)"
  let ?w = "(snd (be_connected_peers (se_bootstrap env) w), es @ [Cycle (SawConnected ?n)])"
  have "\<exists>new. es' = es @ new \<and> turn_spec node s new r"
  proof (cases "target node \<le> ?n")
    case True
    with assms have "connected_turn (observed_supervisor env) node ?n s ?w = (r, (v, es'))"
      by (simp add: supervise_turn_def supervisor_target_eq)
    from connected_turn_observed [OF this True] show ?thesis .
  next
    case False
    with assms have "bootstrap_turn (observed_supervisor env) node s ?w = (r, (v, es'))"
      by (simp add: supervise_turn_def supervisor_target_eq)
    from bootstrap_turn_observed [OF this] False show ?thesis by simp
  qed
  with that show ?thesis by blast
qed

section \<open>Runs\<close>

inductive run_spec :: "supervisor \<Rightarrow> supervisor_state \<Rightarrow> supervisor_event list \<Rightarrow>
    supervisor_error + unit \<Rightarrow> bool" for node where
  stopped: "turn_spec node s es (Inr Stop) \<Longrightarrow> run_spec node s es (Inr ())"
| failed: "turn_spec node s es (Inl e) \<Longrightarrow> run_spec node s es (Inl e)"
| continued: "turn_spec node s es (Inr (Continue s')) \<Longrightarrow> run_spec node s' fs r \<Longrightarrow>
    run_spec node s (es @ fs) r"

definition initial_state :: supervisor_state where
  "initial_state = \<lparr> ss_attempts = 0, ss_last_connected_via = None \<rparr>"

lemma supervise_observed:
  assumes "supervise (observed_supervisor env) node s (w, es) = Some (r, (v, es'))"
  shows "\<exists>new. es' = es @ new \<and> run_spec node s new r"
proof -
  let ?P = "\<lambda>env' node s x y. env' = observed_supervisor env \<longrightarrow>
      (\<exists>new. snd (snd y) = snd x @ new \<and> run_spec node s new (fst y))"
  have "?P (observed_supervisor env) node s (w, es) (r, (v, es'))"
  proof (rule supervise.raw_induct [where P = ?P, OF _ assms], intro impI)
    fix f env' node s x y
    assume IH: "\<And>env' node s x y. f env' node s x = Some y \<Longrightarrow> ?P env' node s x y"
      and eq: "(case supervise_turn env' node s x of (r, v) \<Rightarrow> if se_gone env' v then None else (case r of
          Inl error \<Rightarrow> Some (Inl error, v)
        | Inr turn \<Rightarrow> (case turn of Stop \<Rightarrow> Some (Inr (), v) | Continue s' \<Rightarrow> f env' node s' v))) = Some y"
      and env: "env' = observed_supervisor env"
    obtain a u es1 where turn: "supervise_turn env' node s (fst x, snd x) = (a, (u, es1))"
      by (metis prod.collapse)
    from supervise_turn_observed [OF turn [unfolded env]] obtain new where
      new: "es1 = snd x @ new" "turn_spec node s new a" .
    consider e where "a = Inl e" | "a = Inr Stop" | s' where "a = Inr (Continue s')"
      by (cases a) (auto intro: turn.exhaust)
    then show "\<exists>new. snd (snd y) = snd x @ new \<and> run_spec node s new (fst y)"
    proof cases
      case 1
      with eq turn new show ?thesis by (auto intro: run_spec.failed split: if_splits)
    next
      case 2
      with eq turn new show ?thesis by (auto intro: run_spec.stopped split: if_splits)
    next
      case 3
      with eq turn have "f env' node s' (u, es1) = Some y" by (simp split: if_splits)
      from IH [OF this] env obtain more where
        "snd (snd y) = es1 @ more" "run_spec node s' more (fst y)" by auto
      with new 3 show ?thesis by (auto intro: run_spec.continued)
    qed
  qed
  then show ?thesis by simp
qed

end
