(* ===== verification/Supervisor_Returns.thy ===== *)
theory Supervisor_Returns
  imports Supervisor_Runs
begin

text \<open>
  What follows from the specification of the supervisor's runs: when it returns and with what, what
  it may announce, that it stops once the shutdown signal is there, and where it does not.
\<close>

section \<open>Facts of one turn\<close>

text \<open>Every announcement directly follows the question that allows it, with that answer's lifetime.\<close>

definition announced_right :: "supervisor \<Rightarrow> supervisor_event list \<Rightarrow> bool" where
  "announced_right node es \<longleftrightarrow>
     (\<forall>before ttl answer after. es = before @ Cycle (Announced ttl answer) # after \<longrightarrow>
        before \<noteq> [] \<and>
        (last before = Cycle (SawRenewalDue True) \<and> ttl = sv_maintenance_ttl (su_policy node) \<or>
         last before = Cycle (SawEligible True) \<and> ttl = bp_reboot_ttl (sv_bootstrap (su_policy node))))"

fun is_announced :: "supervisor_event \<Rightarrow> bool" where
  "is_announced (Cycle (Announced _ _)) = True"
| "is_announced _ = False"

definition no_announcement :: "supervisor_event list \<Rightarrow> bool" where
  "no_announcement es \<longleftrightarrow> (\<forall>e \<in> set es. \<not> is_announced e)"

lemma announced_right_append:
  assumes "announced_right node es" and "announced_right node fs"
  shows "announced_right node (es @ fs)"
  unfolding announced_right_def
proof (intro allI impI)
  fix before ttl answer after
  assume eq: "es @ fs = before @ Cycle (Announced ttl answer) # after"
  let ?ok = "\<lambda>b. b \<noteq> [] \<and> (last b = Cycle (SawRenewalDue True) \<and> ttl = sv_maintenance_ttl (su_policy node) \<or>
     last b = Cycle (SawEligible True) \<and> ttl = bp_reboot_ttl (sv_bootstrap (su_policy node)))"
  from eq consider us where "es = before @ Cycle (Announced ttl answer) # us"
    | us where "before = es @ us" "fs = us @ Cycle (Announced ttl answer) # after"
    by (auto simp: append_eq_append_conv2 append_eq_Cons_conv Cons_eq_append_conv)
  then show "?ok before"
  proof cases
    case 1
    with assms(1) show ?thesis unfolding announced_right_def by blast
  next
    case (2 us)
    with assms(2) have "?ok us" unfolding announced_right_def by blast
    with 2 show ?thesis by auto
  qed
qed

lemma announced_right_none:
  assumes "no_announcement es"
  shows "announced_right node es"
  unfolding announced_right_def
proof (intro allI impI)
  fix before ttl answer after
  assume "es = before @ Cycle (Announced ttl answer) # after"
  with assms have False by (simp add: no_announcement_def)
  then show "before \<noteq> [] \<and> (last before = Cycle (SawRenewalDue True) \<and> ttl = sv_maintenance_ttl (su_policy node) \<or>
     last before = Cycle (SawEligible True) \<and> ttl = bp_reboot_ttl (sv_bootstrap (su_policy node)))" ..
qed

lemma announced_right_pair:
  "announced_right node [Cycle (SawRenewalDue True), Cycle (Announced (sv_maintenance_ttl (su_policy node)) a)]"
  "announced_right node [Cycle (SawEligible True), Cycle (Announced (bp_reboot_ttl (sv_bootstrap (su_policy node))) a)]"
  by (auto simp: announced_right_def append_eq_Cons_conv Cons_eq_append_conv)

lemma no_announcement_simps [simp]:
  "no_announcement []"
  "no_announcement (e # es) \<longleftrightarrow> \<not> is_announced e \<and> no_announcement es"
  "no_announcement (es @ fs) \<longleftrightarrow> no_announcement es \<and> no_announcement fs"
  "no_announcement (map Cycle (map AddVerified ps))" "no_announcement (map (Cycle \<circ> AddVerified) ps)"
  "no_announcement (map File calls)"
  by (auto simp: no_announcement_def)

lemma dial_event_quiet: "dial_event t e \<Longrightarrow> \<not> is_announced (Cycle e)"
  by (cases e) (simp_all add: dial_event_def)

lemma dials_no_announcement: "dials_ok policy fl ps b es \<Longrightarrow> no_announcement (map Cycle es)"
  using dial_event_quiet by (fastforce simp: dials_ok_def no_announcement_def)

lemma isolated_no_announcement: "isolated_run policy ns es path \<Longrightarrow> no_announcement (map Cycle es)"
  by (auto elim!: isolated_run.cases simp: dials_no_announcement)

lemma cycle_announced_right:
  assumes "cycle_spec (sv_bootstrap (su_policy node)) ns es r"
  shows "announced_right node (map Cycle es)"
  using assms
proof (cases rule: cycle_spec.cases)
  case (promoted es' path)
  then show ?thesis
    using announced_right_append [OF announced_right_none [OF isolated_no_announcement] announced_right_pair(2)] by simp
next
  case (promotion_failed es' path e)
  then show ?thesis
    using announced_right_append [OF announced_right_none [OF isolated_no_announcement] announced_right_pair(2)] by simp
next
  case (not_eligible es' path)
  then show ?thesis by (auto intro!: announced_right_none dest: isolated_no_announcement)
qed (auto intro!: announced_right_none simp: dials_no_announcement)

lemma renewed_announced_right: "renewed node ren err \<Longrightarrow> announced_right node ren"
  by (auto simp: renewed_def announced_right_pair intro: announced_right_none)

text \<open>The events in which shutdown is noticed.\<close>

definition shutdown_seen :: "supervisor_event list \<Rightarrow> bool" where
  "shutdown_seen es \<longleftrightarrow> (\<exists>d. Waited d True \<in> set es)"

lemma shutdown_seen_simps [simp]:
  "\<not> shutdown_seen []"
  "shutdown_seen (e # es) \<longleftrightarrow> (\<exists>d. e = Waited d True) \<or> shutdown_seen es"
  "shutdown_seen (es @ fs) \<longleftrightarrow> shutdown_seen es \<or> shutdown_seen fs"
  "\<not> shutdown_seen (map Cycle cs)" "\<not> shutdown_seen (map File calls)"
  by (auto simp: shutdown_seen_def)

lemma reported_facts:
  assumes "reported node state m via path err pub r"
  shows "no_announcement pub" and "\<not> shutdown_seen pub" and "r = Inl e \<Longrightarrow> su_status_file node \<noteq> None"
proof -
  from assms have "\<exists>calls. pub = map File calls"
    by (auto simp: reported_def published_def follows_def split: option.splits)
  then show "no_announcement pub" "\<not> shutdown_seen pub" by auto
  show "su_status_file node \<noteq> None" if "r = Inl e"
    using assms that by (cases "su_status_file node") (auto simp: reported_def published_def)
qed

lemma renewed_not_shutdown: "renewed node ren err \<Longrightarrow> \<not> shutdown_seen ren"
  by (auto simp: renewed_def)

text \<open>How a turn that ends with shutdown, continues, or fails looks at its end.\<close>

lemma turn_end:
  assumes "turn_spec node s es r"
  shows "(r = Inr Stop \<longrightarrow> (\<exists>before d. es = before @ [Waited d True] \<and> \<not> shutdown_seen before)) \<and>
    (r \<noteq> Inr Stop \<longrightarrow> \<not> shutdown_seen es) \<and> (\<forall>e. r = Inl e \<longrightarrow> su_status_file node \<noteq> None)"
  using assms
proof (cases rule: turn_spec.cases)
  case (idle n ren err pub stop)
  let ?before = "Cycle (SawConnected n) # ren @ pub"
  have "\<not> shutdown_seen ?before"
    using idle renewed_not_shutdown reported_facts(2) by simp
  with idle show ?thesis by (cases stop) (auto intro: exI [of _ ?before])
next
  case (cycle_retried n cs result path err m pub d stop)
  let ?before = "Cycle (SawConnected n) # map Cycle cs @ Cycle (SawConnected m) # pub"
  have "\<not> shutdown_seen ?before" using cycle_retried reported_facts(2) by simp
  with cycle_retried show ?thesis by (cases stop) (auto intro: exI [of _ ?before])
qed (auto dest: renewed_not_shutdown reported_facts)

lemma turn_announced_right:
  assumes "turn_spec node s es r"
  shows "announced_right node es"
proof -
  have pad: "announced_right node (a @ es @ b)"
    if "announced_right node es" "no_announcement a" "no_announcement b" for a es b
    using that announced_right_none announced_right_append by blast
  from assms show ?thesis
  proof (cases rule: turn_spec.cases)
    case (renewal_unreported n ren err pub e)
    then show ?thesis
      using pad [OF renewed_announced_right, of ren err "[Cycle (SawConnected n)]" pub] reported_facts(1) by simp
  next
    case (idle n ren err pub stop)
    then show ?thesis
      using pad [OF renewed_announced_right, of ren err "[Cycle (SawConnected n)]"
          "pub @ [Waited (sv_connected_poll_interval (su_policy node)) stop]"] reported_facts(1) by simp
  next
    case (cycle_unreported n cs result state via path err m pub e)
    then show ?thesis
      using pad [OF cycle_announced_right, of _ cs result "[Cycle (SawConnected n)]" "Cycle (SawConnected m) # pub"]
        reported_facts(1) by simp
  next
    case (cycle_connected n cs result source path m pub)
    then show ?thesis
      using pad [OF cycle_announced_right, of _ cs result "[Cycle (SawConnected n)]" "Cycle (SawConnected m) # pub"]
        reported_facts(1) by simp
  next
    case (cycle_retried n cs result path err m pub d stop)
    then show ?thesis
      using pad [OF cycle_announced_right, of _ cs result "[Cycle (SawConnected n)]"
          "Cycle (SawConnected m) # pub @ [Waited d stop]"] reported_facts(1) by simp
  qed
qed

section \<open>Runs that return\<close>

lemma run_end:
  assumes "run_spec node s es r"
  shows "(r = Inr () \<longrightarrow> (\<exists>before d. es = before @ [Waited d True] \<and> \<not> shutdown_seen before)) \<and>
    (r \<noteq> Inr () \<longrightarrow> \<not> shutdown_seen es \<and> su_status_file node \<noteq> None) \<and> announced_right node es"
  using assms
proof (induction rule: run_spec.induct)
  case (stopped s es)
  then show ?case using turn_end [OF stopped] turn_announced_right [OF stopped] by simp
next
  case (failed s es e)
  then show ?case using turn_end [OF failed] turn_announced_right [OF failed] by simp
next
  case (continued s es s' fs r)
  have "\<not> shutdown_seen es" using turn_end [OF continued.hyps(1)] by simp
  moreover have "announced_right node (es @ fs)"
    using turn_announced_right [OF continued.hyps(1)] continued.IH by (intro announced_right_append) auto
  ultimately show ?case using continued.IH
    by (metis append.assoc shutdown_seen_simps(3))
qed

lemma run_supervisor_spec:
  assumes "run_supervisor (observed_supervisor env) node (w, []) = Some (r, (v, events))"
  shows "run_spec node initial_state events r"
  using supervise_observed [of env node initial_state w "[]" r v events] assms
  by (auto simp: run_supervisor_def initial_state_def)

text \<open>
  C37: the supervisor's runs refine their specification: whatever the bootstrap interfaces, the
  clock, the random numbers and the file system do, a run that returns is a sequence of turns,
  each as \<open>turn_spec\<close> allows: a node with enough peers only renews, reports and waits for the
  poll interval, without any discovery or dial, and forgets its failed attempts; otherwise it
  runs one bootstrap cycle, reports its outcome, and waits between half and all of the delay
  of the attempts that failed since it was last connected.
\<close>

theorem supervisor_refines:
  assumes "run_supervisor (observed_supervisor env) node (w, []) = Some (r, (v, events))"
  shows "run_spec node initial_state events r"
  using assms by (rule run_supervisor_spec)

text \<open>
  C38: the supervisor returns without error exactly when a wait was cut short by the shutdown
  signal, and that wait is the last thing it does; it returns an error only when it was to
  write a status file. In the whole run every announcement directly follows the question
  that allows it: a renewal that was due, with the maintenance lifetime, or the promotion of
  an isolated node that is eligible, with the reboot lifetime.
\<close>

theorem supervisor_returns:
  assumes "run_supervisor (observed_supervisor env) node (w, []) = Some (r, (v, events))"
  shows "(r = Inr () \<longleftrightarrow> (\<exists>d. Waited d True \<in> set events)) \<and>
    (\<forall>before d after. events = before @ Waited d True # after \<longrightarrow> after = []) \<and>
    (su_status_file node = None \<longrightarrow> r = Inr ()) \<and> announced_right node events"
proof -
  note facts = run_end [OF run_supervisor_spec [OF assms]]
  have "after = []" if "events = before @ Waited d True # after" for before d after
  proof -
    from that have "shutdown_seen events" by simp
    with facts obtain b e where "events = b @ [Waited e True]" "\<not> shutdown_seen b" by auto
    with that show ?thesis by (cases after rule: rev_cases) auto
  qed
  with facts show ?thesis unfolding shutdown_seen_def by (metis in_set_conv_decomp)
qed

section \<open>Shutdown\<close>

text \<open>
  A world is calm when looking finds enough peers, and looking, reading the telemetry and the
  clock, and writing files leave it so.
\<close>

definition steady :: "('w \<Rightarrow> bool) \<Rightarrow> 'w supervisor_env \<Rightarrow> supervisor \<Rightarrow> bool" where
  "steady calm env node \<longleftrightarrow>
     (\<forall>w. calm w \<longrightarrow> target node \<le> fst (be_connected_peers (se_bootstrap env) w)) \<and>
     keeps calm (be_connected_peers (se_bootstrap env)) \<and> keeps calm (se_telemetry env) \<and>
     keeps calm (se_unix_time env) \<and> (\<forall>p. keeps calm (fs_create_dir_all (se_files env) p)) \<and>
     (\<forall>p b. keeps calm (fs_write (se_files env) p b)) \<and> (\<forall>p q. keeps calm (fs_rename (se_files env) p q)) \<and>
     (\<forall>w outcome v. run_cycle (se_bootstrap env) (sv_bootstrap (su_policy node)) (su_namespace node) w =
         (Inr outcome, v) \<longrightarrow> bo_state outcome = Connected \<longrightarrow> calm v)"

lemma keeps_write_atomic_json:
  assumes "steady calm env node"
  shows "keeps calm (write_atomic_json lib (se_files env) path status)"
  unfolding write_atomic_json_def Let_def
  by (intro keeps_and_then) (use assms in \<open>auto simp: steady_def intro!: keeps_rules keeps_and_then split: option.split\<close>)

lemma keeps_report_status:
  assumes "steady calm env node"
  shows "keeps calm (report_status env node state m via path err)"
proof -
  have "keeps calm (publish_status env node status)" for status
    using keeps_write_atomic_json [OF assms] keeps_rules(1)
    by (auto simp: publish_status_def split: option.split)
  with assms show ?thesis by (auto simp: report_status_def keeps_def steady_def split_beta)
qed

lemma turn_continues:
  assumes "steady calm env node" and wait: "\<And>d w. fst (se_wait env d w)"
    and "supervise_turn env node s w = (Inr (Continue s'), v)"
  shows "calm v \<and> fst (be_connected_peers (se_bootstrap env) w) < target node"
proof -
  obtain n w1 where n: "be_connected_peers (se_bootstrap env) w = (n, w1)" by fastforce
  have "n < target node"
  proof (rule ccontr)
    assume "\<not> n < target node"
    with assms(3) n wait show False
      by (auto simp: supervise_turn_def supervisor_target_eq connected_turn_def and_then_def
          split: prod.splits sum.splits bool.splits) (metis fst_conv)+
  qed
  with assms(3) n have turn: "bootstrap_turn env node s w1 = (Inr (Continue s'), v)"
    by (simp add: supervise_turn_def supervisor_target_eq)
  obtain result w2 where cycle: "run_cycle (se_bootstrap env) (sv_bootstrap (su_policy node))
      (su_namespace node) w1 = (result, w2)" by fastforce
  obtain state via path err where st: "cycle_status node result = (state, via, path, err)"
    by (rule prod_cases4)
  obtain m w3 where m: "be_connected_peers (se_bootstrap env) w2 = (m, w3)" by fastforce
  obtain a w4 where rep: "report_status env node state m via path err w3 = (a, w4)" by fastforce
  note run = turn [unfolded bootstrap_turn_def] cycle st m rep
  have connected: "state = Connected"
    using run wait by (auto simp: and_then_def Let_def retry_def split: sum.splits if_splits prod.splits bool.splits)
      (metis fst_conv)+
  then obtain outcome where "result = Inr outcome" "bo_state outcome = Connected"
    using st by (auto simp: cycle_status_def split: sum.splits)
  with cycle assms(1) have "calm w2" unfolding steady_def by blast
  with assms(1) m have "calm w3" by (simp add: steady_def keeps_def) (metis snd_conv)
  with keeps_report_status [OF assms(1)] rep have "calm w4" unfolding keeps_def by (metis snd_conv)
  moreover have "v = w4" using run connected by (auto simp: and_then_def Let_def succeed_def split: sum.splits)
  ultimately show ?thesis using \<open>n < target node\<close> n by simp
qed

text \<open>
  Shutdown. Once the shutdown signal is there, so that every wait is cut short, the supervisor
  returns, after at most two turns, provided that every call is answered and that the connections
  a bootstrap cycle reached are still there when the loop looks again.
\<close>

theorem supervisor_stops:
  assumes "steady calm env node" and "\<And>d w. fst (se_wait env d w)" and "\<And>w. \<not> se_gone env w"
  shows "\<exists>r v. run_supervisor env node w = Some (r, v)"
proof -
  have supervise: "supervise env node s w = (case supervise_turn env node s w of
      (Inl e, v) \<Rightarrow> Some (Inl e, v) | (Inr Stop, v) \<Rightarrow> Some (Inr (), v)
    | (Inr (Continue s'), v) \<Rightarrow> supervise env node s' v)" for s w
    by (subst supervise.simps) (auto simp: assms(3) split: prod.split sum.split turn.split)
  have calm: "\<exists>r u. supervise env node s v = Some (r, u)" if "calm v" for s v
  proof -
    have "\<nexists>s' u. supervise_turn env node s v = (Inr (Continue s'), u)"
      using turn_continues [OF assms(1,2)] that assms(1) unfolding steady_def by (meson leD)
    then show ?thesis unfolding supervise [of s v] by (auto split: prod.split sum.split turn.split)
  qed
  have "\<exists>r u. supervise env node s v = Some (r, u)" for s v
    unfolding supervise [of s v] using calm turn_continues [OF assms(1,2)]
    by (auto split: prod.split sum.split turn.split)
  then show ?thesis by (simp add: run_supervisor_def)
qed

section \<open>Instances\<close>

text \<open>
  A node in a world where no source knows a peer and dials change nothing; \<open>look\<close> says how many
  peers it sees and the shutdown signal is there from the start.
\<close>

definition still_bootstrap :: "('w \<Rightarrow> nat \<times> 'w) \<Rightarrow> 'w bootstrap_env" where
  "still_bootstrap look =
     \<lparr> be_cache_discover = (\<lambda>_. succeed []), be_native_discover = (\<lambda>_. succeed []),
       be_add_verified_peer = (\<lambda>_. succeed ()), be_registry_discover = (\<lambda>_. succeed []),
       be_connected_peers = look, be_connect = (\<lambda>_ _ w. w), be_next_dial = (\<lambda>_ w. (0, w)),
       be_drop_dials = (\<lambda>_ w. w), be_eligible = (\<lambda>w. (False, w)), be_renewal_due = (\<lambda>w. (False, w)),
       be_announce = (\<lambda>_. succeed ()) \<rparr>"

definition still_supervisor :: "('w \<Rightarrow> nat \<times> 'w) \<Rightarrow> 'w supervisor_env" where
  "still_supervisor look =
     \<lparr> se_bootstrap = still_bootstrap look, se_telemetry = (\<lambda>w. (snapshot no_telemetry, w)),
       se_unix_time = (\<lambda>w. (1000, w)), se_random = (\<lambda>w. (0, w)), se_wait = (\<lambda>_ w. (True, w)),
       se_files = \<lparr> fs_create_dir_all = (\<lambda>_. succeed ()), fs_write = (\<lambda>_ _. succeed ()),
         fs_rename = (\<lambda>_ _. succeed ()) \<rparr>, se_gone = (\<lambda>_. False) \<rparr>"

definition test_supervisor :: supervisor where
  "test_supervisor =
     \<lparr> su_namespace = Namespace 7, su_peer_id = ''12D3'', su_policy = default_supervisor_policy,
       su_status_file = None, su_paths = test_paths, su_error_text = (\<lambda>_. ''error'') \<rparr>"

lemmas still_defs = still_supervisor_def still_bootstrap_def test_supervisor_def default_supervisor_policy_def
  default_bootstrap_policy_def

lemma still_run:
  "run_supervisor (observed_supervisor (still_supervisor (\<lambda>w :: unit. (2, w)))) test_supervisor ((), []) =
     Some (Inr (), ((), [Cycle (SawConnected 2), Cycle (SawRenewalDue False), Waited (from_secs 15) True]))"
  by (simp add: run_supervisor_def supervise.simps supervise_turn_def supervisor_target_def connected_turn_def
      renew_def report_status_def publish_status_def and_then_def succeed_def still_defs)

theorem supervisor_refines_witness:
  "run_spec test_supervisor initial_state
     [Cycle (SawConnected 2), Cycle (SawRenewalDue False), Waited (from_secs 15) True] (Inr ())"
  by (rule supervisor_refines [OF still_run])

theorem supervisor_returns_witness:
  "announced_right test_supervisor
     [Cycle (SawConnected 2), Cycle (SawRenewalDue False), Waited (from_secs 15) True]"
  using supervisor_returns [OF still_run] by blast

lemma lonely_cycle:
  "run_cycle (still_bootstrap (\<lambda>w :: unit. (0, w))) (sv_bootstrap (su_policy test_supervisor)) ns w =
     (Inr \<lparr> bo_state = Backoff, bo_connected_via = None, bo_announced = False,
        bo_transitions = [Start, CacheDiscovery, NativeDiscovery, ResurrectScan, Isolated, Backoff] \<rparr>, w)"
  by (simp add: run_cycle_def connection_target_def dial_found_def dial_candidates_def add_verified_peers_def
      promote_def succeed_def still_defs)

theorem supervisor_stops_witness:
  "\<exists>r v. run_supervisor (still_supervisor (\<lambda>w :: unit. (0, w))) test_supervisor () = Some (r, v)"
proof -
  have "steady (\<lambda>_. False) (still_supervisor (\<lambda>w :: unit. (0, w))) test_supervisor"
    using lonely_cycle by (auto simp: steady_def keeps_def still_supervisor_def)
  moreover have "fst (se_wait (still_supervisor (\<lambda>w :: unit. (0, w))) d w)" for d w
    by (simp add: still_supervisor_def)
  moreover have "\<not> se_gone (still_supervisor (\<lambda>w :: unit. (0, w))) w" for w
    by (simp add: still_supervisor_def)
  ultimately show ?thesis by (rule supervisor_stops)
qed

text \<open>
  Connections that come and go: of three consecutive looks only the second sees enough peers,
  which is the one a cycle starts with.
\<close>

definition flapping :: "nat supervisor_env" where
  "flapping = still_supervisor (\<lambda>looks. (if looks mod 3 = 1 then 2 else 0, looks + 1))"

lemma flapping_turn:
  assumes "looks mod 3 = 0"
  shows "\<exists>s'. supervise_turn flapping test_supervisor s looks = (Inr (Continue s'), looks + 3)"
proof -
  have "(looks + 1) mod 3 = 1" "(looks + 2) mod 3 = 2" using assms by presburger+
  with assms show ?thesis
    by (simp add: flapping_def supervise_turn_def supervisor_target_def bootstrap_turn_def run_cycle_def
        connection_target_def connected_outcome_def cycle_status_def report_status_def publish_status_def
        and_then_def succeed_def still_defs)
qed

text \<open>
  C39: the proviso of the shutdown property is needed: where connections flap, so that each cycle
  starts with enough peers and the loop sees them gone again, the supervisor never returns,
  although the shutdown signal is there from the start: it is only looked for in a wait.
\<close>

theorem supervisor_misses_shutdown:
  "fst (se_wait flapping d looks) \<and> run_supervisor flapping test_supervisor 0 = None"
proof -
  let ?P = "\<lambda>env node s (looks :: nat) (y :: (supervisor_error + unit) \<times> nat).
      \<not> (env = flapping \<and> node = test_supervisor \<and> looks mod 3 = 0)"
  have "\<not> supervise flapping test_supervisor s looks = Some y" if "looks mod 3 = 0" for s looks y
  proof
    assume ret: "supervise flapping test_supervisor s looks = Some y"
    have "?P flapping test_supervisor s looks y"
    proof (rule supervise.raw_induct [where P = ?P, OF _ ret], rule notI, elim conjE)
      fix f env node s y and x :: nat
      assume IH: "\<And>env node s x y. f env node s x = Some y \<Longrightarrow> ?P env node s x y"
        and eq: "(case supervise_turn env node s x of (r, v) \<Rightarrow> if se_gone env v then None else (case r of
          Inl error \<Rightarrow> Some (Inl error, v)
        | Inr turn \<Rightarrow> (case turn of Stop \<Rightarrow> Some (Inr (), v) | Continue s' \<Rightarrow> f env node s' v))) = Some y"
        and at: "env = flapping" "node = test_supervisor" "x mod 3 = 0"
      from flapping_turn [OF at(3), of s] obtain s' where
        "supervise_turn env node s x = (Inr (Continue s'), x + 3)" using at by blast
      with eq have "f env node s' (x + 3) = Some y" by (simp split: if_splits)
      from IH [OF this] at show False by simp
    qed
    with that show False by simp
  qed
  then have "run_supervisor flapping test_supervisor 0 = None"
    unfolding run_supervisor_def by (metis mod_0 not_None_eq)
  then show ?thesis by (simp add: flapping_def still_supervisor_def)
qed

end
