(* ===== verification/Dial_Waiters.thy ===== *)
theory Dial_Waiters
  imports Libp2p_Codecs "HOL-Library.Multiset" "HOL-Library.AList"
begin

text \<open>
  What the two dialers of the program share (\<open>resurrect-libp2p/src/behaviour.rs\<close> and
  \<open>resurrect-node/src/p2p.rs\<close>): callers hand over the sending half of a oneshot channel, which
  waits under a peer until the swarm reports about it, and a connection count is published
  to the callers. A sender is a natural number; what the code does to senders and to the
  published count is an ordered log. The promises are the locale \<open>dialer\<close>.
\<close>

section \<open>The log\<close>

type_synonym sender = nat

datatype 'a dial_effect = Published nat | Answered sender 'a | Dropped sender

text \<open>The senders a log used up, and the count a reader sees after it.\<close>

fun settled :: "'a dial_effect list \<Rightarrow> sender list" where
  "settled [] = []"
| "settled (Published n # es) = settled es"
| "settled (Answered w a # es) = w # settled es"
| "settled (Dropped w # es) = w # settled es"

fun published_after :: "nat \<Rightarrow> 'a dial_effect list \<Rightarrow> nat" where
  "published_after n [] = n"
| "published_after n (Published m # es) = published_after m es"
| "published_after n (Answered w a # es) = published_after n es"
| "published_after n (Dropped w # es) = published_after n es"

text \<open>Every success was answered while the published count was positive.\<close>

fun truthful :: "('a \<Rightarrow> bool) \<Rightarrow> nat \<Rightarrow> 'a dial_effect list \<Rightarrow> bool" where
  "truthful ok n [] = True"
| "truthful ok n (Published m # es) = truthful ok m es"
| "truthful ok n (Answered w a # es) = ((ok a \<longrightarrow> 0 < n) \<and> truthful ok n es)"
| "truthful ok n (Dropped w # es) = truthful ok n es"

lemma settled_append [simp]: "settled (es @ fs) = settled es @ settled fs"
  by (induction es rule: settled.induct) simp_all

lemma published_after_append [simp]:
  "published_after n (es @ fs) = published_after (published_after n es) fs"
  by (induction n es rule: published_after.induct) simp_all

lemma truthful_append [simp]:
  "truthful ok n (es @ fs) \<longleftrightarrow> truthful ok n es \<and> truthful ok (published_after n es) fs"
  by (induction ok n es rule: truthful.induct) auto

lemma truthful_at:
  assumes "truthful ok n (es @ Answered w a # fs)" and "ok a"
  shows "0 < published_after n es"
  using assms by simp

text \<open>One answer for each of several senders.\<close>

definition answer_all :: "'a \<Rightarrow> sender list \<Rightarrow> 'a dial_effect list" where
  "answer_all a ws = map (\<lambda>w. Answered w a) ws"

lemma answer_all_facts [simp]:
  "settled (answer_all a ws) = ws" "published_after n (answer_all a ws) = n"
  "truthful ok n (answer_all a ws) \<longleftrightarrow> ws = [] \<or> (ok a \<longrightarrow> 0 < n)"
  by (induction ws) (auto simp: answer_all_def)

definition drop_all :: "sender list \<Rightarrow> 'a dial_effect list" where
  "drop_all ws = map Dropped ws"

lemma drop_all_facts [simp]:
  "settled (drop_all ws) = ws" "published_after n (drop_all ws) = n" "truthful ok n (drop_all ws)"
  by (induction ws) (simp_all add: drop_all_def)

lemma settled_answer: "w \<in> set (settled es) \<longleftrightarrow> (\<exists>a. Answered w a \<in> set es) \<or> Dropped w \<in> set es"
  by (induction es rule: settled.induct) auto

section \<open>Waiters by peer\<close>

text \<open>The \<open>HashMap<PeerId, Vec<Sender>>\<close> as an association list, its keys distinct.\<close>

type_synonym waiters = "(bytes \<times> sender list) list"

definition add_waiter :: "bytes \<Rightarrow> sender \<Rightarrow> waiters \<Rightarrow> waiters" where
  "add_waiter p w m = AList.map_default p [w] (\<lambda>ws. ws @ [w]) m"

definition waiting :: "waiters \<Rightarrow> sender list" where
  "waiting m = concat (map snd m)"

definition keyed :: "waiters \<Rightarrow> bool" where
  "keyed m \<longleftrightarrow> distinct (map fst m) \<and> [] \<notin> snd ` set m"

lemma waiting_simps [simp]: "waiting [] = []" "waiting ((p, ws) # m) = ws @ waiting m"
  by (simp_all add: waiting_def)

lemma keyed_Nil [simp]: "keyed []"
  by (simp add: keyed_def)

lemma mset_add_waiter [simp]: "mset (waiting (add_waiter p w m)) = add_mset w (mset (waiting m))"
  unfolding add_waiter_def by (induction m) auto

lemma keys_add_waiter [simp]: "fst ` set (add_waiter p w m) = insert p (fst ` set m)"
  by (simp add: add_waiter_def dom_map_default)

lemma nonempty_map_default: "[] \<notin> snd ` set m \<Longrightarrow> [] \<notin> snd ` set (AList.map_default p [w] (\<lambda>ws. ws @ [w]) m)"
  by (induction m) auto

lemma keyed_add_waiter [simp]: "keyed m \<Longrightarrow> keyed (add_waiter p w m)"
  by (simp add: keyed_def add_waiter_def distinct_map_default nonempty_map_default)

lemma mset_delete_waiters:
  "distinct (map fst m) \<Longrightarrow> map_of m p = Some ws \<Longrightarrow>
   mset ws + mset (waiting (AList.delete p m)) = mset (waiting m)"
proof (induction m)
  case (Cons x m)
  obtain q vs where x: "x = (q, vs)" by (cases x)
  show ?case
  proof (cases "q = p")
    case True
    with Cons.prems x have "p \<notin> fst ` set m" "vs = ws" by auto
    then have "AList.delete p m = m" by (intro AList.delete_id)
    with True x \<open>vs = ws\<close> show ?thesis by simp
  next
    case False
    with Cons x show ?thesis by (simp add: ac_simps)
  qed
qed simp

lemma keyed_delete [simp]: "keyed m \<Longrightarrow> keyed (AList.delete p m)"
proof -
  assume "keyed m"
  then have "distinct (map fst (AList.delete p m))" by (intro AList.distinct_delete) (simp add: keyed_def)
  moreover have "snd ` set (AList.delete p m) \<subseteq> snd ` set m" by (auto simp: AList.delete_eq)
  ultimately show ?thesis using \<open>keyed m\<close> by (auto simp: keyed_def)
qed

lemma keys_delete [simp]: "fst ` set (AList.delete p m) = fst ` set m - {p}"
  by (auto simp: AList.delete_eq)

lemma keyed_waiting: "keyed m \<Longrightarrow> waiting m = [] \<longleftrightarrow> m = []"
  by (cases m) (auto simp: keyed_def)

text \<open>
  \<open>retain\<close> of the waiters that are still open, and of the peers that have any left; the senders
  it drops.
\<close>

definition retain_waiters :: "(sender \<Rightarrow> bool) \<Rightarrow> waiters \<Rightarrow> waiters" where
  "retain_waiters keep m = filter (\<lambda>(p, ws). ws \<noteq> []) (map (\<lambda>(p, ws). (p, filter keep ws)) m)"

lemma waiting_retain [simp]: "waiting (retain_waiters keep m) = filter keep (waiting m)"
  unfolding retain_waiters_def by (induction m) auto

lemma keys_retain: "fst ` set (retain_waiters keep m) \<subseteq> fst ` set m"
  unfolding retain_waiters_def by force

lemma keyed_retain [simp]: "keyed m \<Longrightarrow> keyed (retain_waiters keep m)"
proof -
  assume "keyed m"
  have "[] \<notin> snd ` set (retain_waiters keep m)" by (auto simp: retain_waiters_def)
  moreover have "distinct (map fst m) \<Longrightarrow> distinct (map fst (retain_waiters keep m))"
  proof (induction m)
    case (Cons x m)
    with keys_retain [of keep m] show ?case by (cases x) (auto simp: retain_waiters_def)
  qed (simp add: retain_waiters_def)
  ultimately show ?thesis using \<open>keyed m\<close> by (simp add: keyed_def)
qed

lemma mset_retain:
  "mset (filter keep ws) + mset (filter (\<lambda>w. \<not> keep w) ws) = mset ws"
  using multiset_partition [of "mset ws" keep] by simp

section \<open>The promises of a dialer\<close>

text \<open>
  A dialer takes inputs one at a time. It holds the senders that entered with them until it
  settles them, publishes how many peers are connected, and never answers a success while
  that count is zero: the bootstrap controller reads it right after a successful dial.
\<close>

locale dialer =
  fixes step :: "'i \<Rightarrow> 's \<Rightarrow> 's"
    and effects :: "'s \<Rightarrow> 'a dial_effect list"
    and held :: "'s \<Rightarrow> sender multiset"
    and seen :: "'s \<Rightarrow> nat"
    and enters :: "'i \<Rightarrow> sender list"
    and success :: "'a \<Rightarrow> bool"
    and good :: "'s \<Rightarrow> bool"
  assumes good_step: "good s \<Longrightarrow> good (step i s)"
    and step_conserves: "good s \<Longrightarrow>
          held (step i s) + mset (settled (effects (step i s))) =
          held s + mset (settled (effects s)) + mset (enters i)"
    and good_seen: "good s \<Longrightarrow> published_after 0 (effects s) = seen s"
    and good_truthful: "good s \<Longrightarrow> truthful success 0 (effects s)"
begin

lemma good_run: "good s \<Longrightarrow> good (fold step is s)"
  by (induction "is" arbitrary: s) (simp_all add: good_step)

lemma run_conserves: "good s \<Longrightarrow>
    held (fold step is s) + mset (settled (effects (fold step is s))) =
    held s + mset (settled (effects s)) + mset (concat (map enters is))"
  by (induction "is" arbitrary: s) (simp_all add: good_step step_conserves add.assoc)

lemma settled_once:
  assumes "good s" and "held s = {#}" and "effects s = []"
    and "distinct (concat (map enters is))"
  shows "distinct (settled (effects (fold step is s)))"
    and "set_mset (held (fold step is s)) = set (concat (map enters is)) - set (settled (effects (fold step is s)))"
proof -
  let ?t = "fold step is s" and ?ws = "concat (map enters is)"
  obtain hs where hs: "mset hs = held ?t" using ex_mset by blast
  have "held ?t + mset (settled (effects ?t)) = mset ?ws"
    using run_conserves [of s "is"] assms by simp
  then have m: "mset (hs @ settled (effects ?t)) = mset ?ws" by (simp add: hs)
  then have d: "distinct (hs @ settled (effects ?t))"
    using assms(4) mset_eq_imp_distinct_iff [OF m] by blast
  then show "distinct (settled (effects ?t))" by simp
  have "set hs \<union> set (settled (effects ?t)) = set ?ws"
    using mset_eq_setD [OF m] by simp
  then show "set_mset (held ?t) = set ?ws - set (settled (effects ?t))"
    using d by (auto simp flip: hs)
qed

lemma success_seen:
  assumes "good s" and "effects (fold step is s) = es @ Answered w a # fs" and "success a"
  shows "0 < published_after 0 es"
proof -
  have "truthful success 0 (es @ Answered w a # fs)"
    using good_truthful [OF good_run [OF assms(1), of "is"]] assms(2) by simp
  then show ?thesis using assms(3) by (rule truthful_at)
qed

end

section \<open>A concrete candidate\<close>

definition dialable_lib :: multiaddr_lib where
  "dialable_lib = toy_multiaddrs\<lparr> ma_parse := (\<lambda>_. Some [Ip4 (ip4 127 0 0 1), Tcp 4001]) \<rparr>"

text \<open>The candidate that the tests of both dialers dial.\<close>

definition dialable_peer :: "bytes \<Rightarrow> peer_candidate" where
  "dialable_peer p =
     \<lparr> pc_record_type = RECORD_TYPE_LIBP2P, pc_peer_id = p, pc_sequence = 1,
       pc_endpoints = [\<lparr> ep_address = ''/ip4/127.0.0.1/tcp/4001'' \<rparr>], pc_raw_signed_record = [1],
       pc_expires_at = - 1, pc_source = ResurrectRegistry, pc_announcement_block = None,
       pc_announcement_log_index = None \<rparr>"

end
