(* ===== verification/Libp2p_Behaviour.thy ===== *)
theory Libp2p_Behaviour
  imports Dial_Waiters
begin

text \<open>
  \<open>crates/resurrect-libp2p/src/behaviour.rs\<close>: the behaviour that an application puts into its
  own swarm, and the connector half that the bootstrap controller calls. Both halves are one
  state: the channel between them, the waiters, the set of connected peers (a list without
  duplicates), the shared count and the queue of actions for the swarm. The log records in
  order what the code sends to waiting callers and stores into the shared count.
\<close>

section \<open>Data\<close>

datatype rejection = UnsupportedRecordType | InvalidPeerId | NoDialableEndpoint

datatype event = DialingEvent peer_id | ConnectedEvent peer_id | DialFailedEvent peer_id
  | RejectedEvent rejection

datatype to_swarm = GenerateEvent event | DialPeer peer_id "multiaddr list"

record dial_request =
  dr_peer :: peer_candidate
  dr_outcome :: sender

text \<open>
  \<open>bh_dials\<close> is the channel's buffer, the only requests a poll can take; \<open>bh_blocked\<close> holds in
  the order of their calls the requests of callers whose \<open>send\<close> still waits for room.
\<close>

record behaviour =
  bh_depth :: nat
  bh_dials :: "dial_request list"
  bh_blocked :: "dial_request list"
  bh_waiters :: waiters
  bh_connected :: "peer_id list"
  bh_connectivity :: nat
  bh_queue :: "to_swarm list"
  bh_log :: "bool dial_effect list"

datatype from_swarm = ConnectionEstablished peer_id | ConnectionClosed peer_id nat
  | DialFailure "peer_id option" | OtherSwarmEvent

definition connector :: "nat \<Rightarrow> behaviour" where
  "connector queue_depth =
     \<lparr> bh_depth = max queue_depth 1, bh_dials = [], bh_blocked = [], bh_waiters = [],
       bh_connected = [], bh_connectivity = 0, bh_queue = [], bh_log = [] \<rparr>"

section \<open>The connector half\<close>

definition connected_peers :: "behaviour \<Rightarrow> nat" where
  "connected_peers b = bh_connectivity b"

text \<open>
  The answer of \<open>connect\<close>: whether the request could be sent, and what came of the wait,
  \<open>None\<close> for a timeout and \<open>Some None\<close> for a sender dropped without an answer.
\<close>

definition connect :: "bool \<Rightarrow> bool option option \<Rightarrow> bool" where
  "connect sent waited \<longleftrightarrow>
     (if \<not> sent then False
      else case waited of None \<Rightarrow> False | Some result \<Rightarrow> (case result of None \<Rightarrow> False | Some dialed \<Rightarrow> dialed))"

definition room :: "behaviour \<Rightarrow> nat" where
  "room b = bh_depth b - length (bh_dials b)"

text \<open>
  The channel gives room to the waiting callers in the order of their calls. A call of \<open>send\<close>
  puts its request into the buffer at once when there is more room than callers wait for it;
  otherwise it waits, until room is given to it and its task runs again.
\<close>

definition send_dial :: "dial_request \<Rightarrow> behaviour \<Rightarrow> behaviour" where
  "send_dial request b =
     (if length (bh_blocked b) < room b then b\<lparr> bh_dials := bh_dials b @ [request] \<rparr>
      else b\<lparr> bh_blocked := bh_blocked b @ [request] \<rparr>)"

definition resume_send :: "nat \<Rightarrow> behaviour \<Rightarrow> behaviour" where
  "resume_send k b =
     (if k < length (bh_blocked b) \<and> k < room b
      then b\<lparr> bh_dials := bh_dials b @ [bh_blocked b ! k],
              bh_blocked := take k (bh_blocked b) @ drop (Suc k) (bh_blocked b) \<rparr>
      else b)"

text \<open>A caller that is given up while its \<open>send\<close> waits takes its request away.\<close>

definition abandon_send :: "sender \<Rightarrow> behaviour \<Rightarrow> behaviour" where
  "abandon_send w b =
     b\<lparr> bh_blocked := filter (\<lambda>r. dr_outcome r \<noteq> w) (bh_blocked b),
        bh_log := bh_log b @ drop_all (filter (\<lambda>v. v = w) (map dr_outcome (bh_blocked b))) \<rparr>"

section \<open>The swarm half\<close>

definition answer :: "sender \<Rightarrow> bool \<Rightarrow> behaviour \<Rightarrow> behaviour" where
  "answer w dialed b = b\<lparr> bh_log := bh_log b @ [Answered w dialed] \<rparr>"

definition push_action :: "to_swarm \<Rightarrow> behaviour \<Rightarrow> behaviour" where
  "push_action action b = b\<lparr> bh_queue := bh_queue b @ [action] \<rparr>"

definition resolve :: "peer_id \<Rightarrow> bool \<Rightarrow> behaviour \<Rightarrow> behaviour" where
  "resolve p dialed b =
     (case map_of (bh_waiters b) p of
        Some ws \<Rightarrow> b\<lparr> bh_waiters := AList.delete p (bh_waiters b), bh_log := bh_log b @ answer_all dialed ws \<rparr>
      | None \<Rightarrow> b)"

definition reject :: "dial_request \<Rightarrow> rejection \<Rightarrow> behaviour \<Rightarrow> behaviour" where
  "reject request rejection b =
     push_action (GenerateEvent (RejectedEvent rejection)) (answer (dr_outcome request) False b)"

definition dial_addresses :: "multiaddr_lib \<Rightarrow> peer_candidate \<Rightarrow> multiaddr list" where
  "dial_addresses mlib peer = List.map_filter (\<lambda>e. ma_parse mlib (ep_address e)) (pc_endpoints peer)"

definition accept ::
  "multiaddr_lib \<Rightarrow> ('pk, 'sk) libp2p_lib \<Rightarrow> dial_request \<Rightarrow> behaviour \<Rightarrow> behaviour"
where
  "accept mlib lib request b =
     (if pc_record_type (dr_peer request) \<noteq> RECORD_TYPE_LIBP2P
      then reject request UnsupportedRecordType b
      else case lp_peer_from_bytes lib (pc_peer_id (dr_peer request)) of
        Inl _ \<Rightarrow> reject request InvalidPeerId b
      | Inr p \<Rightarrow>
          if p \<in> set (bh_connected b) then answer (dr_outcome request) True b
          else let addresses = dial_addresses mlib (dr_peer request)
            in if addresses = [] then reject request NoDialableEndpoint b
               else push_action (GenerateEvent (DialingEvent p)) (push_action (DialPeer p addresses)
                 (b\<lparr> bh_waiters := add_waiter p (dr_outcome request) (bh_waiters b) \<rparr>)))"

definition publish :: "behaviour \<Rightarrow> behaviour" where
  "publish b = b\<lparr> bh_connectivity := length (bh_connected b),
                  bh_log := bh_log b @ [Published (length (bh_connected b))] \<rparr>"

definition on_swarm_event :: "from_swarm \<Rightarrow> behaviour \<Rightarrow> behaviour" where
  "on_swarm_event ev b =
     (case ev of
        ConnectionEstablished p \<Rightarrow>
          (let b1 = (if p \<in> set (bh_connected b) then b
                     else publish (b\<lparr> bh_connected := p # bh_connected b \<rparr>))
           in if map_of (bh_waiters b1) p \<noteq> None
              then push_action (GenerateEvent (ConnectedEvent p)) (resolve p True b1)
              else b1)
      | ConnectionClosed p remaining \<Rightarrow>
          if remaining = 0 \<and> p \<in> set (bh_connected b)
          then publish (b\<lparr> bh_connected := removeAll p (bh_connected b) \<rparr>)
          else b
      | DialFailure (Some p) \<Rightarrow>
          if map_of (bh_waiters b) p \<noteq> None
          then push_action (GenerateEvent (DialFailedEvent p)) (resolve p False b)
          else b
      | DialFailure None \<Rightarrow> b
      | OtherSwarmEvent \<Rightarrow> b)"

text \<open>
  The loop of a poll ends with the first action, with the buffer empty, or after \<open>n\<close> requests:
  the runtime may answer \<open>Pending\<close> for the channel while requests are left, when the task has
  used up its share. A request that another task puts into the buffer while the loop runs is
  taken by the next poll.
\<close>

primrec admit ::
  "multiaddr_lib \<Rightarrow> ('pk, 'sk) libp2p_lib \<Rightarrow> nat \<Rightarrow> behaviour \<Rightarrow> to_swarm option \<times> behaviour"
where
  "admit mlib lib 0 b = (None, b)"
| "admit mlib lib (Suc n) b =
     (case bh_dials b of
        [] \<Rightarrow> (None, b)
      | request # requests \<Rightarrow>
          let b1 = accept mlib lib request (b\<lparr> bh_dials := requests \<rparr>)
          in case bh_queue b1 of
               action # queue \<Rightarrow> (Some action, b1\<lparr> bh_queue := queue \<rparr>)
             | [] \<Rightarrow> admit mlib lib n b1)"

definition poll ::
  "multiaddr_lib \<Rightarrow> ('pk, 'sk) libp2p_lib \<Rightarrow> nat \<Rightarrow> behaviour \<Rightarrow> to_swarm option \<times> behaviour"
where
  "poll mlib lib n b =
     (case bh_queue b of
        action # queue \<Rightarrow> (Some action, b\<lparr> bh_queue := queue \<rparr>)
      | [] \<Rightarrow> admit mlib lib n b)"

section \<open>One step\<close>

datatype behaviour_input = SendDial dial_request | ResumeSend nat | AbandonSend sender
  | SwarmEvent from_swarm | Poll nat

definition behaviour_step ::
  "multiaddr_lib \<Rightarrow> ('pk, 'sk) libp2p_lib \<Rightarrow> behaviour_input \<Rightarrow> behaviour \<Rightarrow> behaviour"
where
  "behaviour_step mlib lib i b =
     (case i of SendDial request \<Rightarrow> send_dial request b | ResumeSend k \<Rightarrow> resume_send k b
      | AbandonSend w \<Rightarrow> abandon_send w b | SwarmEvent ev \<Rightarrow> on_swarm_event ev b
      | Poll n \<Rightarrow> snd (poll mlib lib n b))"

fun behaviour_enters :: "behaviour_input \<Rightarrow> sender list" where
  "behaviour_enters (SendDial request) = [dr_outcome request]"
| "behaviour_enters _ = []"

definition behaviour_held :: "behaviour \<Rightarrow> sender multiset" where
  "behaviour_held b =
     mset (map dr_outcome (bh_dials b @ bh_blocked b)) + mset (waiting (bh_waiters b))"

definition behaviour_good :: "behaviour \<Rightarrow> bool" where
  "behaviour_good b \<longleftrightarrow> keyed (bh_waiters b) \<and> distinct (bh_connected b) \<and>
     fst ` set (bh_waiters b) \<inter> set (bh_connected b) = {} \<and>
     bh_connectivity b = length (bh_connected b) \<and>
     published_after 0 (bh_log b) = bh_connectivity b \<and> truthful (\<lambda>dialed. dialed) 0 (bh_log b)"

text \<open>What is held and what is settled, before and after.\<close>

definition balance :: "behaviour \<Rightarrow> sender multiset" where
  "balance b = behaviour_held b + mset (settled (bh_log b))"

lemmas behaviour_defs = behaviour_good_def balance_def behaviour_held_def

lemma connector_good: "behaviour_good (connector depth)"
  by (simp add: connector_def behaviour_good_def)

lemma answer_good:
  "behaviour_good b \<Longrightarrow> (dialed \<Longrightarrow> bh_connected b \<noteq> []) \<Longrightarrow> behaviour_good (answer w dialed b)"
  by (auto simp: behaviour_good_def answer_def)

lemma push_action_good [simp]: "behaviour_good (push_action a b) = behaviour_good b"
  by (simp add: behaviour_good_def push_action_def)

lemma push_action_balance [simp]: "balance (push_action a b) = balance b"
  by (simp add: balance_def behaviour_held_def push_action_def)

lemma answer_balance: "balance (answer w dialed b) = add_mset w (balance b)"
  by (simp add: balance_def behaviour_held_def answer_def)

lemma resolve_good:
  assumes "behaviour_good b" and "dialed \<Longrightarrow> bh_connected b \<noteq> []"
  shows "behaviour_good (resolve p dialed b)"
  using assms by (auto simp: resolve_def behaviour_good_def split: option.splits)

lemma resolve_balance: "behaviour_good b \<Longrightarrow> balance (resolve p dialed b) = balance b"
  using mset_delete_waiters [of "bh_waiters b" p]
  by (auto simp: resolve_def behaviour_defs keyed_def ac_simps split: option.splits)

lemma accept_good:
  assumes "behaviour_good b"
  shows "behaviour_good (accept mlib lib request b)"
proof -
  have "behaviour_good (b\<lparr> bh_waiters := add_waiter p w (bh_waiters b) \<rparr>)"
    if "p \<notin> set (bh_connected b)" for p w
    using assms that by (simp add: behaviour_good_def)
  moreover have "behaviour_good (answer w False b)" for w using assms by (intro answer_good) auto
  moreover have "behaviour_good (answer w True b)" if "p \<in> set (bh_connected b)" for p w
    using assms that by (intro answer_good) auto
  ultimately show ?thesis
    using assms by (auto simp: accept_def reject_def Let_def split: sum.splits)
qed

lemma accept_balance: "balance (accept mlib lib request b) = add_mset (dr_outcome request) (balance b)"
  by (auto simp: accept_def reject_def Let_def answer_balance split: sum.splits)
    (auto simp: balance_def behaviour_held_def)

lemma accept_dials [simp]: "bh_dials (accept mlib lib request b) = bh_dials b"
  by (auto simp: accept_def reject_def answer_def push_action_def Let_def split: sum.splits)

lemma established_good:
  assumes "behaviour_good b"
  shows "behaviour_good (on_swarm_event (ConnectionEstablished p) b)"
proof (cases "map_of (bh_waiters b) p")
  case None
  then have "p \<notin> fst ` set (bh_waiters b)" by (simp add: map_of_eq_None_iff)
  with None assms show ?thesis
    by (auto simp: on_swarm_event_def Let_def publish_def behaviour_good_def)
next
  case (Some ws)
  then have "p \<notin> set (bh_connected b)"
    using assms map_of_SomeD [OF Some] by (force simp: behaviour_good_def)
  with Some assms show ?thesis
    by (auto simp: on_swarm_event_def Let_def publish_def resolve_def push_action_def behaviour_good_def)
qed

lemma on_swarm_event_good:
  assumes "behaviour_good b"
  shows "behaviour_good (on_swarm_event ev b)"
proof (cases ev)
  case (ConnectionEstablished p)
  then show ?thesis using established_good [OF assms] by simp
next
  case (ConnectionClosed p n)
  then show ?thesis
    using assms by (auto simp: on_swarm_event_def publish_def behaviour_good_def distinct_removeAll)
next
  case (DialFailure q)
  then show ?thesis
    using assms resolve_good [OF assms, of False] by (auto simp: on_swarm_event_def split: option.splits)
qed (use assms in \<open>simp add: on_swarm_event_def\<close>)

lemma publish_balance [simp]: "balance (publish b) = balance b"
  by (simp add: balance_def behaviour_held_def publish_def)

lemma connected_balance [simp]: "balance (b\<lparr> bh_connected := ps \<rparr>) = balance b"
  by (simp add: balance_def behaviour_held_def)

lemma keyed_resolve_balance: "keyed (bh_waiters b) \<Longrightarrow> balance (resolve p dialed b) = balance b"
  using mset_delete_waiters [of "bh_waiters b" p]
  by (auto simp: resolve_def behaviour_defs keyed_def ac_simps split: option.splits)

lemma on_swarm_event_balance:
  assumes "behaviour_good b"
  shows "balance (on_swarm_event ev b) = balance b"
proof -
  have k: "keyed (bh_waiters b)" using assms by (simp add: behaviour_good_def)
  moreover have "keyed (bh_waiters (publish (b\<lparr> bh_connected := ps \<rparr>)))" for ps
    using k by (simp add: publish_def)
  ultimately show ?thesis
    by (auto simp: on_swarm_event_def Let_def keyed_resolve_balance split: from_swarm.splits option.splits)
qed

lemma admit_good: "behaviour_good b \<Longrightarrow> behaviour_good (snd (admit mlib lib n b))"
proof (induction n arbitrary: b)
  case (Suc n)
  have "behaviour_good (b\<lparr> bh_dials := rs \<rparr>)" for rs using Suc.prems by (simp add: behaviour_good_def)
  then have g: "behaviour_good (accept mlib lib r (b\<lparr> bh_dials := rs \<rparr>))" for r rs by (rule accept_good)
  then have "behaviour_good ((accept mlib lib r (b\<lparr> bh_dials := rs \<rparr>))\<lparr> bh_queue := q \<rparr>)" for q r rs
    by (simp add: behaviour_good_def)
  with Suc.IH [OF g] Suc.prems show ?case by (simp add: Let_def split: list.splits)
qed simp

lemma queue_balance [simp]: "balance (b\<lparr> bh_queue := q \<rparr>) = balance b"
  by (simp add: balance_def behaviour_held_def)

lemma admit_balance: "balance (snd (admit mlib lib n b)) = balance b"
proof (induction n arbitrary: b)
  case (Suc n)
  have "add_mset (dr_outcome r) (balance (b\<lparr> bh_dials := rs \<rparr>)) = balance b" if "bh_dials b = r # rs" for r rs
    using that by (simp add: balance_def behaviour_held_def)
  with Suc.IH show ?case by (simp add: Let_def accept_balance split: list.splits)
qed simp

lemma poll_good: "behaviour_good b \<Longrightarrow> behaviour_good (snd (poll mlib lib n b))"
proof -
  assume g: "behaviour_good b"
  then have "behaviour_good (b\<lparr> bh_queue := q \<rparr>)" for q by (simp add: behaviour_good_def)
  with admit_good [OF g, of mlib lib n] show ?thesis
    by (simp add: poll_def split: list.splits)
qed

lemma poll_balance: "balance (snd (poll mlib lib n b)) = balance b"
  by (simp add: poll_def admit_balance split: list.splits)

lemma behaviour_step_good: "behaviour_good b \<Longrightarrow> behaviour_good (behaviour_step mlib lib i b)"
  by (cases i) (simp_all add: behaviour_step_def poll_good on_swarm_event_good,
      simp_all add: behaviour_good_def send_dial_def resume_send_def abandon_send_def)

lemma abandon_balance: "balance (abandon_send w b) = balance b"
proof -
  have "mset (map dr_outcome (filter (\<lambda>r. dr_outcome r \<noteq> w) rs)) + mset (filter (\<lambda>v. v = w) (map dr_outcome rs)) =
      mset (map dr_outcome rs)" for rs
    by (induction rs) auto
  from this [of "bh_blocked b"] show ?thesis
    by (simp add: balance_def behaviour_held_def abandon_send_def ac_simps)
qed

lemma resume_balance: "balance (resume_send k b) = balance b"
proof (cases "k < length (bh_blocked b)")
  case True
  from id_take_nth_drop [OF this] have "mset (map dr_outcome (bh_blocked b)) =
      add_mset (dr_outcome (bh_blocked b ! k))
        (mset (map dr_outcome (take k (bh_blocked b) @ drop (Suc k) (bh_blocked b))))"
    by (metis list.simps(9) map_append mset.simps(2) mset_append union_mset_add_mset_right)
  then show ?thesis by (simp add: balance_def behaviour_held_def resume_send_def)
qed (simp add: resume_send_def)

lemma behaviour_step_balance:
  "behaviour_good b \<Longrightarrow> balance (behaviour_step mlib lib i b) = balance b + mset (behaviour_enters i)"
  by (cases i) (simp_all add: behaviour_step_def poll_balance on_swarm_event_balance abandon_balance resume_balance,
      simp add: balance_def behaviour_held_def send_dial_def)

interpretation swarm_dialer: dialer "behaviour_step mlib lib" bh_log behaviour_held connected_peers
  behaviour_enters "\<lambda>dialed. dialed" behaviour_good
  for mlib :: multiaddr_lib and lib :: "('pk, 'sk) libp2p_lib"
proof unfold_locales
  fix b i assume "behaviour_good b"
  then show "behaviour_good (behaviour_step mlib lib i b)" by (rule behaviour_step_good)
next
  fix b i assume g: "behaviour_good b"
  show "behaviour_held (behaviour_step mlib lib i b) + mset (settled (bh_log (behaviour_step mlib lib i b))) =
      behaviour_held b + mset (settled (bh_log b)) + mset (behaviour_enters i)"
    using behaviour_step_balance [OF g, of mlib lib i] by (simp add: balance_def)
qed (simp_all add: behaviour_good_def connected_peers_def)

text \<open>
  C8: whatever the callers, the swarm and the transport do, every caller is answered at most
  once and, until then, its sender is kept in the channel, with its call that waits for room
  there, or under the peer it waits for;
  nobody waits for a connected peer; the shared count is the number of connected peers; and
  a caller is told of a success only after a count of at least one was stored.
\<close>

theorem behaviour_keeps_promises:
  assumes "distinct (concat (map behaviour_enters inputs))"
    and "b = fold (behaviour_step mlib lib) inputs (connector depth)"
  shows "distinct (settled (bh_log b)) \<and>
    set (map dr_outcome (bh_dials b @ bh_blocked b)) \<union> set (waiting (bh_waiters b)) =
      set (concat (map behaviour_enters inputs)) - set (settled (bh_log b)) \<and>
    (\<forall>p \<in> set (bh_connected b). map_of (bh_waiters b) p = None) \<and>
    connected_peers b = card (set (bh_connected b)) \<and>
    (\<forall>es w fs. bh_log b = es @ Answered w True # fs \<longrightarrow> 0 < published_after 0 es)"
proof -
  have start: "behaviour_good (connector depth)" "behaviour_held (connector depth) = {#}"
      "bh_log (connector depth) = []"
    by (simp_all add: connector_good) (simp_all add: connector_def behaviour_held_def)
  have g: "behaviour_good b" unfolding assms(2) by (rule swarm_dialer.good_run [OF start(1)])
  note once = swarm_dialer.settled_once [OF start assms(1), where mlib = mlib and lib = lib, folded assms(2)]
  have "map_of (bh_waiters b) p = None" if "p \<in> set (bh_connected b)" for p
    using g that by (auto simp: behaviour_good_def map_of_eq_None_iff)
  moreover have "connected_peers b = card (set (bh_connected b))"
    using g by (simp add: behaviour_good_def connected_peers_def distinct_card)
  moreover have "0 < published_after 0 es" if "bh_log b = es @ Answered w True # fs" for es w fs
    using swarm_dialer.success_seen [OF start(1), where mlib = mlib and lib = lib and ?is = inputs, folded assms(2)] that by simp
  ultimately show ?thesis using once by (simp add: behaviour_held_def)
qed

section \<open>Polling\<close>

text \<open>
  The swarm polls and waiting callers run in turn; the actions that the polls hand to the
  swarm are collected in order.
\<close>

primrec poll_all ::
  "multiaddr_lib \<Rightarrow> ('pk, 'sk) libp2p_lib \<Rightarrow> behaviour_input list \<Rightarrow> behaviour \<Rightarrow>
   to_swarm list \<times> behaviour"
where
  "poll_all mlib lib [] b = ([], b)"
| "poll_all mlib lib (i # is) b =
     (let action = (case i of Poll n \<Rightarrow> fst (poll mlib lib n b) | _ \<Rightarrow> None)
      in case poll_all mlib lib is (behaviour_step mlib lib i b) of
           (actions, b1) \<Rightarrow> ((case action of None \<Rightarrow> actions | Some a \<Rightarrow> a # actions), b1))"

text \<open>The actions a request adds to the queue, given who is connected.\<close>

definition request_actions ::
  "multiaddr_lib \<Rightarrow> ('pk, 'sk) libp2p_lib \<Rightarrow> peer_id list \<Rightarrow> peer_candidate \<Rightarrow> to_swarm list"
where
  "request_actions mlib lib connected peer =
     (if pc_record_type peer \<noteq> RECORD_TYPE_LIBP2P
      then [GenerateEvent (RejectedEvent UnsupportedRecordType)]
      else case lp_peer_from_bytes lib (pc_peer_id peer) of
        Inl _ \<Rightarrow> [GenerateEvent (RejectedEvent InvalidPeerId)]
      | Inr p \<Rightarrow> if p \<in> set connected then []
          else if dial_addresses mlib peer = [] then [GenerateEvent (RejectedEvent NoDialableEndpoint)]
          else [DialPeer p (dial_addresses mlib peer), GenerateEvent (DialingEvent p)])"

lemma accept_fields:
  "accept mlib lib r (b\<lparr> bh_dials := ds, bh_blocked := bs, bh_queue := q \<rparr>) =
     (accept mlib lib r b)\<lparr> bh_dials := ds, bh_blocked := bs,
        bh_queue := q @ request_actions mlib lib (bh_connected b) (dr_peer r) \<rparr>"
  by (auto simp: accept_def request_actions_def reject_def answer_def push_action_def Let_def
      split: sum.splits)

lemma accept_queue:
  "bh_queue (accept mlib lib r b) =
     bh_queue b @ request_actions mlib lib (bh_connected b) (dr_peer r)"
  using arg_cong [OF accept_fields [of mlib lib r "bh_queue b" "bh_blocked b" "bh_dials b" b], of bh_queue] by simp

lemma accept_connected [simp]: "bh_connected (accept mlib lib r b) = bh_connected b"
  by (auto simp: accept_def reject_def answer_def push_action_def Let_def split: sum.splits)

lemma request_actions_length: "length (request_actions mlib lib c peer) \<le> 2"
  by (simp add: request_actions_def split: sum.splits)

definition accept_all ::
  "multiaddr_lib \<Rightarrow> ('pk, 'sk) libp2p_lib \<Rightarrow> dial_request list \<Rightarrow> behaviour \<Rightarrow> behaviour"
where
  "accept_all mlib lib rs b = fold (accept mlib lib) rs b"

lemma accept_all_simps:
  "accept_all mlib lib [] b = b"
  "accept_all mlib lib (r # rs) b = accept_all mlib lib rs (accept mlib lib r b)"
  by (simp_all add: accept_all_def)

lemma accept_all_fields:
  "accept_all mlib lib rs (b\<lparr> bh_dials := ds, bh_blocked := bs, bh_queue := q \<rparr>) =
     (accept_all mlib lib rs b)\<lparr> bh_dials := ds, bh_blocked := bs,
        bh_queue := q @ concat (map (\<lambda>r. request_actions mlib lib (bh_connected b) (dr_peer r)) rs) \<rparr>"
  by (induction rs arbitrary: b q) (simp_all add: accept_all_simps accept_fields)


definition actions_of ::
  "multiaddr_lib \<Rightarrow> ('pk, 'sk) libp2p_lib \<Rightarrow> peer_id list \<Rightarrow> dial_request list \<Rightarrow> to_swarm list"
where
  "actions_of mlib lib connected rs =
     concat (map (\<lambda>r. request_actions mlib lib connected (dr_peer r)) rs)"

lemma actions_of_simps [simp]:
  "actions_of mlib lib c [] = []"
  "actions_of mlib lib c (r # rs) = request_actions mlib lib c (dr_peer r) @ actions_of mlib lib c rs"
  "actions_of mlib lib c (rs @ qs) = actions_of mlib lib c rs @ actions_of mlib lib c qs"
  by (simp_all add: actions_of_def)

text \<open>
  What is due when the requests \<open>rs\<close> are to be taken, and the state once all is handed over,
  with the requests \<open>bs\<close> left waiting for room.
\<close>

definition due :: "multiaddr_lib \<Rightarrow> ('pk, 'sk) libp2p_lib \<Rightarrow> dial_request list \<Rightarrow> behaviour \<Rightarrow> to_swarm list" where
  "due mlib lib rs b = bh_queue b @ actions_of mlib lib (bh_connected b) rs"

definition drained ::
  "multiaddr_lib \<Rightarrow> ('pk, 'sk) libp2p_lib \<Rightarrow> dial_request list \<Rightarrow> dial_request list \<Rightarrow> behaviour \<Rightarrow> behaviour"
where
  "drained mlib lib rs bs b =
     (accept_all mlib lib rs b)\<lparr> bh_dials := [], bh_blocked := bs, bh_queue := [] \<rparr>"

lemma drained_any [simp]:
  "drained mlib lib rs bs (b\<lparr> bh_queue := q \<rparr>) = drained mlib lib rs bs b"
  "drained mlib lib rs bs (b\<lparr> bh_dials := ds \<rparr>) = drained mlib lib rs bs b"
  "drained mlib lib rs bs (b\<lparr> bh_blocked := ks \<rparr>) = drained mlib lib rs bs b"
  using accept_all_fields [of mlib lib rs q "bh_blocked b" "bh_dials b" b]
    accept_all_fields [of mlib lib rs "bh_queue b" "bh_blocked b" ds b]
    accept_all_fields [of mlib lib rs "bh_queue b" ks "bh_dials b" b]
    accept_all_fields [of mlib lib rs "bh_queue b" "bh_blocked b" "bh_dials b" b]
  by (simp_all add: drained_def)

text \<open>
  A poll hands over the first action due or none, and leaves the rest due; \<open>qs\<close> is what is
  taken after the requests in the buffer.
\<close>

definition takes ::
  "multiaddr_lib \<Rightarrow> ('pk, 'sk) libp2p_lib \<Rightarrow> behaviour \<Rightarrow> to_swarm option \<times> behaviour \<Rightarrow> bool"
where
  "takes mlib lib b r \<longleftrightarrow> bh_depth (snd r) = bh_depth b \<and> bh_blocked (snd r) = bh_blocked b \<and>
     length (bh_dials (snd r)) \<le> length (bh_dials b) \<and>
     (\<forall>qs bs. due mlib lib (bh_dials b @ qs) b =
         (case fst r of None \<Rightarrow> [] | Some a \<Rightarrow> [a]) @ due mlib lib (bh_dials (snd r) @ qs) (snd r) \<and>
       drained mlib lib (bh_dials (snd r) @ qs) bs (snd r) = drained mlib lib (bh_dials b @ qs) bs b)"

definition backlog :: "behaviour \<Rightarrow> nat" where
  "backlog b = length (bh_queue b) + 2 * length (bh_dials b)"

lemma accept_keeps [simp]:
  "bh_depth (accept mlib lib r b) = bh_depth b" "bh_blocked (accept mlib lib r b) = bh_blocked b"
  by (auto simp: accept_def reject_def answer_def push_action_def Let_def split: sum.splits)

lemma accept_takes:
  assumes "bh_dials b = r # rs"
  shows "due mlib lib (rs @ qs) (accept mlib lib r (b\<lparr> bh_dials := rs \<rparr>)) = due mlib lib (bh_dials b @ qs) b"
    and "drained mlib lib (rs @ qs) bs (accept mlib lib r (b\<lparr> bh_dials := rs \<rparr>)) =
      drained mlib lib (bh_dials b @ qs) bs b"
proof -
  show "due mlib lib (rs @ qs) (accept mlib lib r (b\<lparr> bh_dials := rs \<rparr>)) = due mlib lib (bh_dials b @ qs) b"
    using assms by (simp add: due_def accept_queue)
  have "drained mlib lib (bh_dials b @ qs) bs b = drained mlib lib (r # rs @ qs) bs (b\<lparr> bh_dials := rs \<rparr>)"
    using assms by simp
  then show "drained mlib lib (rs @ qs) bs (accept mlib lib r (b\<lparr> bh_dials := rs \<rparr>)) =
      drained mlib lib (bh_dials b @ qs) bs b"
    by (simp add: drained_def accept_all_simps)
qed

lemma admit_takes: "takes mlib lib b (admit mlib lib n b)"
proof (induction n arbitrary: b)
  case (Suc n)
  show ?case
  proof (cases "bh_dials b")
    case (Cons r rs)
    let ?c = "accept mlib lib r (b\<lparr> bh_dials := rs \<rparr>)"
    note c = accept_takes [OF Cons, of mlib lib]
    show ?thesis
    proof (cases "bh_queue ?c")
      case Nil
      with Suc.IH [of ?c] c Cons show ?thesis by (simp add: takes_def Let_def)
    next
      case (Cons a q)
      then have "due mlib lib (rs @ qs) ?c = a # due mlib lib (rs @ qs) (?c\<lparr> bh_queue := q \<rparr>)" for qs
        by (simp add: due_def)
      with c \<open>bh_dials b = r # rs\<close> Cons show ?thesis by (simp add: takes_def Let_def)
    qed
  qed (simp add: takes_def)
qed (simp add: takes_def)

lemma poll_takes: "takes mlib lib b (poll mlib lib n b)"
proof (cases "bh_queue b")
  case Nil
  with admit_takes [of mlib lib b n] show ?thesis by (simp add: poll_def)
qed (simp add: poll_def takes_def due_def)

text \<open>A poll that may take a request makes the backlog smaller.\<close>

lemma admit_load:
  "bh_queue b = [] \<Longrightarrow> backlog (snd (admit mlib lib n b)) \<le> backlog b \<and>
     (0 < n \<and> bh_dials b \<noteq> [] \<longrightarrow> backlog (snd (admit mlib lib n b)) < backlog b)"
proof (induction n arbitrary: b)
  case (Suc n)
  show ?case
  proof (cases "bh_dials b")
    case (Cons r rs)
    let ?c = "accept mlib lib r (b\<lparr> bh_dials := rs \<rparr>)"
    have q: "length (bh_queue ?c) \<le> 2" using Suc.prems by (simp add: accept_queue request_actions_length)
    then show ?thesis
      using Suc.IH [of ?c] Cons Suc.prems by (cases "bh_queue ?c") (auto simp: backlog_def Let_def)
  qed simp
qed simp

lemma poll_load:
  assumes "0 < n"
  shows "backlog (snd (poll mlib lib n b)) \<le> backlog b - 1"
proof (cases "bh_queue b")
  case Nil
  with admit_load [OF Nil, of mlib lib n] assms show ?thesis
    by (cases "bh_dials b") (auto simp: poll_def backlog_def)
qed (simp add: poll_def backlog_def)

text \<open>The waiting callers go on in the order of their calls.\<close>

lemma resume_first:
  "resume_send 0 b =
     (if bh_blocked b \<noteq> [] \<and> 0 < room b
      then b\<lparr> bh_dials := bh_dials b @ [hd (bh_blocked b)], bh_blocked := tl (bh_blocked b) \<rparr> else b)"
  by (cases "bh_blocked b") (simp_all add: resume_send_def)

lemma resume_due:
  "due mlib lib (bh_dials (resume_send 0 b) @ bh_blocked (resume_send 0 b)) (resume_send 0 b) =
     due mlib lib (bh_dials b @ bh_blocked b) b"
  "drained mlib lib (bh_dials (resume_send 0 b) @ bh_blocked (resume_send 0 b)) [] (resume_send 0 b) =
     drained mlib lib (bh_dials b @ bh_blocked b) [] b"
  "bh_depth (resume_send 0 b) = bh_depth b"
  by (cases "bh_blocked b"; simp add: resume_first due_def)+

lemma poll_unloaded: "backlog (snd (poll mlib lib n b)) \<le> backlog b"
proof (cases "bh_queue b")
  case Nil
  with admit_load [OF Nil, of mlib lib n] show ?thesis by (simp add: poll_def)
qed (simp add: poll_def backlog_def)

lemma drained_done:
  assumes "bh_queue b = []" and "bh_dials b = []"
  shows "drained mlib lib [] (bh_blocked b) b = b"
  using assms by (cases b) (simp add: drained_def accept_all_simps)

text \<open>Polls alone hand over all that is in the buffer.\<close>

lemma polls_hand_over:
  "backlog b \<le> length (filter ((<) 0) ns) \<Longrightarrow>
   poll_all mlib lib (map Poll ns) b =
     (due mlib lib (bh_dials b) b, drained mlib lib (bh_dials b) (bh_blocked b) b)"
proof (induction ns arbitrary: b)
  case Nil
  then show ?case by (simp add: backlog_def due_def drained_done)
next
  case (Cons n ns)
  obtain r b1 where p: "poll mlib lib n b = (r, b1)" by (cases "poll mlib lib n b")
  have "backlog b1 \<le> length (filter ((<) 0) ns)"
    using poll_load [of n mlib lib b] poll_unloaded [of mlib lib n b] Cons.prems p by (cases n) auto
  from Cons.IH [OF this] poll_takes [of mlib lib b n, unfolded takes_def, THEN conjunct2, THEN conjunct2,
      THEN conjunct2, THEN spec, of "[]"] poll_takes [of mlib lib b n, unfolded takes_def, THEN conjunct2, THEN conjunct1]
  show ?case by (cases r) (simp_all add: p behaviour_step_def)
qed

text \<open>
  What is handed over never overtakes; a round, in which the first waiting caller runs and the
  swarm polls, makes progress.
\<close>

definition in_turn :: "behaviour_input \<Rightarrow> bool" where
  "in_turn i \<longleftrightarrow> i = ResumeSend 0 \<or> (\<exists>n. i = Poll n)"

lemma in_turn_due:
  assumes "in_turn i"
  shows "due mlib lib (bh_dials b @ bh_blocked b) b =
      (case (case i of Poll n \<Rightarrow> fst (poll mlib lib n b) | _ \<Rightarrow> None) of None \<Rightarrow> [] | Some a \<Rightarrow> [a]) @
      (let b1 = behaviour_step mlib lib i b in due mlib lib (bh_dials b1 @ bh_blocked b1) b1) \<and>
    (let b1 = behaviour_step mlib lib i b in drained mlib lib (bh_dials b1 @ bh_blocked b1) [] b1) =
      drained mlib lib (bh_dials b @ bh_blocked b) [] b"
proof -
  have blocked: "bh_blocked (snd (poll mlib lib n b)) = bh_blocked b"
    and due: "due mlib lib (bh_dials b @ qs) b = (case fst (poll mlib lib n b) of None \<Rightarrow> [] | Some a \<Rightarrow> [a]) @
        due mlib lib (bh_dials (snd (poll mlib lib n b)) @ qs) (snd (poll mlib lib n b))"
    and drained: "drained mlib lib (bh_dials (snd (poll mlib lib n b)) @ qs) bs (snd (poll mlib lib n b)) =
        drained mlib lib (bh_dials b @ qs) bs b" for n qs bs
    using poll_takes [of mlib lib b n] unfolding takes_def by blast+
  consider "i = ResumeSend 0" | n where "i = Poll n" using assms by (auto simp: in_turn_def)
  then show ?thesis
  proof cases
    case 1
    then show ?thesis by (simp only: behaviour_step_def behaviour_input.case Let_def resume_due) simp
  next
    case (2 n)
    then show ?thesis
      by (simp only: behaviour_step_def behaviour_input.case Let_def blocked drained) (simp only: due [of _ n])
  qed
qed

lemma in_turn_all:
  assumes "\<forall>i \<in> set is. in_turn i" and "poll_all mlib lib is b = (actions, b1)"
  shows "due mlib lib (bh_dials b @ bh_blocked b) b = actions @ due mlib lib (bh_dials b1 @ bh_blocked b1) b1 \<and>
    drained mlib lib (bh_dials b1 @ bh_blocked b1) [] b1 = drained mlib lib (bh_dials b @ bh_blocked b) [] b"
  using assms
proof (induction "is" arbitrary: b actions)
  case (Cons i js)
  obtain as where p: "poll_all mlib lib js (behaviour_step mlib lib i b) = (as, b1)"
    using Cons.prems(2) by (auto split: prod.splits)
  have "in_turn i" using Cons.prems by simp
  from Cons.IH [OF _ p] in_turn_due [OF this, of mlib lib b] Cons.prems p show ?case
    by (auto simp: Let_def split: option.splits)
qed simp

lemma poll_all_append:
  "poll_all mlib lib (is @ js) b =
     (case poll_all mlib lib is b of (as, c) \<Rightarrow> (case poll_all mlib lib js c of (bs, d) \<Rightarrow> (as @ bs, d)))"
  by (induction "is" arbitrary: b) (simp_all add: Let_def split: prod.splits option.splits)

lemma round_load:
  assumes "0 < bh_depth b" and "0 < n"
    and "poll_all mlib lib [ResumeSend 0, Poll n] b = (actions, b1)"
  shows "backlog b1 + 3 * length (bh_blocked b1) \<le> backlog b + 3 * length (bh_blocked b) - 1 \<and> bh_depth b1 = bh_depth b"
proof -
  let ?c = "resume_send 0 b"
  have b1: "b1 = snd (poll mlib lib n ?c)" using assms(3) by (simp add: behaviour_step_def Let_def)
  note poll = poll_load [OF assms(2), of mlib lib ?c] poll_takes [of mlib lib ?c n, unfolded takes_def]
  show ?thesis
  proof (cases "bh_blocked b \<noteq> [] \<and> 0 < room b")
    case True
    with poll show ?thesis by (cases "bh_blocked b") (auto simp: b1 resume_first backlog_def)
  next
    case False
    then have c: "?c = b" by (auto simp: resume_first)
    show ?thesis
    proof (cases "bh_blocked b = []")
      case False
      with \<open>\<not> (bh_blocked b \<noteq> [] \<and> 0 < room b)\<close> assms(1) have "0 < backlog b"
        by (cases "bh_dials b") (simp_all add: room_def backlog_def)
      with poll show ?thesis by (simp add: b1 c)
    qed (use poll in \<open>simp add: b1 c\<close>)
  qed
qed

lemma rounds_hand_over:
  "\<lbrakk> 0 < bh_depth b; \<forall>n \<in> set ns. 0 < n; backlog b + 3 * length (bh_blocked b) \<le> length ns \<rbrakk> \<Longrightarrow>
   poll_all mlib lib (concat (map (\<lambda>n. [ResumeSend 0, Poll n]) ns)) b =
     (due mlib lib (bh_dials b @ bh_blocked b) b, drained mlib lib (bh_dials b @ bh_blocked b) [] b)"
proof (induction ns arbitrary: b)
  case Nil
  then show ?case using drained_done [of b mlib lib] by (simp add: backlog_def due_def)
next
  case (Cons n ns)
  obtain as c where p: "poll_all mlib lib [ResumeSend 0, Poll n] b = (as, c)" by fastforce
  have "backlog c + 3 * length (bh_blocked c) \<le> length ns" "bh_depth c = bh_depth b"
    using round_load [OF _ _ p] Cons.prems by auto
  moreover have "poll_all mlib lib (concat (map (\<lambda>n. [ResumeSend 0, Poll n]) (n # ns))) b =
      (case poll_all mlib lib (concat (map (\<lambda>n. [ResumeSend 0, Poll n]) ns)) c of (bs, d) \<Rightarrow> (as @ bs, d))"
    by (simp only: list.map concat.simps poll_all_append p prod.case)
  moreover have "\<forall>i \<in> set [ResumeSend 0, Poll n]. in_turn i" by (simp add: in_turn_def)
  ultimately show ?case using in_turn_all [OF _ p] Cons.IH [of c] Cons.prems by simp
qed

text \<open>
  C26: a swarm that goes on polling is handed the actions already queued and then those of the
  requests in the buffer, in the order they entered it, after at most two polls per request
  and one per action, counting polls that may take a request at all; every such request was
  then accepted or refused, and callers that wait for room still wait. Where the waiting
  callers run in turn between the polls, nothing ever overtakes, and after at most three more
  rounds per caller nobody waits and the requests of all were handed over. A dial is asked for
  only with the parsed addresses, at least one, of a libp2p peer not yet connected.
\<close>

theorem polls_drain:
  "(backlog b \<le> length (filter ((<) 0) ns) \<longrightarrow>
     poll_all mlib lib (map Poll ns) b =
       (bh_queue b @ actions_of mlib lib (bh_connected b) (bh_dials b),
        (fold (accept mlib lib) (bh_dials b) b)
          \<lparr> bh_dials := [], bh_blocked := bh_blocked b, bh_queue := [] \<rparr>)) \<and>
   (0 < bh_depth b \<and> (\<forall>n \<in> set ns. 0 < n) \<and> backlog b + 3 * length (bh_blocked b) \<le> length ns \<longrightarrow>
     poll_all mlib lib (concat (map (\<lambda>n. [ResumeSend 0, Poll n]) ns)) b =
       (bh_queue b @ actions_of mlib lib (bh_connected b) (bh_dials b @ bh_blocked b),
        (fold (accept mlib lib) (bh_dials b @ bh_blocked b) b)
          \<lparr> bh_dials := [], bh_blocked := [], bh_queue := [] \<rparr>)) \<and>
   (\<forall>is. (\<forall>i \<in> set is. in_turn i) \<longrightarrow>
     (\<exists>left. bh_queue b @ actions_of mlib lib (bh_connected b) (bh_dials b @ bh_blocked b) =
        fst (poll_all mlib lib is b) @ left)) \<and>
   (\<forall>p addresses. DialPeer p addresses \<in>
        set (actions_of mlib lib (bh_connected b) (bh_dials b @ bh_blocked b)) \<longrightarrow>
      p \<notin> set (bh_connected b) \<and> addresses \<noteq> [] \<and>
      (\<exists>r \<in> set (bh_dials b @ bh_blocked b). pc_record_type (dr_peer r) = RECORD_TYPE_LIBP2P \<and>
         lp_peer_from_bytes lib (pc_peer_id (dr_peer r)) = Inr p \<and>
         addresses = dial_addresses mlib (dr_peer r)))"
proof (intro conjI)
  show "\<forall>is. (\<forall>i \<in> set is. in_turn i) \<longrightarrow>
     (\<exists>left. bh_queue b @ actions_of mlib lib (bh_connected b) (bh_dials b @ bh_blocked b) =
        fst (poll_all mlib lib is b) @ left)"
    using in_turn_all [of _ mlib lib b, OF _ surjective_pairing] by (fastforce simp: due_def)
  have "p \<notin> set c \<and> addresses \<noteq> [] \<and> pc_record_type peer = RECORD_TYPE_LIBP2P \<and>
      lp_peer_from_bytes lib (pc_peer_id peer) = Inr p \<and> addresses = dial_addresses mlib peer"
    if "DialPeer p addresses \<in> set (request_actions mlib lib c peer)" for p addresses c peer
    using that by (auto simp: request_actions_def split: if_splits sum.splits)
  then show "\<forall>p addresses. DialPeer p addresses \<in>
        set (actions_of mlib lib (bh_connected b) (bh_dials b @ bh_blocked b)) \<longrightarrow>
      p \<notin> set (bh_connected b) \<and> addresses \<noteq> [] \<and>
      (\<exists>r \<in> set (bh_dials b @ bh_blocked b). pc_record_type (dr_peer r) = RECORD_TYPE_LIBP2P \<and>
         lp_peer_from_bytes lib (pc_peer_id (dr_peer r)) = Inr p \<and>
         addresses = dial_addresses mlib (dr_peer r))"
    unfolding actions_of_def by fastforce
qed (use polls_hand_over [of b ns mlib lib] rounds_hand_over [of b ns mlib lib] in
    \<open>auto simp: due_def drained_def accept_all_def\<close>)

section \<open>Concrete runs\<close>

definition dial_of :: "bytes \<Rightarrow> sender \<Rightarrow> dial_request" where
  "dial_of p w = \<lparr> dr_peer = dialable_peer p, dr_outcome = w \<rparr>"

lemma accept_dialable:
  "accept dialable_lib toy_lib (dial_of p w) b =
     (if p \<in> set (bh_connected b) then answer w True b
      else push_action (GenerateEvent (DialingEvent p))
        (push_action (DialPeer p [[Ip4 (ip4 127 0 0 1), Tcp 4001]])
          (b\<lparr> bh_waiters := add_waiter p w (bh_waiters b) \<rparr>)))"
  by (simp add: accept_def dial_of_def dialable_peer_def dialable_lib_def toy_lib_def
      dial_addresses_def List.map_filter_def)

lemma poll_request:
  assumes "bh_queue b = []" and "bh_dials b = []" and "bh_blocked b = []" and "bh_connected b = []"
    and "0 < bh_depth b"
  shows "fold (behaviour_step dialable_lib toy_lib) [SendDial (dial_of p w), Poll 1, Poll 1] b =
    b\<lparr> bh_waiters := add_waiter p w (bh_waiters b) \<rparr>"
  using assms
  by (cases b) (simp add: behaviour_step_def send_dial_def room_def poll_def accept_dialable push_action_def)

theorem behaviour_keeps_promises_witness:
  "\<exists>b. b = fold (behaviour_step dialable_lib toy_lib)
         [SendDial (dial_of [1] 0), Poll 1, Poll 1, SwarmEvent (ConnectionEstablished [1])] (connector 8) \<and>
     bh_log b = [Published 1, Answered 0 True] \<and> connected_peers b = card {[1::u8]} \<and>
     distinct (settled (bh_log b))"
proof -
  let ?is = "[SendDial (dial_of [1] 0), Poll 1, Poll 1, SwarmEvent (ConnectionEstablished [1])]"
  define b where "b = fold (behaviour_step dialable_lib toy_lib) ?is (connector 8)"
  have "b = on_swarm_event (ConnectionEstablished [1])
      ((connector 8)\<lparr> bh_waiters := add_waiter [1] 0 [] \<rparr>)"
    using poll_request [of "connector 8" "[1]" 0]
    by (simp add: b_def connector_def) (simp add: behaviour_step_def)
  then have l: "bh_log b = [Published 1, Answered 0 True]" "bh_connected b = [[1]]"
    by (simp_all add: on_swarm_event_def connector_def publish_def resolve_def push_action_def
        add_waiter_def answer_all_def)
  have "distinct (concat (map behaviour_enters ?is))" by (simp add: dial_of_def)
  from behaviour_keeps_promises [OF this b_def] l show ?thesis
    by (intro exI [of _ b]) (simp add: b_def)
qed

text \<open>
  With a depth of one and two callers, polls alone hand over the first request; the second
  caller's request comes after its task has run.
\<close>

theorem polls_drain_witness:
  "let b = send_dial (dial_of [2] 1) (send_dial (dial_of [1] 0) (connector 1));
       dialed = (\<lambda>p. [DialPeer p [[Ip4 (ip4 127 0 0 1), Tcp 4001]], GenerateEvent (DialingEvent p)])
   in fst (poll_all dialable_lib toy_lib (map Poll [1, 1, 1]) b) = dialed [1] \<and>
     fst (poll_all dialable_lib toy_lib (concat (map (\<lambda>n. [ResumeSend 0, Poll n]) [1, 1, 1, 1, 1])) b) =
       dialed [1] @ dialed [2]"
proof -
  let ?b = "send_dial (dial_of [2] 1) (send_dial (dial_of [1] 0) (connector 1))"
  have b: "bh_dials ?b = [dial_of [1] 0]" "bh_blocked ?b = [dial_of [2] 1]" "bh_queue ?b = []"
      "bh_connected ?b = []" "bh_depth ?b = 1"
    by (simp_all add: send_dial_def connector_def room_def)
  have polls: "backlog ?b \<le> length (filter ((<) 0) [1, 1, 1::nat])"
    and rounds: "0 < bh_depth ?b \<and> (\<forall>n \<in> set [1, 1, 1, 1, 1::nat]. 0 < n) \<and>
      backlog ?b + 3 * length (bh_blocked ?b) \<le> length [1, 1, 1, 1, 1::nat]"
    using b by (simp_all add: backlog_def)
  have a: "request_actions dialable_lib toy_lib [] (dr_peer (dial_of p w)) =
      [DialPeer p [[Ip4 (ip4 127 0 0 1), Tcp 4001]], GenerateEvent (DialingEvent p)]" for p w
    by (simp add: request_actions_def dial_of_def dialable_peer_def dialable_lib_def toy_lib_def
        dial_addresses_def List.map_filter_def)
  note drains = polls_drain [of ?b _ dialable_lib toy_lib]
  from mp [OF conjunct1 [OF drains] polls] mp [OF conjunct1 [OF conjunct2 [OF drains]] rounds]
  show ?thesis unfolding Let_def by (simp only: b fst_conv actions_of_simps a append_Nil append_Nil2 append.simps)
qed

text \<open>
  The depth of the channel does not bound the dials in flight: with a depth of one, any number
  of callers can wait at once, and a caller that gave up waiting is still kept, until the
  swarm reports about its peer.
\<close>

theorem queue_depth_is_no_bound:
  "\<exists>inputs b. b = fold (behaviour_step dialable_lib toy_lib) inputs (connector 1) \<and>
     bh_dials b = [] \<and> bh_blocked b = [] \<and> length (waiting (bh_waiters b)) = n"
proof -
  let ?run = "\<lambda>n. fold (behaviour_step dialable_lib toy_lib)
      (concat (map (\<lambda>w. [SendDial (dial_of [1] w), Poll 1, Poll 1]) [0..<n])) (connector 1)"
  have "bh_dials (?run n) = [] \<and> bh_blocked (?run n) = [] \<and> 0 < bh_depth (?run n) \<and> bh_queue (?run n) = [] \<and> bh_connected (?run n) = [] \<and>
      size (mset (waiting (bh_waiters (?run n)))) = n"
  proof (induction n)
    case 0
    then show ?case by (simp add: connector_def)
  next
    case (Suc n)
    then show ?case
      using poll_request [of "?run n" "[1]" n] by simp
  qed
  then show ?thesis by auto
qed

end
