(* ===== verification/Node_P2p.thy ===== *)
theory Node_P2p
  imports Dial_Waiters Bootstrap "HOL-Library.List_Lexorder"
    "HOL-Library.Char_ord"
begin

text \<open>
  \<open>crates/resurrect-node/src/p2p.rs\<close>: the native libp2p host. Its event loop owns the swarm and
  takes swarm events and commands one at a time; the handle sends commands and reads the
  published status. Sets and maps are lists without duplicates. The swarm's answer to a dial
  and whether a caller still listens are arguments of each command; the text of peer ids and
  addresses is an argument of the development.
\<close>

section \<open>Data\<close>

record host_config =
  hc_listen_addresses :: "multiaddr list"
  hc_configured_peers :: "multiaddr list"
  hc_enable_mdns :: bool
  hc_idle_connection_timeout :: duration

definition default_host_config :: host_config where
  "default_host_config =
     \<lparr> hc_listen_addresses = [[Ip4 0, Tcp 4001]], hc_configured_peers = [],
       hc_enable_mdns = True, hc_idle_connection_timeout = from_secs 120 \<rparr>"

record host_status =
  hs_peer_id :: string
  hs_listen_addresses :: "string list"
  hs_connected_peers :: "string list"
  hs_native_discovered_peers :: nat

datatype host_error =
    Build string | NoListener | InvalidConfiguredPeer string | ListenTimeout | HostStopped
  | HostUnsupportedRecordType u32 | HostInvalidPeerId | HostNoDialableEndpoint | DialError string

fun host_error_text :: "host_error \<Rightarrow> string" where
  "host_error_text (Build e) = ''failed to build libp2p host: '' @ e"
| "host_error_text NoListener = ''no libp2p listener could be started''"
| "host_error_text (InvalidConfiguredPeer a) = ''configured peer must end in /p2p/<peer-id>: '' @ a"
| "host_error_text ListenTimeout = ''timed out waiting for libp2p listener''"
| "host_error_text HostStopped = ''libp2p host stopped''"
| "host_error_text (HostUnsupportedRecordType t) =
     ''record type '' @ decimal (unat t) @ '' cannot be dialed by the libp2p host''"
| "host_error_text HostInvalidPeerId = ''candidate contains an invalid libp2p peer ID''"
| "host_error_text HostNoDialableEndpoint = ''candidate has no dialable libp2p endpoint''"
| "host_error_text (DialError e) = ''libp2p dial failed: '' @ e"

datatype host_reply =
    DialReply "host_error + unit" | NativeReply "peer_candidate list" | ShutdownReply

datatype command =
    CmdDial peer_candidate sender | CmdAddVerified peer_candidate | CmdNativeCandidates sender
  | CmdPruneDialWaiters | CmdShutdown sender

record event_loop =
  el_running :: bool
  el_local_peer :: peer_id
  el_connected :: "peer_id list"
  el_native :: "(peer_id \<times> multiaddr list) list"
  el_verified :: "(peer_id \<times> peer_candidate) list"
  el_pending :: waiters
  el_listen_addresses :: "multiaddr list"
  el_status :: host_status
  el_log :: "host_reply dial_effect list"

datatype swarm_event =
    NewListenAddr multiaddr | ExpiredListenAddr multiaddr
  | HostConnectionEstablished peer_id | HostConnectionClosed peer_id nat
  | OutgoingConnectionError "peer_id option" string
  | MdnsDiscovered "(peer_id \<times> multiaddr) list" | MdnsExpired "(peer_id \<times> multiaddr) list"
  | IdentifyReceived peer_id "multiaddr list" | OtherHostEvent

record host_env =
  he_dial :: "peer_id \<Rightarrow> multiaddr list \<Rightarrow> string + unit"
  he_is_closed :: "sender \<Rightarrow> bool"

record host_text =
  ht_peer :: "peer_id \<Rightarrow> string"
  ht_address :: "multiaddr \<Rightarrow> string"

section \<open>Starting the host\<close>

definition split_configured_peer :: "host_text \<Rightarrow> multiaddr \<Rightarrow> host_error + (peer_id \<times> multiaddr)" where
  "split_configured_peer text address =
     (case rev address of
        P2p p # popped \<Rightarrow> if popped \<noteq> [] then Inr (p, rev popped)
                          else Inl (InvalidConfiguredPeer (ht_address text address))
      | _ \<Rightarrow> Inl (InvalidConfiguredPeer (ht_address text address)))"

text \<open>\<open>entry(peer).or_default()\<close> with one or several insertions into the set found there.\<close>

definition add_addresses :: "peer_id \<Rightarrow> multiaddr list \<Rightarrow> (peer_id \<times> multiaddr list) list \<Rightarrow>
    (peer_id \<times> multiaddr list) list" where
  "add_addresses p addresses native =
     AList.map_default p (fold List.insert addresses []) (fold List.insert addresses) native"

definition new_event_loop :: "host_text \<Rightarrow> peer_id \<Rightarrow> (peer_id \<times> multiaddr) list \<Rightarrow> event_loop" where
  "new_event_loop text local_peer configured_peers =
     \<lparr> el_running = True, el_local_peer = local_peer, el_connected = [],
       el_native = fold (\<lambda>(p, address). add_addresses p [address]) configured_peers [],
       el_verified = [], el_pending = [], el_listen_addresses = [],
       el_status = \<lparr> hs_peer_id = ht_peer text local_peer, hs_listen_addresses = [],
         hs_connected_peers = [], hs_native_discovered_peers = 0 \<rparr>,
       el_log = [] \<rparr>"

text \<open>
  \<open>build\<close> is what the transport and behaviour builders answer, \<open>listen_on\<close> whether the swarm
  accepts a listener.
\<close>

definition start :: "host_text \<Rightarrow> (string + unit) \<Rightarrow> (multiaddr \<Rightarrow> bool) \<Rightarrow> peer_id \<Rightarrow> host_config \<Rightarrow>
    host_error + event_loop" where
  "start text build listen_on local_peer config =
     res_bind (traverse (split_configured_peer text) (hc_configured_peers config)) (\<lambda>configured_peers.
     res_bind (map_err Build build) (\<lambda>_.
     let listening = length (filter listen_on (hc_listen_addresses config))
     in if listening = 0 then Inl NoListener
        else Inr (new_event_loop text local_peer configured_peers)))"

section \<open>The event loop\<close>

definition host_publish_status :: "host_text \<Rightarrow> event_loop \<Rightarrow> event_loop" where
  "host_publish_status text s =
     (let connected_peers = sort (map (ht_peer text) (el_connected s));
          listen_addresses = sort (map (ht_address text) (el_listen_addresses s))
      in s\<lparr> el_status := \<lparr> hs_peer_id = ht_peer text (el_local_peer s),
               hs_listen_addresses = listen_addresses, hs_connected_peers = connected_peers,
               hs_native_discovered_peers = length (el_native s) \<rparr>,
            el_log := el_log s @ [Published (length connected_peers)] \<rparr>)"

definition reply :: "sender \<Rightarrow> host_reply \<Rightarrow> event_loop \<Rightarrow> event_loop" where
  "reply w a s = s\<lparr> el_log := el_log s @ [Answered w a] \<rparr>"

definition dial :: "multiaddr_lib \<Rightarrow> ('pk, 'sk) libp2p_lib \<Rightarrow> host_env \<Rightarrow> peer_candidate \<Rightarrow> sender \<Rightarrow>
    event_loop \<Rightarrow> event_loop" where
  "dial mlib lib env peer w s =
     (if pc_record_type peer \<noteq> RECORD_TYPE_LIBP2P
      then reply w (DialReply (Inl (HostUnsupportedRecordType (pc_record_type peer)))) s
      else case lp_peer_from_bytes lib (pc_peer_id peer) of
        Inl _ \<Rightarrow> reply w (DialReply (Inl HostInvalidPeerId)) s
      | Inr p \<Rightarrow>
          if p \<in> set (el_connected s) then reply w (DialReply (Inr ())) s
          else let addresses = List.map_filter (\<lambda>e. ma_parse mlib (ep_address e)) (pc_endpoints peer)
            in if addresses = [] then reply w (DialReply (Inl HostNoDialableEndpoint)) s
               else case he_dial env p addresses of
                 Inr _ \<Rightarrow> s\<lparr> el_pending := add_waiter p w (el_pending s) \<rparr>
               | Inl e \<Rightarrow> reply w (DialReply (Inl (DialError e))) s)"

definition native_candidates :: "host_text \<Rightarrow> event_loop \<Rightarrow> peer_candidate list" where
  "native_candidates text s =
     map (\<lambda>(p, addresses).
        \<lparr> pc_record_type = RECORD_TYPE_LIBP2P, pc_peer_id = p, pc_sequence = 0,
          pc_endpoints = map (\<lambda>a. \<lparr> ep_address = ht_address text a \<rparr>) addresses,
          pc_raw_signed_record = [], pc_expires_at = - 1, pc_source = discovery_source_kind.Native,
          pc_announcement_block = None, pc_announcement_log_index = None \<rparr>) (el_native s)"

text \<open>\<open>None\<close> is the panic of the branch that the code marks unreachable.\<close>

fun handle_command :: "multiaddr_lib \<Rightarrow> ('pk, 'sk) libp2p_lib \<Rightarrow> host_text \<Rightarrow> host_env \<Rightarrow> command \<Rightarrow>
    event_loop \<Rightarrow> event_loop option" where
  "handle_command mlib lib text env (CmdDial peer w) s = Some (dial mlib lib env peer w s)"
| "handle_command mlib lib text env (CmdAddVerified peer) s =
     Some (host_publish_status text
       (case lp_peer_from_bytes lib (pc_peer_id peer) of
          Inr p \<Rightarrow> s\<lparr> el_verified := AList.update p peer (el_verified s) \<rparr>
        | Inl _ \<Rightarrow> s))"
| "handle_command mlib lib text env (CmdNativeCandidates w) s =
     Some (reply w (NativeReply (native_candidates text s)) s)"
| "handle_command mlib lib text env CmdPruneDialWaiters s =
     Some (s\<lparr> el_pending := retain_waiters (\<lambda>w. \<not> he_is_closed env w) (el_pending s),
              el_log := el_log s @ drop_all (filter (he_is_closed env) (waiting (el_pending s))) \<rparr>)"
| "handle_command mlib lib text env (CmdShutdown w) s = None"

definition complete_dials :: "peer_id \<Rightarrow> host_error + unit \<Rightarrow> event_loop \<Rightarrow> event_loop" where
  "complete_dials p result s =
     (case map_of (el_pending s) p of
        Some ws \<Rightarrow> s\<lparr> el_pending := AList.delete p (el_pending s),
                      el_log := el_log s @ answer_all (DialReply result) ws \<rparr>
      | None \<Rightarrow> s)"

definition expire_address :: "peer_id \<times> multiaddr \<Rightarrow> (peer_id \<times> multiaddr list) list \<Rightarrow>
    (peer_id \<times> multiaddr list) list" where
  "expire_address = (\<lambda>(p, address) native.
     (case map_of native p of
        Some addresses \<Rightarrow>
          (let rest = removeAll address addresses
           in if rest = [] then AList.delete p native else AList.update p rest native)
      | None \<Rightarrow> native))"

fun handle_swarm :: "host_text \<Rightarrow> swarm_event \<Rightarrow> event_loop \<Rightarrow> event_loop" where
  "handle_swarm text (NewListenAddr address) s =
     host_publish_status text (s\<lparr> el_listen_addresses := List.insert address (el_listen_addresses s) \<rparr>)"
| "handle_swarm text (ExpiredListenAddr address) s =
     host_publish_status text (s\<lparr> el_listen_addresses := removeAll address (el_listen_addresses s) \<rparr>)"
| "handle_swarm text (HostConnectionEstablished p) s =
     complete_dials p (Inr ())
       (host_publish_status text (s\<lparr> el_connected := List.insert p (el_connected s) \<rparr>))"
| "handle_swarm text (HostConnectionClosed p num_established) s =
     (if num_established = 0
      then host_publish_status text (s\<lparr> el_connected := removeAll p (el_connected s) \<rparr>)
      else s)"
| "handle_swarm text (OutgoingConnectionError (Some p) error) s =
     complete_dials p (Inl (DialError error)) s"
| "handle_swarm text (OutgoingConnectionError None error) s = s"
| "handle_swarm text (MdnsDiscovered peers) s =
     host_publish_status text
       (s\<lparr> el_native := fold (\<lambda>(p, address). add_addresses p [address]) peers (el_native s) \<rparr>)"
| "handle_swarm text (MdnsExpired peers) s =
     host_publish_status text (s\<lparr> el_native := fold expire_address peers (el_native s) \<rparr>)"
| "handle_swarm text (IdentifyReceived p listen_addrs) s =
     host_publish_status text (s\<lparr> el_native := add_addresses p listen_addrs (el_native s) \<rparr>)"
| "handle_swarm text OtherHostEvent s = s"

text \<open>
  One turn of \<open>run\<close>. Leaving the loop, also by a panic, drops the waiting senders; a command
  sent to a stopped host comes back to its caller, who drops it.
\<close>

datatype host_input = HostSwarm swarm_event | HostCommand command host_env | CommandsClosed

fun command_senders :: "command \<Rightarrow> sender list" where
  "command_senders (CmdDial peer w) = [w]"
| "command_senders (CmdNativeCandidates w) = [w]"
| "command_senders (CmdShutdown w) = [w]"
| "command_senders (CmdAddVerified peer) = []"
| "command_senders CmdPruneDialWaiters = []"

fun host_enters :: "host_input \<Rightarrow> sender list" where
  "host_enters (HostCommand c env) = command_senders c"
| "host_enters (HostSwarm ev) = []"
| "host_enters CommandsClosed = []"

definition leave_loop :: "event_loop \<Rightarrow> event_loop" where
  "leave_loop s = s\<lparr> el_running := False, el_pending := [],
     el_log := el_log s @ drop_all (waiting (el_pending s)) \<rparr>"

definition host_step :: "multiaddr_lib \<Rightarrow> ('pk, 'sk) libp2p_lib \<Rightarrow> host_text \<Rightarrow> host_input \<Rightarrow>
    event_loop \<Rightarrow> event_loop" where
  "host_step mlib lib text i s =
     (if \<not> el_running s then s\<lparr> el_log := el_log s @ drop_all (host_enters i) \<rparr>
      else case i of
        HostSwarm ev \<Rightarrow> handle_swarm text ev s
      | HostCommand (CmdShutdown w) env \<Rightarrow> leave_loop (reply w ShutdownReply s)
      | HostCommand c env \<Rightarrow>
          (case handle_command mlib lib text env c s of Some t \<Rightarrow> t | None \<Rightarrow> leave_loop s)
      | CommandsClosed \<Rightarrow> leave_loop s)"

section \<open>The handle\<close>

definition host_connected_peers :: "event_loop \<Rightarrow> nat" where
  "host_connected_peers s = length (hs_connected_peers (el_status s))"

text \<open>
  \<open>connect\<close>: whether the command could be sent and what came of the wait, \<open>None\<close> for a
  timeout, \<open>Some None\<close> for a dropped sender; its answer and the command it sends afterwards.
\<close>

definition host_connect :: "bool \<Rightarrow> (host_error + unit) option option \<Rightarrow> bool \<times> command list" where
  "host_connect sent waited =
     (if \<not> sent then (False, [])
      else case waited of
        Some result \<Rightarrow> (case result of Some (Inr _) \<Rightarrow> True | _ \<Rightarrow> False, [])
      | None \<Rightarrow> (False, [CmdPruneDialWaiters]))"

definition add_verified :: "bool \<Rightarrow> host_error + unit" where
  "add_verified sent = (if sent then Inr () else Inl HostStopped)"

definition request_native :: "bool \<Rightarrow> peer_candidate list option \<Rightarrow> host_error + peer_candidate list" where
  "request_native sent received =
     (if \<not> sent then Inl HostStopped
      else case received of Some peers \<Rightarrow> Inr peers | None \<Rightarrow> Inl HostStopped)"

text \<open>
  \<open>wait_for_listener\<close> over the statuses it comes to see: then the watch channel closes, or the
  timeout expires first.
\<close>

fun wait_for_listener :: "bool \<Rightarrow> host_status list \<Rightarrow> host_error + host_status" where
  "wait_for_listener closed [] = Inl (if closed then HostStopped else ListenTimeout)"
| "wait_for_listener closed (status # later) =
     (if hs_listen_addresses status \<noteq> [] then Inr status else wait_for_listener closed later)"

text \<open>\<open>NativePeerSource\<close> as the bootstrap controller sees it.\<close>

definition native_discover :: "host_error + peer_candidate list \<Rightarrow> bootstrap_error + peer_candidate list" where
  "native_discover answer = map_err (\<lambda>e. Discovery (host_error_text e)) answer"

definition add_verified_peer :: "bool \<Rightarrow> bootstrap_error + unit" where
  "add_verified_peer sent = map_err (\<lambda>e. NativePeerStore (host_error_text e)) (add_verified sent)"

section \<open>The promises\<close>

definition host_held :: "event_loop \<Rightarrow> sender multiset" where
  "host_held s = mset (waiting (el_pending s))"

definition host_success :: "host_reply \<Rightarrow> bool" where
  "host_success a \<longleftrightarrow> a = DialReply (Inr ())"

definition host_good :: "event_loop \<Rightarrow> bool" where
  "host_good s \<longleftrightarrow> keyed (el_pending s) \<and> distinct (el_connected s) \<and>
     fst ` set (el_pending s) \<inter> set (el_connected s) = {} \<and>
     length (hs_connected_peers (el_status s)) = length (el_connected s) \<and>
     published_after 0 (el_log s) = length (el_connected s) \<and>
     truthful host_success 0 (el_log s) \<and> (\<not> el_running s \<longrightarrow> el_pending s = [])"

definition host_balance :: "event_loop \<Rightarrow> sender multiset" where
  "host_balance s = host_held s + mset (settled (el_log s))"

lemmas host_balance_defs = host_balance_def host_held_def

lemma new_event_loop_good: "host_good (new_event_loop text p peers)"
  by (simp add: new_event_loop_def host_good_def)

text \<open>A loop that nobody has called yet.\<close>

definition fresh_loop :: "event_loop \<Rightarrow> bool" where
  "fresh_loop s \<longleftrightarrow> host_good s \<and> host_held s = {#} \<and> el_log s = [] \<and> el_running s"

lemma new_event_loop_fresh: "fresh_loop (new_event_loop text p peers)"
  by (simp add: fresh_loop_def new_event_loop_good) (simp add: new_event_loop_def host_held_def)

lemma reply_good:
  "host_good s \<Longrightarrow> (host_success a \<Longrightarrow> el_connected s \<noteq> []) \<Longrightarrow> host_good (reply w a s)"
  by (auto simp: host_good_def reply_def)

lemma reply_balance [simp]: "host_balance (reply w a s) = add_mset w (host_balance s)"
  by (simp add: host_balance_defs reply_def)

lemma publish_status_balance [simp]: "host_balance (host_publish_status text s) = host_balance s"
  by (simp add: host_balance_defs host_publish_status_def Let_def)

lemma complete_dials_balance:
  "keyed (el_pending s) \<Longrightarrow> host_balance (complete_dials p r s) = host_balance s"
  using mset_delete_waiters [of "el_pending s" p]
  by (auto simp: complete_dials_def host_balance_defs keyed_def ac_simps split: option.splits)

lemma publish_status_good:
  assumes "host_good s" and "distinct ps" and "fst ` set (el_pending s) \<inter> set ps = {}"
  shows "host_good (host_publish_status text (s\<lparr> el_connected := ps \<rparr>))"
  using assms by (auto simp: host_good_def host_publish_status_def Let_def)

lemma publish_good: "host_good s \<Longrightarrow> host_good (host_publish_status text s)"
  by (simp add: host_good_def host_publish_status_def Let_def)

lemma leave_loop_good: "host_good s \<Longrightarrow> host_good (leave_loop s)"
  by (simp add: host_good_def leave_loop_def)

lemma leave_loop_balance [simp]: "host_balance (leave_loop s) = host_balance s"
  by (simp add: host_balance_defs leave_loop_def)

lemma leave_loop_held [simp]: "host_held (leave_loop s) = {#}" "el_running (leave_loop s) = False"
  by (simp_all add: host_held_def leave_loop_def)

lemma complete_dials_good:
  assumes "host_good s" and "r = Inr () \<Longrightarrow> el_connected s \<noteq> []"
  shows "host_good (complete_dials p r s)"
  using assms by (auto simp: complete_dials_def host_good_def host_success_def split: option.splits)

lemma host_established_good:
  assumes "host_good s"
  shows "host_good (handle_swarm text (HostConnectionEstablished p) s)"
proof (cases "map_of (el_pending s) p")
  case None
  then have "p \<notin> fst ` set (el_pending s)" by (simp add: map_of_eq_None_iff)
  with assms have "host_good (host_publish_status text (s\<lparr> el_connected := List.insert p (el_connected s) \<rparr>))"
    by (intro publish_status_good) (auto simp: host_good_def)
  with None show ?thesis by (simp add: complete_dials_def host_publish_status_def Let_def)
next
  case (Some ws)
  have "List.insert p (el_connected s) \<noteq> []" by (auto simp: List.insert_def)
  with Some show ?thesis
    using assms
    by (auto simp: complete_dials_def host_publish_status_def Let_def host_good_def)
qed

lemma handle_swarm_good:
  assumes "host_good s"
  shows "host_good (handle_swarm text ev s)"
proof (cases ev)
  case (NewListenAddr a)
  have "host_good (s\<lparr> el_listen_addresses := as \<rparr>)" for as using assms by (simp add: host_good_def)
  with NewListenAddr show ?thesis by (simp add: publish_good)
next
  case (ExpiredListenAddr a)
  have "host_good (s\<lparr> el_listen_addresses := as \<rparr>)" for as using assms by (simp add: host_good_def)
  with ExpiredListenAddr show ?thesis by (simp add: publish_good)
next
  case (HostConnectionEstablished p)
  with host_established_good [OF assms] show ?thesis by simp
next
  case (HostConnectionClosed p n)
  have "host_good (host_publish_status text (s\<lparr> el_connected := removeAll p (el_connected s) \<rparr>))"
    using assms by (intro publish_status_good) (auto simp: host_good_def distinct_removeAll)
  with HostConnectionClosed assms show ?thesis by simp
next
  case (OutgoingConnectionError q e)
  with assms show ?thesis by (cases q) (auto intro!: complete_dials_good)
next
  case (MdnsDiscovered peers)
  have "host_good (s\<lparr> el_native := as \<rparr>)" for as using assms by (simp add: host_good_def)
  with MdnsDiscovered show ?thesis by (simp add: publish_good)
next
  case (MdnsExpired peers)
  have "host_good (s\<lparr> el_native := as \<rparr>)" for as using assms by (simp add: host_good_def)
  with MdnsExpired show ?thesis by (simp add: publish_good)
next
  case (IdentifyReceived p as)
  have "host_good (s\<lparr> el_native := as \<rparr>)" for as using assms by (simp add: host_good_def)
  with IdentifyReceived show ?thesis by (simp add: publish_good)
qed (use assms in simp)

lemma handle_swarm_balance:
  assumes "host_good s"
  shows "host_balance (handle_swarm text ev s) = host_balance s"
proof -
  have k: "keyed (el_pending s)" using assms by (simp add: host_good_def)
  have u: "host_balance (s\<lparr> el_listen_addresses := as \<rparr>) = host_balance s"
      "host_balance (s\<lparr> el_native := ns \<rparr>) = host_balance s"
      "host_balance (s\<lparr> el_connected := ps \<rparr>) = host_balance s" for as ns ps
    by (simp_all add: host_balance_defs)
  have p: "keyed (el_pending (host_publish_status text (s\<lparr> el_connected := ps \<rparr>)))" for ps
    using k by (simp add: host_publish_status_def Let_def)
  show ?thesis
    using k p u by (cases "(text, ev, s)" rule: handle_swarm.cases) (simp_all add: complete_dials_balance)
qed

lemma dial_good:
  assumes "host_good s" and "el_running s"
  shows "host_good (dial mlib lib env peer w s)"
proof -
  have "host_good (s\<lparr> el_pending := add_waiter p w (el_pending s) \<rparr>)" if "p \<notin> set (el_connected s)" for p
    using assms that by (simp add: host_good_def)
  moreover have "host_good (reply w (DialReply (Inl e)) s)" for e
    using assms by (intro reply_good) (auto simp: host_success_def)
  moreover have "host_good (reply w (DialReply (Inr ())) s)" if "p \<in> set (el_connected s)" for p
    using assms that by (intro reply_good) auto
  ultimately show ?thesis by (auto simp: dial_def Let_def split: sum.splits)
qed

lemma dial_balance: "host_balance (dial mlib lib env peer w s) = add_mset w (host_balance s)"
  by (auto simp: dial_def Let_def split: sum.splits) (simp add: host_balance_defs)

text \<open>The branch marked unreachable is: the run loop takes shutdown commands itself.\<close>

lemma handle_command_panics: "handle_command mlib lib text env c s = None \<longleftrightarrow> (\<exists>w. c = CmdShutdown w)"
  by (cases c) auto

lemma handle_command_good:
  assumes "host_good s" and "el_running s" and "handle_command mlib lib text env c s = Some t"
  shows "host_good t"
proof (cases c)
  case (CmdAddVerified peer)
  have "host_good (s\<lparr> el_verified := v \<rparr>)" for v using assms by (simp add: host_good_def)
  with CmdAddVerified assms show ?thesis by (auto intro!: publish_good split: sum.splits)
next
  case (CmdNativeCandidates w)
  with assms show ?thesis by (auto intro!: reply_good simp: host_success_def)
next
  case CmdPruneDialWaiters
  have "fst ` set (retain_waiters (\<lambda>w. \<not> he_is_closed env w) (el_pending s)) \<inter> set (el_connected s) = {}"
    using assms(1) keys_retain [of "\<lambda>w. \<not> he_is_closed env w" "el_pending s"]
    unfolding host_good_def by blast
  moreover have "t = s\<lparr> el_pending := retain_waiters (\<lambda>w. \<not> he_is_closed env w) (el_pending s),
      el_log := el_log s @ drop_all (filter (he_is_closed env) (waiting (el_pending s))) \<rparr>"
    using assms(3) CmdPruneDialWaiters by simp
  ultimately show ?thesis using assms(1,2) by (simp add: host_good_def)
qed (use assms in \<open>auto simp: dial_good\<close>)

lemma handle_command_balance:
  "handle_command mlib lib text env c s = Some t \<Longrightarrow>
   host_balance t = host_balance s + mset (command_senders c)"
proof (cases c)
  case (CmdAddVerified peer)
  assume "handle_command mlib lib text env c s = Some t"
  with CmdAddVerified show ?thesis
    by (auto split: sum.splits) (auto simp: host_balance_defs host_publish_status_def Let_def)
next
  case CmdPruneDialWaiters
  assume "handle_command mlib lib text env c s = Some t"
  with CmdPruneDialWaiters mset_retain [of "\<lambda>w. \<not> he_is_closed env w" "waiting (el_pending s)"]
  show ?thesis by (auto simp: host_balance_defs ac_simps)
qed (auto simp: dial_balance)

lemma host_step_command:
  assumes "el_running s" and "handle_command mlib lib text env c s = Some t"
  shows "host_step mlib lib text (HostCommand c env) s = t"
  using assms by (cases c) (auto simp: host_step_def)

lemma host_step_stop:
  assumes "el_running s"
  shows "host_step mlib lib text (HostCommand (CmdShutdown w) env) s = leave_loop (reply w ShutdownReply s)"
    and "host_step mlib lib text CommandsClosed s = leave_loop s"
  using assms by (simp_all add: host_step_def)

lemma host_step_good:
  assumes "host_good s"
  shows "host_good (host_step mlib lib text i s)"
proof (cases "el_running s")
  case False
  then show ?thesis using assms by (simp add: host_step_def host_good_def)
next
  case True
  show ?thesis
  proof (cases i)
    case (HostSwarm ev)
    with True handle_swarm_good [OF assms] show ?thesis by (simp add: host_step_def)
  next
    case (HostCommand c env)
    show ?thesis
    proof (cases "handle_command mlib lib text env c s")
      case None
      then obtain w where c: "c = CmdShutdown w" by (auto simp: handle_command_panics)
      have "host_good (reply w ShutdownReply s)"
        using assms by (intro reply_good) (auto simp: host_success_def)
      with c HostCommand True show ?thesis by (simp add: host_step_stop leave_loop_good)
    next
      case (Some t)
      with HostCommand True handle_command_good [OF assms True Some] show ?thesis
        by (simp add: host_step_command)
    qed
  next
    case CommandsClosed
    with True assms show ?thesis by (simp add: host_step_stop leave_loop_good)
  qed
qed

lemma host_step_balance:
  assumes "host_good s"
  shows "host_balance (host_step mlib lib text i s) = host_balance s + mset (host_enters i)"
proof (cases "el_running s")
  case False
  then show ?thesis by (simp add: host_step_def host_balance_defs)
next
  case True
  show ?thesis
  proof (cases i)
    case (HostSwarm ev)
    with True handle_swarm_balance [OF assms] show ?thesis by (simp add: host_step_def)
  next
    case (HostCommand c env)
    show ?thesis
    proof (cases "handle_command mlib lib text env c s")
      case None
      then obtain w where "c = CmdShutdown w" by (auto simp: handle_command_panics)
      with HostCommand True show ?thesis by (simp add: host_step_stop)
    next
      case (Some t)
      with HostCommand True handle_command_balance [OF Some] show ?thesis
        by (simp add: host_step_command)
    qed
  next
    case CommandsClosed
    with True show ?thesis by (simp add: host_step_stop)
  qed
qed

interpretation host_dialer: dialer "host_step mlib lib texts" el_log host_held host_connected_peers
  host_enters host_success host_good
  for mlib :: multiaddr_lib and lib :: "('pk, 'sk) libp2p_lib" and texts :: host_text
proof unfold_locales
  fix s i assume "host_good s"
  then show "host_good (host_step mlib lib texts i s)" by (rule host_step_good)
next
  fix s i assume g: "host_good s"
  show "host_held (host_step mlib lib texts i s) + mset (settled (el_log (host_step mlib lib texts i s))) =
      host_held s + mset (settled (el_log s)) + mset (host_enters i)"
    using host_step_balance [OF g, of mlib lib texts i] by (simp add: host_balance_def)
qed (simp_all add: host_good_def host_connected_peers_def)

lemma dial_fields [simp]:
  "el_running (dial mlib lib env peer w s) = el_running s"
  "el_native (dial mlib lib env peer w s) = el_native s"
  by (simp_all add: dial_def reply_def Let_def split: sum.splits)

lemma publish_fields [simp]:
  "el_running (host_publish_status text s) = el_running s" "el_native (host_publish_status text s) = el_native s"
  by (simp_all add: host_publish_status_def Let_def)

lemma reply_fields [simp]:
  "el_running (reply w a s) = el_running s" "el_native (reply w a s) = el_native s"
  by (simp_all add: reply_def)

lemma complete_dials_fields [simp]:
  "el_running (complete_dials p r s) = el_running s" "el_native (complete_dials p r s) = el_native s"
  by (simp_all add: complete_dials_def split: option.splits)

lemma handle_command_running:
  "handle_command mlib lib text env c s = Some t \<Longrightarrow> el_running t = el_running s"
  by (cases c) (auto split: sum.splits)

lemma handle_swarm_running: "el_running (handle_swarm text ev s) = el_running s"
  by (cases "(text, ev, s)" rule: handle_swarm.cases)
    simp_all

fun stops_host :: "host_input \<Rightarrow> bool" where
  "stops_host (HostCommand (CmdShutdown w) env) = True"
| "stops_host CommandsClosed = True"
| "stops_host _ = False"

lemma host_step_running: "el_running (host_step mlib lib text i s) \<longleftrightarrow> el_running s \<and> \<not> stops_host i"
proof (cases "el_running s")
  case True
  show ?thesis
  proof (cases i)
    case (HostCommand c env)
    show ?thesis
    proof (cases "handle_command mlib lib text env c s")
      case None
      then obtain w where "c = CmdShutdown w" by (auto simp: handle_command_panics)
      with HostCommand True show ?thesis by (simp add: host_step_stop)
    next
      case (Some t)
      with True handle_command_running [OF Some] HostCommand show ?thesis
        by (cases c) (auto simp: host_step_command)
    qed
  qed (use True in \<open>simp_all add: host_step_def handle_swarm_running\<close>)
qed (simp add: host_step_def)

lemma host_run_running:
  "el_running (fold (host_step mlib lib text) inputs s) \<longleftrightarrow> el_running s \<and> (\<forall>i \<in> set inputs. \<not> stops_host i)"
  by (induction inputs arbitrary: s) (auto simp: host_step_running)

text \<open>
  C9: whatever the swarm reports and the callers ask, every command is answered at most once
  and, until then, only dials wait; nobody waits for a connected peer; the published status
  counts the connected peers; a dial is reported as a success only after a status with at
  least one connection was published. The loop ends exactly when it is told to, and once it
  has ended no caller is left without an answer or a dropped channel.
\<close>

theorem host_keeps_promises:
  assumes "distinct (concat (map host_enters inputs))"
    and "start text build listen_on local_peer config = Inr s0"
    and "s = fold (host_step mlib lib text) inputs s0"
  shows "distinct (settled (el_log s)) \<and>
    set (waiting (el_pending s)) = set (concat (map host_enters inputs)) - set (settled (el_log s)) \<and>
    (\<forall>p \<in> set (el_connected s). map_of (el_pending s) p = None) \<and>
    host_connected_peers s = card (set (el_connected s)) \<and>
    (\<forall>es w fs. el_log s = es @ Answered w (DialReply (Inr ())) # fs \<longrightarrow> 0 < published_after 0 es) \<and>
    (el_running s \<longleftrightarrow> (\<forall>i \<in> set inputs. \<not> stops_host i)) \<and>
    (\<not> el_running s \<longrightarrow> set (concat (map host_enters inputs)) = set (settled (el_log s)))"
proof -
  obtain peers where s0: "s0 = new_event_loop text local_peer peers"
    using assms(2) by (auto simp: start_def res_bind_Inr_iff Let_def split: if_splits)
  have start: "host_good s0" "host_held s0 = {#}" "el_log s0 = []" "el_running s0"
    using new_event_loop_fresh unfolding s0 fresh_loop_def by blast+
  have g: "host_good s" unfolding assms(3) by (rule host_dialer.good_run [OF start(1)])
  note once = host_dialer.settled_once [OF start(1) start(2) start(3) assms(1), where mlib = mlib
      and lib = lib and texts = "text", folded assms(3)]
  have "map_of (el_pending s) p = None" if "p \<in> set (el_connected s)" for p
    using g that by (auto simp: host_good_def map_of_eq_None_iff)
  moreover have "host_connected_peers s = card (set (el_connected s))"
    using g by (simp add: host_good_def host_connected_peers_def distinct_card)
  moreover have "0 < published_after 0 es" if "el_log s = es @ Answered w (DialReply (Inr ())) # fs" for es w fs
    using host_dialer.success_seen [OF start(1), where mlib = mlib and lib = lib and texts = "text"
        and ?is = inputs, folded assms(3)] that by (simp add: host_success_def)
  moreover have r: "el_running s \<longleftrightarrow> (\<forall>i \<in> set inputs. \<not> stops_host i)"
    using start(4) by (simp add: assms(3) host_run_running)
  moreover have "set (concat (map host_enters inputs)) = set (settled (el_log s))" if "\<not> el_running s"
  proof -
    have "waiting (el_pending s) = []" using g that by (simp add: host_good_def)
    with host_dialer.run_conserves [OF start(1), where mlib = mlib and lib = lib and texts = "text"
        and ?is = inputs, folded assms(3)] start(2,3)
    have "mset (settled (el_log s)) = mset (concat (map host_enters inputs))" by (simp add: host_held_def)
    then show ?thesis by (metis set_mset_mset)
  qed
  ultimately show ?thesis using once by (simp add: host_held_def)
qed

section \<open>The native view\<close>

text \<open>Which addresses of which peers the host knows natively, and what each event does to them.\<close>

definition known :: "(peer_id \<times> multiaddr list) list \<Rightarrow> (peer_id \<times> multiaddr) set" where
  "known native = {(p, a). \<exists>as. map_of native p = Some as \<and> a \<in> set as}"

fun known_after :: "host_input \<Rightarrow> (peer_id \<times> multiaddr) set \<Rightarrow> (peer_id \<times> multiaddr) set" where
  "known_after (HostSwarm (MdnsDiscovered peers)) k = k \<union> set peers"
| "known_after (HostSwarm (MdnsExpired peers)) k = k - set peers"
| "known_after (HostSwarm (IdentifyReceived p as)) k = k \<union> {p} \<times> set as"
| "known_after _ k = k"

lemma set_fold_insert: "set (fold List.insert as bs) = set as \<union> set bs"
  by (induction as arbitrary: bs) auto

lemma known_add: "known (add_addresses p as native) = known native \<union> {p} \<times> set as"
  by (auto simp: known_def add_addresses_def map_of_map_default set_fold_insert split: option.splits if_splits)

lemma known_fold_add:
  "known (fold (\<lambda>(p, address). add_addresses p [address]) peers native) = known native \<union> set peers"
  by (induction peers arbitrary: native) (auto simp: known_add)

lemma known_expire: "known (expire_address x native) = known native - {x}"
proof -
  obtain p a where x: "x = (p, a)" by (cases x)
  have "removeAll a as = [] \<longleftrightarrow> set as \<subseteq> {a}" for as by (induction as) auto
  then show ?thesis
    by (auto simp: x known_def expire_address_def Let_def AList.update_conv' AList.delete_conv'
        split: option.splits if_splits)
qed

lemma known_fold_expire: "known (fold expire_address peers native) = known native - set peers"
  by (induction peers arbitrary: native) (auto simp: known_expire)

lemma keys_add: "distinct (map fst native) \<Longrightarrow> distinct (map fst (add_addresses p as native))"
  by (simp add: add_addresses_def distinct_map_default)

lemma keys_fold_add: "distinct (map fst native) \<Longrightarrow>
    distinct (map fst (fold (\<lambda>(p, address). add_addresses p [address]) peers native))"
  by (induction peers arbitrary: native) (auto simp: keys_add)

lemma keys_expire: "distinct (map fst native) \<Longrightarrow> distinct (map fst (expire_address x native))"
  by (auto simp: expire_address_def Let_def AList.distinct_update AList.distinct_delete
      split: prod.splits option.splits)

lemma keys_fold_expire: "distinct (map fst native) \<Longrightarrow> distinct (map fst (fold expire_address peers native))"
  by (induction peers arbitrary: native) (auto simp: keys_expire)

lemma handle_swarm_native:
  "known (el_native (handle_swarm text ev s)) = known_after (HostSwarm ev) (known (el_native s))"
  "distinct (map fst (el_native s)) \<Longrightarrow> distinct (map fst (el_native (handle_swarm text ev s)))"
  by (cases "(text, ev, s)" rule: handle_swarm.cases;
      simp add: known_fold_add known_fold_expire known_add keys_fold_add keys_fold_expire keys_add)+

lemma handle_command_native:
  "handle_command mlib lib text env c s = Some t \<Longrightarrow> el_native t = el_native s"
  by (cases c) (auto split: sum.splits)

lemma host_step_native:
  assumes "el_running s" and "\<not> stops_host i"
  shows "known (el_native (host_step mlib lib text i s)) = known_after i (known (el_native s))"
    and "distinct (map fst (el_native s)) \<Longrightarrow>
         distinct (map fst (el_native (host_step mlib lib text i s)))"
proof -
  have *: "\<exists>t. handle_command mlib lib text env c s = Some t" if "i = HostCommand c env" for c env
    using assms that by (cases c) auto
  show "known (el_native (host_step mlib lib text i s)) = known_after i (known (el_native s))"
    using assms * by (cases i) (auto simp: host_step_command handle_command_native,
        auto simp: host_step_def handle_swarm_native)
  show "distinct (map fst (el_native s)) \<Longrightarrow> distinct (map fst (el_native (host_step mlib lib text i s)))"
    using assms * by (cases i) (auto simp: host_step_command handle_command_native,
        auto simp: host_step_def handle_swarm_native)
qed

lemma host_run_native:
  assumes "el_running (fold (host_step mlib lib text) inputs s)" and "distinct (map fst (el_native s))"
  shows "known (el_native (fold (host_step mlib lib text) inputs s)) =
      fold known_after inputs (known (el_native s)) \<and>
    distinct (map fst (el_native (fold (host_step mlib lib text) inputs s)))"
  using assms
proof (induction inputs arbitrary: s)
  case (Cons i inputs)
  then have "el_running s" "\<not> stops_host i" by (auto simp: host_run_running host_step_running)
  with Cons host_step_native [of s i mlib lib "text"] show ?case by simp
qed simp

lemma known_pairs:
  "distinct (map fst native) \<Longrightarrow> known native = {(p, a). \<exists>as. (p, as) \<in> set native \<and> a \<in> set as}"
  by (auto simp: known_def)

text \<open>What a host that started knows natively: its configured peers.\<close>

definition configured_pairs :: "host_config \<Rightarrow> (peer_id \<times> multiaddr) set" where
  "configured_pairs config = {(p, a). a @ [P2p p] \<in> set (hc_configured_peers config) \<and> a \<noteq> []}"

lemma started_host:
  assumes "start text build listen_on local_peer config = Inr s0"
  shows "known (el_native s0) = configured_pairs config" and "distinct (map fst (el_native s0))"
    and "fresh_loop s0"
proof -
  obtain peers where peers: "traverse (split_configured_peer text) (hc_configured_peers config) = Inr peers"
    and s0: "s0 = new_event_loop text local_peer peers"
    using assms by (auto simp: start_def res_bind_Inr_iff Let_def split: if_splits)
  have split: "split_configured_peer text x = Inr (p, a) \<longleftrightarrow> x = a @ [P2p p] \<and> a \<noteq> []" for x p a
    by (auto simp: split_configured_peer_def rev_eq_Cons_iff split: list.splits protocol.splits)
  have "y \<in> set peers \<longleftrightarrow> (\<exists>x \<in> set (hc_configured_peers config). split_configured_peer text x = Inr y)" for y
    using peers unfolding traverse_Inr_iff by (fastforce simp: list_all2_conv_all_nth in_set_conv_nth)
  then have "set peers = configured_pairs config"
    using split by (auto simp: configured_pairs_def)
  then show "known (el_native s0) = configured_pairs config" "distinct (map fst (el_native s0))"
    by (simp_all add: s0 new_event_loop_def known_fold_add keys_fold_add) (simp add: known_def)
  show "fresh_loop s0" by (simp add: s0 new_event_loop_fresh)
qed

text \<open>
  C27: while the host runs, the candidates it offers are one per known peer, unsigned, without
  sequence and never expiring; their addresses are those configured, discovered by mDNS or
  reported by identify, minus those mDNS expired since, configured ones included. Records
  added with \<open>add_verified\<close> never show among them.
\<close>

theorem native_view:
  assumes "start text build listen_on local_peer config = Inr s0"
    and "s = fold (host_step mlib lib text) inputs s0" and "el_running s"
  shows "distinct (map pc_peer_id (native_candidates text s)) \<and>
    (\<forall>c \<in> set (native_candidates text s). pc_record_type c = RECORD_TYPE_LIBP2P \<and>
       pc_sequence c = 0 \<and> pc_raw_signed_record c = [] \<and> pc_expires_at c = - 1 \<and>
       pc_source c = discovery_source_kind.Native) \<and>
    {(pc_peer_id c, ep_address e) | c e. c \<in> set (native_candidates text s) \<and> e \<in> set (pc_endpoints c)} =
      (\<lambda>(p, a). (p, ht_address text a)) ` fold known_after inputs
         {(p, a). a @ [P2p p] \<in> set (hc_configured_peers config) \<and> a \<noteq> []}"
proof -
  have k: "known (el_native s) = fold known_after inputs (configured_pairs config)" "distinct (map fst (el_native s))"
    using host_run_native [of mlib lib "text" inputs s0] started_host [OF assms(1)] assms(2,3) by simp_all
  have "map pc_peer_id (native_candidates text s) = map fst (el_native s)"
    by (auto simp: native_candidates_def)
  moreover have "{(pc_peer_id c, ep_address e) | c e. c \<in> set (native_candidates text s) \<and> e \<in> set (pc_endpoints c)} =
      (\<lambda>(p, a). (p, ht_address text a)) ` known (el_native s)"
    unfolding known_pairs [OF k(2)] by (force simp: native_candidates_def)
  moreover have "\<forall>c \<in> set (native_candidates text s). pc_record_type c = RECORD_TYPE_LIBP2P \<and>
      pc_sequence c = 0 \<and> pc_raw_signed_record c = [] \<and> pc_expires_at c = - 1 \<and>
      pc_source c = discovery_source_kind.Native"
    by (auto simp: native_candidates_def)
  ultimately show ?thesis using k by (simp add: configured_pairs_def)
qed

section \<open>Concrete runs\<close>

definition test_text :: host_text where
  "test_text = \<lparr> ht_peer = (\<lambda>_. ''12D3''), ht_address = map (\<lambda>_. CHR ''/'') \<rparr>"

definition test_host_config :: host_config where
  "test_host_config = default_host_config\<lparr> hc_configured_peers := [[Ip4 1, Tcp 4001, P2p [7]]] \<rparr>"

lemma test_host_starts:
  "start test_text (Inr ()) (\<lambda>_. True) [9] test_host_config =
     Inr (new_event_loop test_text [9] [([7], [Ip4 1, Tcp 4001])])"
  by (simp add: start_def test_host_config_def default_host_config_def split_configured_peer_def)

lemma default_host_starts:
  "start test_text (Inr ()) (\<lambda>_. True) [9] default_host_config = Inr (new_event_loop test_text [9] [])"
  by (simp add: start_def default_host_config_def)

text \<open>A dial that succeeds, then a shutdown.\<close>

theorem host_keeps_promises_witness:
  "\<exists>s. s = fold (host_step dialable_lib toy_lib test_text)
       [HostCommand (CmdDial (dialable_peer [1]) 0) \<lparr> he_dial = (\<lambda>_ _. Inr ()), he_is_closed = (\<lambda>_. False) \<rparr>,
        HostSwarm (HostConnectionEstablished [1]), CommandsClosed]
       (new_event_loop test_text [9] []) \<and>
     el_log s = [Published 1, Answered 0 (DialReply (Inr ()))] \<and> set (settled (el_log s)) = {0}"
proof -
  let ?env = "\<lparr> he_dial = (\<lambda>_ _. Inr ()), he_is_closed = (\<lambda>_. False) \<rparr>"
  let ?is = "[HostCommand (CmdDial (dialable_peer [1]) 0) ?env,
        HostSwarm (HostConnectionEstablished [1]), CommandsClosed]"
  define s where "s = fold (host_step dialable_lib toy_lib test_text) ?is (new_event_loop test_text [9] [])"
  have l: "el_log s = [Published 1, Answered 0 (DialReply (Inr ()))]" "\<not> el_running s"
    by (simp_all add: s_def host_step_def new_event_loop_def dial_def dialable_peer_def toy_lib_def
        dialable_lib_def List.map_filter_def add_waiter_def complete_dials_def host_publish_status_def
        answer_all_def leave_loop_def drop_all_def)
  have "distinct (concat (map host_enters ?is))" by simp
  from host_keeps_promises [OF this default_host_starts s_def] l show ?thesis
    by (intro exI [of _ s]) (simp add: s_def)
qed

text \<open>The configured peer is gone once mDNS expires it; the added record is not offered.\<close>

theorem native_view_witness:
  "\<exists>s. s = fold (host_step dialable_lib toy_lib test_text)
       [HostCommand (CmdAddVerified (dialable_peer [1])) \<lparr> he_dial = (\<lambda>_ _. Inr ()), he_is_closed = (\<lambda>_. False) \<rparr>,
        HostSwarm (MdnsDiscovered [([8], [Tcp 1])]), HostSwarm (MdnsExpired [([7], [Ip4 1, Tcp 4001])])]
       (new_event_loop test_text [9] [([7], [Ip4 1, Tcp 4001])]) \<and>
     {(pc_peer_id c, ep_address e) | c e. c \<in> set (native_candidates test_text s) \<and> e \<in> set (pc_endpoints c)} =
       {([8], ''/'')}"
proof -
  let ?env = "\<lparr> he_dial = (\<lambda>_ _. Inr ()), he_is_closed = (\<lambda>_. False) \<rparr>"
  let ?is = "[HostCommand (CmdAddVerified (dialable_peer [1])) ?env,
        HostSwarm (MdnsDiscovered [([8], [Tcp 1])]), HostSwarm (MdnsExpired [([7], [Ip4 1, Tcp 4001])])]"
  define s where "s = fold (host_step dialable_lib toy_lib test_text) ?is
    (new_event_loop test_text [9] [([7], [Ip4 1, Tcp 4001])])"
  have r: "el_running s"
    unfolding s_def host_run_running by (simp add: new_event_loop_def)
  have "{(p, a). a @ [P2p p] \<in> set (hc_configured_peers test_host_config) \<and> a \<noteq> []} =
      {([7], [Ip4 1, Tcp 4001])}"
    by (auto simp: test_host_config_def append_eq_Cons_conv)
  with conjunct2 [OF conjunct2 [OF native_view [OF test_host_starts s_def r]]]
  have "{(pc_peer_id c, ep_address e) | c e. c \<in> set (native_candidates test_text s) \<and> e \<in> set (pc_endpoints c)} =
      (\<lambda>(p, a). (p, ht_address test_text a)) ` {([8], [Tcp 1])}"
    by auto
  then show ?thesis
    by (intro exI [of _ s]) (simp add: s_def test_text_def)
qed

end
