(* ===== verification/Node_Identity.thy ===== *)
theory Node_Identity
  imports Resurrect_Prelude
begin

text \<open>
  \<open>crates/resurrect-node/src/identity.rs\<close>: the key file. The operations of \<open>std::fs\<close> that it
  calls are modelled on a disk of named files. The disk carries the events of its future: an
  operation may fail, a write after some of its bytes, and another process may create a file
  just before an operation. The key library is a record of parameters.
\<close>

section \<open>Files\<close>

datatype io_error = NotFound | AlreadyExists | OtherIo

datatype disk_event = Works | Fails nat | Appears string bytes

record disk =
  dk_files :: "string \<rightharpoonup> bytes"
  dk_future :: "disk_event list"

text \<open>What happens at the next operation: \<open>Some n\<close> if it fails, after \<open>n\<close> bytes.\<close>

definition tick :: "disk \<Rightarrow> nat option \<times> disk" where
  "tick d =
     (case dk_future d of
        [] \<Rightarrow> (None, d)
      | e # es \<Rightarrow> (case e of
            Works \<Rightarrow> (None, d\<lparr> dk_future := es \<rparr>)
          | Fails n \<Rightarrow> (Some n, d\<lparr> dk_future := es \<rparr>)
          | Appears p b \<Rightarrow>
              (None, d\<lparr> dk_files := (if dk_files d p = None then (dk_files d)(p \<mapsto> b) else dk_files d),
                        dk_future := es \<rparr>)))"

definition read_file :: "string \<Rightarrow> (disk, io_error, bytes) proc" where
  "read_file path d =
     (case tick d of
        (Some _, v) \<Rightarrow> (Inl OtherIo, v)
      | (None, v) \<Rightarrow> (case dk_files v path of Some b \<Rightarrow> Inr b | None \<Rightarrow> Inl NotFound, v))"

definition create_dir_all :: "string \<Rightarrow> (disk, io_error, unit) proc" where
  "create_dir_all path d = (case tick d of (Some _, v) \<Rightarrow> (Inl OtherIo, v) | (None, v) \<Rightarrow> (Inr (), v))"

definition create_new :: "string \<Rightarrow> (disk, io_error, unit) proc" where
  "create_new path d =
     (case tick d of
        (Some _, v) \<Rightarrow> (Inl OtherIo, v)
      | (None, v) \<Rightarrow>
          (if dk_files v path = None then (Inr (), v\<lparr> dk_files := (dk_files v)(path \<mapsto> []) \<rparr>)
           else (Inl AlreadyExists, v)))"

definition write_all :: "string \<Rightarrow> bytes \<Rightarrow> (disk, io_error, unit) proc" where
  "write_all path b d =
     (case tick d of
        (Some n, v) \<Rightarrow> (Inl OtherIo, v\<lparr> dk_files := (dk_files v)(path \<mapsto> take n b) \<rparr>)
      | (None, v) \<Rightarrow> (Inr (), v\<lparr> dk_files := (dk_files v)(path \<mapsto> b) \<rparr>))"

definition sync_all :: "(disk, io_error, unit) proc" where
  "sync_all d = (case tick d of (Some _, v) \<Rightarrow> (Inl OtherIo, v) | (None, v) \<Rightarrow> (Inr (), v))"

section \<open>The identity\<close>

datatype identity_error = IdentityIo io_error | IdentityDecode string

record 'sk key_lib =
  kl_from_protobuf :: "bytes \<Rightarrow> string + 'sk"
  kl_to_protobuf :: "'sk \<Rightarrow> string + bytes"

text \<open>The file is created and written through one handle: nobody else writes to it meanwhile.\<close>

definition write_private_file :: "string \<Rightarrow> bytes \<Rightarrow> (disk, io_error, unit) proc" where
  "write_private_file path b =
     and_then (create_new path) (\<lambda>_. and_then (write_all path b) (\<lambda>_. sync_all))"

text \<open>\<open>fresh\<close> is the key that \<open>generate_ed25519\<close> draws, \<open>parent\<close> the directory of the path.\<close>

definition create_identity :: "'sk key_lib \<Rightarrow> string option \<Rightarrow> 'sk \<Rightarrow> string \<Rightarrow>
    (disk, identity_error, 'sk) proc" where
  "create_identity keys parent fresh path =
     and_then (case parent of None \<Rightarrow> succeed () | Some dir \<Rightarrow> proc_err IdentityIo (create_dir_all dir)) (\<lambda>_.
     and_then (lift_res (map_err IdentityDecode (kl_to_protobuf keys fresh))) (\<lambda>encoded.
     and_then (proc_err IdentityIo (write_private_file path encoded)) (\<lambda>_. succeed fresh)))"

definition load_or_create_identity :: "'sk key_lib \<Rightarrow> string option \<Rightarrow> 'sk \<Rightarrow> string \<Rightarrow>
    (disk, identity_error, 'sk) proc" where
  "load_or_create_identity keys parent fresh path d =
     (case read_file path d of
        (Inr b, v) \<Rightarrow> (map_err IdentityDecode (kl_from_protobuf keys b), v)
      | (Inl e, v) \<Rightarrow> if e = NotFound then create_identity keys parent fresh path v
                      else (Inl (IdentityIo e), v))"

section \<open>What stays\<close>

text \<open>Files that are there stay as they are: \<open>kept d e\<close>.\<close>

definition kept :: "disk \<Rightarrow> disk \<Rightarrow> bool" where
  "kept d e \<longleftrightarrow> (\<forall>p b. dk_files d p = Some b \<longrightarrow> dk_files e p = Some b)"

lemma kept_refl: "kept d d"
  by (simp add: kept_def)

lemma kept_trans [trans]: "kept d e \<Longrightarrow> kept e f \<Longrightarrow> kept d f"
  by (simp add: kept_def)

lemma and_then_kept:
  assumes "\<And>d. kept d (snd (m d))" and "\<And>x d. kept d (snd (f x d))"
  shows "kept d (snd (and_then m f d))"
proof -
  obtain r v where m: "m d = (r, v)" by (cases "m d")
  with assms(1) [of d] have "kept d v" by simp
  with m assms(2) [of v] show ?thesis by (cases r) (auto simp: and_then_def intro: kept_trans)
qed

lemma proc_err_kept: "kept d (snd (m d)) \<Longrightarrow> kept d (snd (proc_err f m d))"
  by (simp add: proc_err_def split_beta)

lemma pure_kept: "kept d (snd (succeed x d))" "kept d (snd (lift_res r d))"
  by (simp_all add: succeed_def lift_res_def kept_refl)

lemma tick_kept: "kept d (snd (tick d))"
  by (auto simp: tick_def kept_def split: list.splits disk_event.splits)

lemma read_file_kept: "kept d (snd (read_file path d))"
  using tick_kept [of d] by (auto simp: read_file_def split: prod.splits option.splits)

lemma create_dir_all_kept: "kept d (snd (create_dir_all path d))"
  using tick_kept [of d] by (auto simp: create_dir_all_def split: prod.splits option.splits)

lemma sync_all_kept: "kept d (snd (sync_all d))"
  using tick_kept [of d] by (auto simp: sync_all_def split: prod.splits option.splits)

text \<open>Writing the new file changes that file only, which was not there when it was created.\<close>

lemma write_private_file_kept: "kept d (snd (write_private_file path b d))"
proof -
  obtain r v where t: "tick d = (r, v)" by (cases "tick d")
  have v: "kept d v" using tick_kept [of d] t by simp
  show ?thesis
  proof (cases "r = None \<and> dk_files v path = None")
    case False
    with t v show ?thesis
      by (auto simp: write_private_file_def and_then_def create_new_def split: option.splits)
  next
    case True
    let ?v = "v\<lparr> dk_files := (dk_files v)(path \<mapsto> []) \<rparr>"
    have c: "create_new path d = (Inr (), ?v)" using t True by (simp add: create_new_def)
    obtain s u where u: "tick ?v = (s, u)" by (cases "tick ?v")
    have "kept ?v u" using tick_kept [of ?v] u by simp
    then have w: "kept v (u\<lparr> dk_files := (dk_files u)(path \<mapsto> x) \<rparr>)" for x
      using True by (auto simp: kept_def)
    have "kept v (snd (and_then (write_all path b) (\<lambda>_. sync_all) ?v))"
    proof (cases s)
      case None
      then show ?thesis
        using w [of b] sync_all_kept [of "u\<lparr> dk_files := (dk_files u)(path \<mapsto> b) \<rparr>"]
        by (auto simp: and_then_def write_all_def u intro: kept_trans)
    next
      case (Some n)
      with w [of "take n b"] show ?thesis by (simp add: and_then_def write_all_def u)
    qed
    with c v show ?thesis by (auto simp: write_private_file_def and_then_Inr intro: kept_trans)
  qed
qed

lemma create_identity_kept: "kept d (snd (create_identity keys parent fresh path d))"
  unfolding create_identity_def
  by (intro and_then_kept)
    (auto intro: and_then_kept proc_err_kept pure_kept create_dir_all_kept write_private_file_kept
      split: option.split)

lemma load_or_create_kept: "kept d (snd (load_or_create_identity keys parent fresh path d))"
proof -
  obtain r v where c: "read_file path d = (r, v)" by (cases "read_file path d")
  with read_file_kept [of d path] have "kept d v" by simp
  with c create_identity_kept [of v keys parent fresh path] show ?thesis
    by (cases r) (auto simp: load_or_create_identity_def intro: kept_trans)
qed

lemma write_private_file_Inr:
  assumes "write_private_file path b d = (Inr x, e)"
  shows "dk_files e path = Some b"
proof -
  obtain u v where "write_all path b u = (Inr (), v)" and s: "sync_all v = (Inr x, e)"
    using assms by (auto simp: write_private_file_def and_then_Inr_iff)
  then have "dk_files v path = Some b" by (auto simp: write_all_def split: prod.splits option.splits)
  moreover have "kept v e" using sync_all_kept [of v] s by simp
  ultimately show ?thesis by (auto simp: kept_def)
qed

text \<open>
  C28: loading the identity never changes a file that is there, whatever fails and whoever
  creates files meanwhile. When it gives a key, the file holds that key, so every later start
  that can read the file loads the same identity.
\<close>

theorem identity_stable:
  assumes "\<And>k b. kl_to_protobuf keys k = Inr b \<Longrightarrow> kl_from_protobuf keys b = Inr k"
    and "load_or_create_identity keys parent fresh path d = (r, e)"
  shows "kept d e \<and>
    (\<forall>k. r = Inr k \<longrightarrow> (\<exists>b. dk_files e path = Some b \<and> kl_from_protobuf keys b = Inr k) \<and>
       (\<forall>parent' fresh' f. kept e f \<longrightarrow> dk_future f = [] \<longrightarrow>
          fst (load_or_create_identity keys parent' fresh' path f) = Inr k))"
proof -
  have kept: "kept d e"
    using load_or_create_kept [of d keys parent fresh path] assms(2) by simp
  have held: "\<exists>b. dk_files e path = Some b \<and> kl_from_protobuf keys b = Inr k" if "r = Inr k" for k
  proof (cases "read_file path d")
    case (Pair q v)
    show ?thesis
    proof (cases q)
      case (Inr b)
      with Pair that assms(2) have "kl_from_protobuf keys b = Inr k" "v = e"
        by (auto simp: load_or_create_identity_def)
      moreover have "dk_files v path = Some b"
        using Pair Inr by (auto simp: read_file_def split: prod.splits option.splits)
      ultimately show ?thesis by auto
    next
      case (Inl x)
      with Pair that assms(2) have "create_identity keys parent fresh path v = (Inr k, e)"
        by (auto simp: load_or_create_identity_def split: if_splits)
      then obtain b u where "kl_to_protobuf keys fresh = Inr b" "k = fresh"
        "write_private_file path b u = (Inr (), e)"
        by (auto simp: create_identity_def and_then_Inr_iff succeed_def)
      then show ?thesis using assms(1) write_private_file_Inr by blast
    qed
  qed
  have "fst (load_or_create_identity keys parent' fresh' path f) = Inr k"
    if r: "r = Inr k" and f: "kept e f" "dk_future f = []" for k parent' fresh' f
  proof -
    obtain b where b: "dk_files e path = Some b" "kl_from_protobuf keys b = Inr k" using held [OF r] by blast
    with f(1) have "dk_files f path = Some b" by (simp add: kept_def)
    with f(2) b show ?thesis by (simp add: load_or_create_identity_def read_file_def tick_def)
  qed
  with kept held show ?thesis by blast
qed

definition test_keys :: "u8 key_lib" where
  "test_keys = \<lparr> kl_from_protobuf = (\<lambda>b. if length b = 2 then Inr (last b) else Inl ''malformed''),
                 kl_to_protobuf = (\<lambda>k. Inr [8, k]) \<rparr>"

theorem identity_stable_witness:
  "fst (load_or_create_identity test_keys None 7 ''key'' \<lparr> dk_files = Map.empty, dk_future = [] \<rparr>) = Inr 7 \<and>
   fst (load_or_create_identity test_keys None 9 ''key'' \<lparr> dk_files = [''key'' \<mapsto> [8, 7]], dk_future = [] \<rparr>) = Inr 7"
proof -
  let ?d = "\<lparr> dk_files = Map.empty, dk_future = [] \<rparr>"
  have k: "kl_to_protobuf test_keys k = Inr b \<Longrightarrow> kl_from_protobuf test_keys b = Inr k" for k b
    by (auto simp: test_keys_def)
  have l: "load_or_create_identity test_keys None 7 ''key'' ?d =
      (Inr 7, \<lparr> dk_files = [''key'' \<mapsto> [8, 7]], dk_future = [] \<rparr>)"
    by (simp add: load_or_create_identity_def read_file_def tick_def create_identity_def
        write_private_file_def create_new_def write_all_def sync_all_def and_then_def succeed_def
        lift_res_def proc_err_def test_keys_def)
  let ?e = "\<lparr> dk_files = [''key'' \<mapsto> [8, 7]], dk_future = [] \<rparr>"
  from identity_stable [OF k l] have "\<forall>parent' fresh' f. kept ?e f \<longrightarrow> dk_future f = [] \<longrightarrow>
      fst (load_or_create_identity test_keys parent' fresh' ''key'' f) = Inr 7" by simp
  from this [rule_format, OF kept_refl, of None 9] l show ?thesis by simp
qed

text \<open>
  The creation is not atomic, as its comment says it is: when the write fails the file stays,
  cut short, and from then on every start fails to decode it.
\<close>

theorem identity_creation_cut_short:
  "\<exists>d e. load_or_create_identity test_keys None 7 ''key'' d = (Inl (IdentityIo OtherIo), e) \<and>
     dk_files d ''key'' = None \<and>
     (\<forall>fresh f. dk_files f = dk_files e \<longrightarrow> dk_future f = [] \<longrightarrow>
        load_or_create_identity test_keys None fresh ''key'' f = (Inl (IdentityDecode ''malformed''), f))"
proof -
  let ?d = "\<lparr> dk_files = Map.empty, dk_future = [Works, Works, Fails 1] \<rparr>"
  have "load_or_create_identity test_keys None 7 ''key'' ?d =
      (Inl (IdentityIo OtherIo), \<lparr> dk_files = [''key'' \<mapsto> [8]], dk_future = [] \<rparr>)"
    by (simp add: load_or_create_identity_def read_file_def tick_def create_identity_def
        write_private_file_def create_new_def write_all_def sync_all_def and_then_def succeed_def
        lift_res_def proc_err_def test_keys_def)
  then show ?thesis
    by (intro exI [of _ ?d] exI)
      (auto simp: load_or_create_identity_def read_file_def tick_def test_keys_def)
qed

end
