(* ===== verification/Node_Config.thy ===== *)
theory Node_Config
  imports Node_Supervisor Node_P2p Node_Identity
begin

text \<open>
  \<open>crates/resurrect-node/src/main.rs\<close>: from the parsed command line to the configured parts of
  a node. What \<open>run\<close> does before it touches the network is one procedure on the disk; the
  command-line parser itself and logging are not modelled. Libraries are collected in a
  record; the checks, their order and the values handed on are the code's.
\<close>

section \<open>The command line\<close>

datatype log_format = Pretty | JsonLog

record cli =
  cli_descriptor :: "string option"
  cli_namespace :: "namespace option"
  cli_application :: "string option"
  cli_major_version :: "u64 option"
  cli_rpc_url :: string
  cli_identity :: string
  cli_cache :: string
  cli_listen :: "string list"
  cli_advertise :: "string list"
  cli_seed :: bool
  cli_ethereum_private_key :: "string option"
  cli_mdns :: bool
  cli_native_peer :: "string list"
  cli_allow_private_endpoints :: bool
  cli_minimum_peers :: nat
  cli_maximum_parallel_dials :: nat
  cli_dial_timeout_seconds :: u64
  cli_native_observation_millis :: u64
  cli_fallback_confirmations :: u64
  cli_allow_unfinalized :: bool
  cli_reboot_ttl_seconds :: u64
  cli_maintenance_ttl_seconds :: u64
  cli_renewal_interval_seconds :: u64
  cli_initial_backoff_millis :: u64
  cli_maximum_backoff_seconds :: u64
  cli_status_file :: "string option"
  cli_log_format :: log_format

text \<open>
  The values of the arguments that are not given, and what the parser's annotations ask of those
  that are: one source of the descriptor, and an application with its version.
\<close>

definition default_cli :: "string \<Rightarrow> cli" where
  "default_cli rpc_url =
     \<lparr> cli_descriptor = None, cli_namespace = None, cli_application = None, cli_major_version = None,
       cli_rpc_url = rpc_url, cli_identity = ''resurrect-identity.key'', cli_cache = ''resurrect-peers.sqlite3'',
       cli_listen = [''/ip4/0.0.0.0/tcp/4001''], cli_advertise = [], cli_seed = False,
       cli_ethereum_private_key = None, cli_mdns = True, cli_native_peer = [],
       cli_allow_private_endpoints = False, cli_minimum_peers = 2, cli_maximum_parallel_dials = 8,
       cli_dial_timeout_seconds = 8, cli_native_observation_millis = 1500, cli_fallback_confirmations = 12,
       cli_allow_unfinalized = False, cli_reboot_ttl_seconds = 604800, cli_maintenance_ttl_seconds = 2592000,
       cli_renewal_interval_seconds = 1209600, cli_initial_backoff_millis = 1000,
       cli_maximum_backoff_seconds = 300, cli_status_file = None, cli_log_format = Pretty \<rparr>"

definition descriptor_source :: "cli \<Rightarrow> bool" where
  "descriptor_source cli \<longleftrightarrow>
     length (filter id [cli_descriptor cli \<noteq> None, cli_namespace cli \<noteq> None, cli_application cli \<noteq> None]) = 1 \<and>
     (cli_application cli \<noteq> None \<longrightarrow> cli_major_version cli \<noteq> None) \<and>
     (cli_major_version cli \<noteq> None \<longrightarrow> cli_application cli \<noteq> None)"

text \<open>\<open>anyhow\<close> errors: a message, or the failure of a part with the context added to it.\<close>

datatype run_error =
    Bail string
  | DescriptorUnreadable string io_error
  | DescriptorInvalid descriptor_error
  | IdentityFailed identity_error
  | SigningKeyInvalid string
  | ProviderFailed provider_error
  | InvalidMultiaddr string string
  | HostFailed host_error
  | CacheFailed cache_error
  | SupervisorFailed supervisor_error

text \<open>
  The libraries. \<open>nl_pending\<close> tells of a world of the chain's client whether a call is outstanding
  in it that is never answered.
\<close>

record ('w, 'p, 'pk, 'sk, 'signer) node_libs =
  nl_utf8 :: "bytes \<Rightarrow> string option"
  nl_parse_json :: "string \<Rightarrow> string + network_descriptor"
  nl_keccak :: "bytes \<Rightarrow> b256"
  nl_multiaddr :: multiaddr_lib
  nl_libp2p :: "('pk, 'sk) libp2p_lib"
  nl_enr :: enr_decoder
  nl_keys :: "'sk key_lib"
  nl_parent :: "string \<Rightarrow> string option"
  nl_parse_signer :: "string \<Rightarrow> string + 'signer"
  nl_parse_url :: "string \<Rightarrow> string + string"
  nl_rpc :: "string \<Rightarrow> ('w, 'p) eth_rpc"
  nl_signer_rpc :: "'signer \<Rightarrow> string \<Rightarrow> ('w, 'p) eth_rpc"
  nl_pending :: "'w \<Rightarrow> bool"

section \<open>The descriptor\<close>

definition read_descriptor ::
  "('w, 'p, 'pk, 'sk, 'signer) node_libs \<Rightarrow> string \<Rightarrow> (disk, run_error, string) proc"
where
  "read_descriptor libs path =
     and_then (proc_err (DescriptorUnreadable path) (read_file path)) (\<lambda>b.
     case nl_utf8 libs b of Some json \<Rightarrow> succeed json | None \<Rightarrow> fail (DescriptorUnreadable path OtherIo))"

definition cli_namespace_of ::
  "('w, 'p, 'pk, 'sk, 'signer) node_libs \<Rightarrow> cli \<Rightarrow> run_error + namespace"
where
  "cli_namespace_of libs cli =
     (case cli_namespace cli of
        Some ns \<Rightarrow> Inr ns
      | None \<Rightarrow>
          (case cli_application cli of
             None \<Rightarrow> Inl (Bail ''one descriptor source is required'')
           | Some application \<Rightarrow>
               if application = [] then Inl (Bail ''--application must not be empty'')
               else (case cli_major_version cli of
                   None \<Rightarrow> Inl (Bail ''--application requires --major-version'')
                 | Some major_version \<Rightarrow> Inr (derive (nl_keccak libs) application major_version))))"

text \<open>Of what the parser lets through, only an empty application has no namespace.\<close>

lemma parsed_namespace:
  assumes "descriptor_source cli" and "cli_descriptor cli = None"
  shows "(\<exists>ns. cli_namespace_of libs cli = Inr ns) \<or>
    cli_application cli = Some [] \<and> cli_namespace_of libs cli = Inl (Bail ''--application must not be empty'')"
  using assms by (auto simp: descriptor_source_def cli_namespace_of_def split: option.splits if_splits)

definition load_descriptor ::
  "('w, 'p, 'pk, 'sk, 'signer) node_libs \<Rightarrow> cli \<Rightarrow> (disk, run_error, network_descriptor) proc"
where
  "load_descriptor libs cli =
     (case cli_descriptor cli of
        Some path \<Rightarrow> and_then (read_descriptor libs path) (\<lambda>json.
          lift_res (map_err DescriptorInvalid (from_json (nl_parse_json libs) json)))
      | None \<Rightarrow> lift_res (res_bind (cli_namespace_of libs cli) (\<lambda>ns.
          map_err DescriptorInvalid (ethereum_mainnet ns [RECORD_TYPE_LIBP2P]))))"

section \<open>The policy\<close>

primrec check_ttls :: "u32 \<Rightarrow> (string \<times> u64) list \<Rightarrow> run_error + unit" where
  "check_ttls maximum_ttl [] = Inr ()"
| "check_ttls maximum_ttl (x # xs) =
     (case x of (option_name, ttl) \<Rightarrow>
      if ttl = 0 \<or> ucast maximum_ttl < ttl
      then Inl (Bail (option_name @ '' must be between 1 and the descriptor maximum TTL''))
      else check_ttls maximum_ttl xs)"

definition validate_cli_policy :: "cli \<Rightarrow> u32 \<Rightarrow> run_error + unit" where
  "validate_cli_policy cli maximum_ttl =
     (if cli_minimum_peers cli = 0 then Inl (Bail ''--minimum-peers must be positive'')
      else if cli_maximum_parallel_dials cli = 0
      then Inl (Bail ''--maximum-parallel-dials must be positive'')
      else if cli_dial_timeout_seconds cli = 0
      then Inl (Bail ''--dial-timeout-seconds must be positive'')
      else if cli_native_observation_millis cli = 0
      then Inl (Bail ''--native-observation-millis must be positive'')
      else if cli_initial_backoff_millis cli = 0 \<or> cli_maximum_backoff_seconds cli = 0
      then Inl (Bail ''retry backoff values must be positive'')
      else if cli_renewal_interval_seconds cli = 0
      then Inl (Bail ''--renewal-interval-seconds must be positive'')
      else check_ttls maximum_ttl
        [(''--reboot-ttl-seconds'', cli_reboot_ttl_seconds cli),
         (''--maintenance-ttl-seconds'', cli_maintenance_ttl_seconds cli)])"

text \<open>The loop of \<open>build_codecs\<close> over the accepted record types.\<close>

fun register_codecs ::
  "('w, 'p, 'pk, 'sk, 'signer) node_libs \<Rightarrow> endpoint_policy \<Rightarrow> u32 list \<Rightarrow> codec_registry \<Rightarrow>
   run_error + codec_registry"
where
  "register_codecs libs policy [] codecs = Inr codecs"
| "register_codecs libs policy (t # ts) codecs =
     (if t = RECORD_TYPE_ENR
      then register_codecs libs policy ts (register codecs (enr_codec (nl_multiaddr libs) (nl_enr libs) policy))
      else if t = RECORD_TYPE_LIBP2P
      then register_codecs libs policy ts (register codecs (libp2p_codec (nl_multiaddr libs)
        (nl_libp2p libs) policy DEFAULT_MAX_ENDPOINTS_PER_RECORD))
      else Inl (Bail (''descriptor requests unsupported record type '' @ decimal (unat t))))"

definition build_codecs ::
  "('w, 'p, 'pk, 'sk, 'signer) node_libs \<Rightarrow> network_descriptor \<Rightarrow> endpoint_policy \<Rightarrow>
   run_error + codec_registry"
where
  "build_codecs libs descriptor policy =
     register_codecs libs policy (nd_accepted_record_types descriptor) new_registry"

definition parse_multiaddrs ::
  "('w, 'p, 'pk, 'sk, 'signer) node_libs \<Rightarrow> string list \<Rightarrow> string \<Rightarrow> run_error + multiaddr list"
where
  "parse_multiaddrs libs values field =
     traverse (\<lambda>v. case ma_parse (nl_multiaddr libs) v of
         Some address \<Rightarrow> Inr address | None \<Rightarrow> Inl (InvalidMultiaddr field v)) values"

definition build_provider ::
  "('w, 'p, 'pk, 'sk, 'signer) node_libs \<Rightarrow> cli \<Rightarrow> run_error + 'w registry_provider"
where
  "build_provider libs cli =
     (case cli_ethereum_private_key cli of
        Some secret \<Rightarrow> res_bind (map_err SigningKeyInvalid (nl_parse_signer libs secret)) (\<lambda>signer.
          map_err ProviderFailed (with_signer (nl_parse_url libs) (nl_signer_rpc libs) (cli_rpc_url cli) signer))
      | None \<Rightarrow> map_err ProviderFailed (read_only (nl_parse_url libs) (nl_rpc libs) (cli_rpc_url cli)))"

definition check_advertised ::
  "endpoint_policy \<Rightarrow> peer_id \<Rightarrow> (multiaddr \<Rightarrow> string) \<Rightarrow> multiaddr list \<Rightarrow> run_error + unit"
where
  "check_advertised policy peer shown addresses =
     (if DEFAULT_MAX_ENDPOINTS_PER_RECORD < length addresses
      then Inl (Bail ''--advertise exceeds the signed peer-record endpoint cap'')
      else case List.find (\<lambda>a. \<not> accepts policy a (Some peer) NativeServer) addresses of
        Some a \<Rightarrow> Inl (Bail (''advertised endpoint is rejected by the selected endpoint policy: '' @ shown a))
      | None \<Rightarrow> Inr ())"

section \<open>The configured node\<close>

record ('w, 'sk) node_setup =
  cf_descriptor :: network_descriptor
  cf_codecs :: codec_registry
  cf_identity :: 'sk
  cf_local_peer :: peer_id
  cf_provider :: "'w registry_provider"
  cf_host :: host_config
  cf_cache :: cache_config
  cf_native_observation :: duration
  cf_scanner :: scanner_config
  cf_announcer :: "'sk announcer_config"
  cf_supervisor_policy :: supervisor_policy

definition cli_host_config :: "cli \<Rightarrow> multiaddr list \<Rightarrow> multiaddr list \<Rightarrow> host_config" where
  "cli_host_config cli listen configured_peers =
     default_host_config\<lparr> hc_listen_addresses := listen,
       hc_configured_peers := configured_peers, hc_enable_mdns := cli_mdns cli \<rparr>"

definition cli_scanner_config :: "cli \<Rightarrow> scanner_config" where
  "cli_scanner_config cli =
     default_scanner_config\<lparr> sc_fallback_confirmations := cli_fallback_confirmations cli,
       sc_use_finality_tags := \<not> cli_allow_unfinalized cli, sc_dial_context := NativeServer \<rparr>"

definition cli_supervisor_policy :: "cli \<Rightarrow> supervisor_policy" where
  "cli_supervisor_policy cli =
     default_supervisor_policy
       \<lparr> sv_bootstrap := \<lparr> bp_minimum_successful_peers = cli_minimum_peers cli,
           bp_maximum_parallel_dials = cli_maximum_parallel_dials cli,
           bp_per_dial_timeout = from_secs (unat (cli_dial_timeout_seconds cli)),
           bp_reboot_ttl = from_secs (unat (cli_reboot_ttl_seconds cli)) \<rparr>,
         sv_initial_backoff := from_millis (unat (cli_initial_backoff_millis cli)),
         sv_maximum_backoff := from_secs (unat (cli_maximum_backoff_seconds cli)),
         sv_maintenance_ttl := from_secs (unat (cli_maintenance_ttl_seconds cli)) \<rparr>"

definition node_setup_of ::
  "cli \<Rightarrow> network_descriptor \<Rightarrow> codec_registry \<Rightarrow> 'sk \<Rightarrow> peer_id \<Rightarrow> 'w registry_provider \<Rightarrow>
   multiaddr list \<Rightarrow> multiaddr list \<Rightarrow> multiaddr list \<Rightarrow> ('w, 'sk) node_setup"
where
  "node_setup_of cli descriptor codecs identity peer provider listen configured_peers advertised =
     \<lparr> cf_descriptor = descriptor, cf_codecs = codecs, cf_identity = identity, cf_local_peer = peer,
       cf_provider = provider,
       cf_host = cli_host_config cli listen configured_peers,
       cf_cache = open_cache codecs (nd_accepted_record_types descriptor) NativeServer
         DEFAULT_MAX_ACTIVE_CANDIDATES,
       cf_native_observation = from_millis (unat (cli_native_observation_millis cli)),
       cf_scanner = cli_scanner_config cli,
       cf_announcer = \<lparr> ac_descriptor = descriptor, ac_keypair = identity, ac_addresses = advertised,
         ac_eligible = cli_seed cli,
         ac_renewal_interval = from_secs (unat (cli_renewal_interval_seconds cli)) \<rparr>,
       cf_supervisor_policy = cli_supervisor_policy cli \<rparr>"

lemmas node_setup_defs = node_setup_of_def cli_host_config_def cli_scanner_config_def cli_supervisor_policy_def

text \<open>What \<open>run\<close> does before it starts the host; \<open>fresh\<close> is the key drawn if none is stored.\<close>

definition configure ::
  "('w, 'p, 'pk, 'sk, 'signer) node_libs \<Rightarrow> 'sk \<Rightarrow> cli \<Rightarrow> (disk, run_error, ('w, 'sk) node_setup) proc"
where
  "configure libs fresh cli =
     and_then (load_descriptor libs cli) (\<lambda>descriptor.
     and_then (lift_res (validate_cli_policy cli (rd_max_ttl_seconds (nd_registry descriptor)))) (\<lambda>_.
     let endpoint_policy = (if cli_allow_private_endpoints cli then local_testing else default_endpoint_policy) in
     and_then (lift_res (build_codecs libs descriptor endpoint_policy)) (\<lambda>codecs.
     and_then (proc_err IdentityFailed (load_or_create_identity (nl_keys libs)
         (nl_parent libs (cli_identity cli)) fresh (cli_identity cli))) (\<lambda>identity.
     let peer = lp_peer_of_key (nl_libp2p libs) (lp_public (nl_libp2p libs) identity) in
     and_then (lift_res (build_provider libs cli)) (\<lambda>provider.
     and_then (ensure (\<not> (cli_seed cli \<and> cli_ethereum_private_key cli = None))
         (Bail ''--seed requires RESURRECT_ETHEREUM_PRIVATE_KEY'')) (\<lambda>_.
     and_then (ensure (\<not> (cli_seed cli \<and> cli_advertise cli = []))
         (Bail ''--seed requires at least one explicit --advertise endpoint'')) (\<lambda>_.
     and_then (lift_res (parse_multiaddrs libs (cli_listen cli) ''listen'')) (\<lambda>listen.
     and_then (lift_res (parse_multiaddrs libs (cli_native_peer cli) ''native-peer'')) (\<lambda>configured_peers.
     and_then (lift_res (parse_multiaddrs libs (cli_advertise cli) ''advertise'')) (\<lambda>advertised.
     and_then (lift_res (check_advertised endpoint_policy peer (ma_show (nl_multiaddr libs)) advertised)) (\<lambda>_.
     succeed (node_setup_of cli descriptor codecs identity peer provider listen configured_peers advertised))))))))))))"

section \<open>What the checks guarantee\<close>

lemma validate_cli_policy_Inr_iff:
  "validate_cli_policy cli max_ttl = Inr () \<longleftrightarrow>
     0 < cli_minimum_peers cli \<and> 0 < cli_maximum_parallel_dials cli \<and>
     cli_dial_timeout_seconds cli \<noteq> 0 \<and> cli_native_observation_millis cli \<noteq> 0 \<and>
     cli_initial_backoff_millis cli \<noteq> 0 \<and> cli_maximum_backoff_seconds cli \<noteq> 0 \<and>
     cli_renewal_interval_seconds cli \<noteq> 0 \<and>
     cli_reboot_ttl_seconds cli \<noteq> 0 \<and> cli_reboot_ttl_seconds cli \<le> ucast max_ttl \<and>
     cli_maintenance_ttl_seconds cli \<noteq> 0 \<and> cli_maintenance_ttl_seconds cli \<le> ucast max_ttl"
  by (auto simp: validate_cli_policy_def not_less)

lemma load_descriptor_valid:
  assumes "load_descriptor libs cli d = (Inr descriptor, e)"
  shows "validate descriptor = Inr ()"
  using assms
  by (auto simp: load_descriptor_def and_then_Inr_iff from_json_def ethereum_mainnet_def
      res_bind_Inr_iff Let_def split: option.splits)

lemma register_codecs_Inr:
  assumes "register_codecs libs policy ts codecs = Inr codecs'"
  shows "set ts \<subseteq> {RECORD_TYPE_ENR, RECORD_TYPE_LIBP2P} \<and> dom codecs' = dom codecs \<union> set ts \<and>
    (\<forall>t. t \<notin> set ts \<longrightarrow> codecs' t = codecs t) \<and>
    (RECORD_TYPE_ENR \<in> set ts \<longrightarrow>
       codecs' RECORD_TYPE_ENR = Some (enr_codec (nl_multiaddr libs) (nl_enr libs) policy)) \<and>
    (RECORD_TYPE_LIBP2P \<in> set ts \<longrightarrow> codecs' RECORD_TYPE_LIBP2P =
       Some (libp2p_codec (nl_multiaddr libs) (nl_libp2p libs) policy DEFAULT_MAX_ENDPOINTS_PER_RECORD))"
  using assms
proof (induction ts arbitrary: codecs)
  case (Cons t ts)
  have k: "codec_record_type (enr_codec (nl_multiaddr libs) (nl_enr libs) policy) = RECORD_TYPE_ENR"
    "codec_record_type (libp2p_codec (nl_multiaddr libs) (nl_libp2p libs) policy
       DEFAULT_MAX_ENDPOINTS_PER_RECORD) = RECORD_TYPE_LIBP2P"
    by (simp_all add: enr_codec_def libp2p_codec_def)
  have ne: "RECORD_TYPE_ENR \<noteq> RECORD_TYPE_LIBP2P" by (simp add: RECORD_TYPE_ENR_def RECORD_TYPE_LIBP2P_def)
  show ?case
  proof (cases "t = RECORD_TYPE_ENR")
    case True
    with Cons.prems have "register_codecs libs policy ts
        (register codecs (enr_codec (nl_multiaddr libs) (nl_enr libs) policy)) = Inr codecs'" by simp
    from Cons.IH [OF this] True k ne show ?thesis
      by (cases "RECORD_TYPE_ENR \<in> set ts") (auto simp: register_def)
  next
    case False
    with Cons.prems have t: "t = RECORD_TYPE_LIBP2P" and "register_codecs libs policy ts
        (register codecs (libp2p_codec (nl_multiaddr libs) (nl_libp2p libs) policy
          DEFAULT_MAX_ENDPOINTS_PER_RECORD)) = Inr codecs'"
      by (auto split: if_splits)
    from Cons.IH [OF this(2)] t k ne show ?thesis
      by (cases "RECORD_TYPE_LIBP2P \<in> set ts") (auto simp: register_def)
  qed
qed simp

lemma check_advertised_Inr_iff:
  "check_advertised policy peer shown addresses = Inr () \<longleftrightarrow>
     length addresses \<le> DEFAULT_MAX_ENDPOINTS_PER_RECORD \<and>
     (\<forall>a \<in> set addresses. accepts policy a (Some peer) NativeServer)"
proof (cases "List.find (\<lambda>a. \<not> accepts policy a (Some peer) NativeServer) addresses")
  case None
  then have "\<forall>a \<in> set addresses. accepts policy a (Some peer) NativeServer" by (auto simp: find_None_iff)
  with None show ?thesis by (simp add: check_advertised_def not_less)
next
  case (Some a)
  then have "a \<in> set addresses \<and> \<not> accepts policy a (Some peer) NativeServer"
    by (auto simp: find_Some_iff)
  with Some show ?thesis by (auto simp: check_advertised_def)
qed

lemma as_secs_from_secs: "as_secs (from_secs (unat n)) = n"
  by (simp add: as_secs_def from_secs_def)

lemma check_ttl_ok:
  assumes "n \<noteq> 0" and "n \<le> ucast (rd_max_ttl_seconds (nd_registry descriptor))"
  shows "\<exists>t. check_ttl descriptor (unat (as_secs (from_secs (unat (n :: u64))))) = Inr t \<and> unat t = unat n"
proof -
  have le: "unat n \<le> unat (rd_max_ttl_seconds (nd_registry descriptor))"
  proof -
    have "unat (ucast (rd_max_ttl_seconds (nd_registry descriptor)) :: u64) =
        unat (rd_max_ttl_seconds (nd_registry descriptor))"
      using unat_less_pow [of "rd_max_ttl_seconds (nd_registry descriptor)"]
      by (simp add: unsigned_ucast_eq take_bit_nat_eq_self)
    then show ?thesis using assms(2) by (simp add: word_le_nat_alt)
  qed
  moreover have "unat (rd_max_ttl_seconds (nd_registry descriptor)) < 2 ^ 32"
    using unat_less_pow [of "rd_max_ttl_seconds (nd_registry descriptor)"] by simp
  ultimately have "unat (ucast n :: u32) = unat n"
    by (simp add: unsigned_ucast_eq take_bit_nat_eq_self)
  moreover have "0 < unat n" using assms(1) by (simp add: unat_gt_0)
  ultimately show ?thesis using le
    by (intro exI [of _ "ucast n"]) (simp add: check_ttl_Inr_iff as_secs_from_secs)
qed

lemma configure_Inr:
  assumes "configure libs fresh cli d = (Inr setup, e)"
  obtains descriptor codecs identity provider listen peers advertised policy
  where "validate descriptor = Inr ()"
    and "validate_cli_policy cli (rd_max_ttl_seconds (nd_registry descriptor)) = Inr ()"
    and "policy = (if cli_allow_private_endpoints cli then local_testing else default_endpoint_policy)"
    and "build_codecs libs descriptor policy = Inr codecs"
    and "build_provider libs cli = Inr provider"
    and "cli_seed cli \<Longrightarrow> cli_ethereum_private_key cli \<noteq> None \<and> cli_advertise cli \<noteq> []"
    and "parse_multiaddrs libs (cli_advertise cli) ''advertise'' = Inr advertised"
    and "check_advertised policy (lp_peer_of_key (nl_libp2p libs) (lp_public (nl_libp2p libs) identity))
           (ma_show (nl_multiaddr libs)) advertised = Inr ()"
    and "setup = node_setup_of cli descriptor codecs identity
           (lp_peer_of_key (nl_libp2p libs) (lp_public (nl_libp2p libs) identity)) provider listen peers advertised"
proof -
  show ?thesis
    using assms unfolding configure_def Let_def
    apply (elim and_then_InrE)
    apply (clarsimp simp: succeed_def)
    apply (rule that [OF load_descriptor_valid], assumption, assumption, rule refl, assumption, assumption,
        force, assumption, assumption, assumption)
    done
qed

lemma configured_codecs:
  assumes "build_codecs libs descriptor policy = Inr codecs"
  shows "dom codecs = set (nd_accepted_record_types descriptor)"
    and "RECORD_TYPE_LIBP2P \<in> set (nd_accepted_record_types descriptor) \<Longrightarrow> codecs RECORD_TYPE_LIBP2P =
       Some (libp2p_codec (nl_multiaddr libs) (nl_libp2p libs) policy DEFAULT_MAX_ENDPOINTS_PER_RECORD)"
  using register_codecs_Inr [of libs policy "nd_accepted_record_types descriptor" new_registry codecs] assms
  by (auto simp: build_codecs_def new_registry_def)

lemma parse_multiaddrs_empty: "parse_multiaddrs libs vs field = Inr [] \<longleftrightarrow> vs = []"
  by (cases vs) (auto simp: parse_multiaddrs_def res_bind_Inr_iff)

lemma from_pos: "0 < from_secs (unat n) \<longleftrightarrow> n \<noteq> 0" "0 < from_millis (unat n) \<longleftrightarrow> n \<noteq> 0"
  by (simp_all add: from_secs_def from_millis_def unat_gt_0)

text \<open>
  C11: a configuration that passes every check has a valid descriptor, a codec for exactly the
  record types it accepts, positive connection targets, windows and delays, and lifetimes
  that the announcer's own bounds check will accept; a node announces only if it is a seed,
  and a seed has a signing key and between 1 and 16 addresses, every one acceptable to the
  endpoint policy for its own peer id.
\<close>

theorem configure_sound:
  assumes "configure libs fresh cli d = (Inr setup, e)"
  shows "validate (cf_descriptor setup) = Inr () \<and>
    dom (cf_codecs setup) = set (nd_accepted_record_types (cf_descriptor setup)) \<and>
    0 < bp_minimum_successful_peers (sv_bootstrap (cf_supervisor_policy setup)) \<and>
    0 < bp_maximum_parallel_dials (sv_bootstrap (cf_supervisor_policy setup)) \<and>
    0 < bp_per_dial_timeout (sv_bootstrap (cf_supervisor_policy setup)) \<and>
    0 < cf_native_observation setup \<and>
    0 < sv_initial_backoff (cf_supervisor_policy setup) \<and>
    0 < sv_maximum_backoff (cf_supervisor_policy setup) \<and>
    0 < ac_renewal_interval (cf_announcer setup) \<and>
    (\<forall>lifetime \<in> {bp_reboot_ttl (sv_bootstrap (cf_supervisor_policy setup)),
        sv_maintenance_ttl (cf_supervisor_policy setup)}.
       \<exists>ttl. check_ttl (ac_descriptor (cf_announcer setup)) (unat (as_secs lifetime)) = Inr ttl \<and> 0 < ttl) \<and>
    (ac_eligible (cf_announcer setup) \<longrightarrow> ac_addresses (cf_announcer setup) \<noteq> [] \<and>
       cli_ethereum_private_key cli \<noteq> None) \<and>
    length (ac_addresses (cf_announcer setup)) \<le> DEFAULT_MAX_ENDPOINTS_PER_RECORD \<and>
    (\<forall>a \<in> set (ac_addresses (cf_announcer setup)).
       accepts (if cli_allow_private_endpoints cli then local_testing else default_endpoint_policy)
         a (Some (cf_local_peer setup)) NativeServer)"
proof -
  from configure_Inr [OF assms] obtain descriptor codecs identity provider listen peers advertised policy
    where c: "validate descriptor = Inr ()"
      "validate_cli_policy cli (rd_max_ttl_seconds (nd_registry descriptor)) = Inr ()"
      "policy = (if cli_allow_private_endpoints cli then local_testing else default_endpoint_policy)"
      "build_codecs libs descriptor policy = Inr codecs"
      "cli_seed cli \<Longrightarrow> cli_ethereum_private_key cli \<noteq> None \<and> cli_advertise cli \<noteq> []"
      "parse_multiaddrs libs (cli_advertise cli) ''advertise'' = Inr advertised"
      "check_advertised policy (lp_peer_of_key (nl_libp2p libs) (lp_public (nl_libp2p libs) identity))
         (ma_show (nl_multiaddr libs)) advertised = Inr ()"
    and s: "setup = node_setup_of cli descriptor codecs identity
           (lp_peer_of_key (nl_libp2p libs) (lp_public (nl_libp2p libs) identity)) provider listen peers advertised"
    by metis
  note v = c(2) [unfolded validate_cli_policy_Inr_iff]
  have ttl: "\<exists>t. check_ttl descriptor (unat (as_secs (from_secs (unat n)))) = Inr t \<and> 0 < t"
    if "n \<noteq> 0" "n \<le> ucast (rd_max_ttl_seconds (nd_registry descriptor))" for n :: u64
  proof -
    have "0 < unat n" using that(1) by (simp add: unat_gt_0)
    then show ?thesis using check_ttl_ok [OF that] by (auto simp: word_less_nat_alt)
  qed
  have "advertised \<noteq> []" if "cli_seed cli"
    using c(5) [OF that] c(6) parse_multiaddrs_empty by metis
  then show ?thesis
    using c(1,5) c(7) [unfolded check_advertised_Inr_iff c(3)] configured_codecs(1) [OF c(4)] v
      ttl [of "cli_reboot_ttl_seconds cli"] ttl [of "cli_maintenance_ttl_seconds cli"]
    by (simp add: s node_setup_defs from_pos)
qed

text \<open>
  C23: what a configured seed publishes, a node configured alike reads: if the descriptor
  accepts libp2p records, the libraries are lawful, its advertised addresses survive their
  binary form and it can sign them, the record is decoded by its own codec to its peer id, its
  sequence number and all of its advertised addresses.
\<close>

theorem seed_record_accepted:
  assumes "configure libs fresh cli d = (Inr setup, e)" and "cli_seed cli"
    and "RECORD_TYPE_LIBP2P \<in> set (nd_accepted_record_types (cf_descriptor setup))"
    and "lawful_libp2p (nl_libp2p libs)"
    and "\<forall>a \<in> set (ac_addresses (cf_announcer setup)).
           ma_from_bytes (nl_multiaddr libs) (ma_to_bytes (nl_multiaddr libs) a) = Some a"
    and "sign_peer_record (nl_multiaddr libs) (nl_libp2p libs) (ac_keypair (cf_announcer setup)) sequence
           (ac_addresses (cf_announcer setup)) = Inr raw"
  shows "\<exists>codec. cf_codecs setup RECORD_TYPE_LIBP2P = Some codec \<and>
    decode_and_verify codec raw NativeServer = Inr
      \<lparr> pc_record_type = RECORD_TYPE_LIBP2P, pc_peer_id = cf_local_peer setup, pc_sequence = sequence,
        pc_endpoints = map (\<lambda>a. \<lparr> ep_address = ma_show (nl_multiaddr libs) a \<rparr>) (ac_addresses (cf_announcer setup)),
        pc_raw_signed_record = raw, pc_expires_at = 0, pc_source = ResurrectRegistry,
        pc_announcement_block = None, pc_announcement_log_index = None \<rparr>"
proof -
  from configure_Inr [OF assms(1)] obtain descriptor codecs identity provider listen peers advertised policy
    where c: "build_codecs libs descriptor policy = Inr codecs"
      "cli_seed cli \<Longrightarrow> cli_ethereum_private_key cli \<noteq> None \<and> cli_advertise cli \<noteq> []"
      "parse_multiaddrs libs (cli_advertise cli) ''advertise'' = Inr advertised"
      "check_advertised policy (lp_peer_of_key (nl_libp2p libs) (lp_public (nl_libp2p libs) identity))
         (ma_show (nl_multiaddr libs)) advertised = Inr ()"
    and s: "setup = node_setup_of cli descriptor codecs identity
           (lp_peer_of_key (nl_libp2p libs) (lp_public (nl_libp2p libs) identity)) provider listen peers advertised"
    by metis
  have "advertised \<noteq> []" using c(2) [OF assms(2)] c(3) parse_multiaddrs_empty by metis
  moreover note c(4) [unfolded check_advertised_Inr_iff]
  moreover have codec: "codecs RECORD_TYPE_LIBP2P = Some (libp2p_codec (nl_multiaddr libs) (nl_libp2p libs)
      policy DEFAULT_MAX_ENDPOINTS_PER_RECORD)"
    using configured_codecs(2) [OF c(1)] assms(3) by (simp add: s node_setup_defs)
  moreover have "filter (\<lambda>a. accepts policy a (Some (lp_peer_of_key (nl_libp2p libs)
      (lp_public (nl_libp2p libs) identity))) NativeServer) advertised = advertised"
    using c(4) by (simp add: check_advertised_Inr_iff)
  ultimately show ?thesis
    using signed_record_decodes [of "nl_libp2p libs" "nl_multiaddr libs" identity sequence advertised raw
        DEFAULT_MAX_ENDPOINTS_PER_RECORD policy NativeServer] assms(4-6)
    by (simp add: s node_setup_defs)
qed

section \<open>A configured seed\<close>

definition test_libs :: "(nat, unit, unit, unit, unit) node_libs" where
  "test_libs =
     \<lparr> nl_utf8 = (\<lambda>_. None), nl_parse_json = (\<lambda>_. Inl ''unread''), nl_keccak = (\<lambda>_. 7),
       nl_multiaddr = toy_multiaddrs\<lparr> ma_parse := (\<lambda>_. Some [Ip4 (ip4 8 8 8 8), Tcp 4001]) \<rparr>,
       nl_libp2p = toy_lib, nl_enr = (\<lambda>_. Inl ''unread''),
       nl_keys = \<lparr> kl_from_protobuf = (\<lambda>_. Inr ()), kl_to_protobuf = (\<lambda>_. Inr [8]) \<rparr>,
       nl_parent = (\<lambda>_. None), nl_parse_signer = (\<lambda>_. Inr ()), nl_parse_url = (\<lambda>_. Inr ''https''),
       nl_rpc = (\<lambda>_. empty_rpc), nl_signer_rpc = (\<lambda>_ _. empty_rpc), nl_pending = (\<lambda>_. False) \<rparr>"

text \<open>The defaults of the command line, for a seed of an application.\<close>

definition test_cli :: cli where
  "test_cli =
     \<lparr> cli_descriptor = None, cli_namespace = None, cli_application = Some ''example-network'',
       cli_major_version = Some 1, cli_rpc_url = ''https://ethereum.example'',
       cli_identity = ''resurrect-identity.key'',
       cli_cache = ''resurrect-peers.sqlite3'', cli_listen = [''/ip4/0.0.0.0/tcp/4001''],
       cli_advertise = [''/ip4/8.8.8.8/tcp/4001''], cli_seed = True,
       cli_ethereum_private_key = Some ''secret'', cli_mdns = True, cli_native_peer = [],
       cli_allow_private_endpoints = False, cli_minimum_peers = 2, cli_maximum_parallel_dials = 8,
       cli_dial_timeout_seconds = 8, cli_native_observation_millis = 1500,
       cli_fallback_confirmations = 12, cli_allow_unfinalized = False,
       cli_reboot_ttl_seconds = 604800, cli_maintenance_ttl_seconds = 2592000,
       cli_renewal_interval_seconds = 1209600, cli_initial_backoff_millis = 1000,
       cli_maximum_backoff_seconds = 300, cli_status_file = None,
       cli_log_format = Pretty \<rparr>"

definition test_setup :: "(nat, unit) node_setup" where
  "test_setup = node_setup_of test_cli
     \<lparr> nd_resurrect_version = RESURRECT_VERSION, nd_registry = ethereum_mainnet_registry,
       nd_namespace = Namespace 7, nd_accepted_record_types = [RECORD_TYPE_LIBP2P] \<rparr>
     [RECORD_TYPE_LIBP2P \<mapsto> libp2p_codec (nl_multiaddr test_libs) toy_lib default_endpoint_policy
        DEFAULT_MAX_ENDPOINTS_PER_RECORD] () [1] (alloy_provider empty_rpc True)
     [[Ip4 (ip4 8 8 8 8), Tcp 4001]] [] [[Ip4 (ip4 8 8 8 8), Tcp 4001]]"

lemma test_accepts: "accepts default_endpoint_policy [Ip4 (ip4 8 8 8 8), Tcp 4001] (Some [1]) NativeServer"
proof -
  have "octet (ip4 8 8 8 8) 0 = 8" by (simp add: octet_nat unat_ip4)
  then show ?thesis
    by (auto simp: accepts_spec permitted_def transport_protocol_def default_endpoint_policy_def
        accept_ip_def is_global_ipv4_def is_multicast4_def is_private_def is_documentation_def ip4_def)
qed

lemma test_configured:
  "\<exists>e. configure test_libs () test_cli \<lparr> dk_files = Map.empty, dk_future = [] \<rparr> = (Inr test_setup, e)"
proof -
  let ?d = "\<lparr> dk_files = Map.empty, dk_future = [] \<rparr>"
  let ?desc = "\<lparr> nd_resurrect_version = RESURRECT_VERSION, nd_registry = ethereum_mainnet_registry,
       nd_namespace = Namespace 7, nd_accepted_record_types = [RECORD_TYPE_LIBP2P] \<rparr>"
  have ld: "load_descriptor test_libs test_cli ?d = (Inr ?desc, ?d)"
    by (simp add: load_descriptor_def test_cli_def cli_namespace_of_def ethereum_mainnet_def validate_def
        derive_def test_libs_def lift_res_def ethereum_mainnet_registry_def)
  have pol: "validate_cli_policy test_cli (rd_max_ttl_seconds ethereum_mainnet_registry) = Inr ()"
    by (simp add: validate_cli_policy_def test_cli_def ethereum_mainnet_registry_def MAX_TTL_SECONDS_def)
  have cod: "build_codecs test_libs ?desc default_endpoint_policy = Inr (cf_codecs test_setup)"
    by (simp add: build_codecs_def new_registry_def test_setup_def node_setup_defs register_def libp2p_codec_def
        RECORD_TYPE_ENR_def RECORD_TYPE_LIBP2P_def) (simp add: test_libs_def)
  obtain e where ident: "load_or_create_identity (nl_keys test_libs) None () ''resurrect-identity.key'' ?d = (Inr (), e)"
    by (simp add: load_or_create_identity_def read_file_def tick_def create_identity_def
        write_private_file_def create_new_def write_all_def sync_all_def and_then_def succeed_def
        lift_res_def proc_err_def test_libs_def)
  have prov: "build_provider test_libs test_cli = Inr (alloy_provider empty_rpc True)"
    by (simp add: build_provider_def test_cli_def test_libs_def with_signer_def parse_url_def)
  have multi: "parse_multiaddrs test_libs [v] field = Inr [[Ip4 (ip4 8 8 8 8), Tcp 4001]]"
      "parse_multiaddrs test_libs [] field = Inr []" for v field
    by (simp_all add: parse_multiaddrs_def test_libs_def)
  have adv: "check_advertised default_endpoint_policy [1] shown [[Ip4 (ip4 8 8 8 8), Tcp 4001]] = Inr ()" for shown
    using test_accepts by (simp add: check_advertised_Inr_iff DEFAULT_MAX_ENDPOINTS_PER_RECORD_def)
  have cli: "cli_allow_private_endpoints test_cli = False" "cli_identity test_cli = ''resurrect-identity.key''"
      "cli_listen test_cli = [''/ip4/0.0.0.0/tcp/4001'']" "cli_native_peer test_cli = []"
      "cli_advertise test_cli = [''/ip4/8.8.8.8/tcp/4001'']" "cli_ethereum_private_key test_cli = Some ''secret''"
    by (simp_all add: test_cli_def)
  have lib: "nl_parent test_libs p = None" "lp_peer_of_key (nl_libp2p test_libs) k = [1]" for p k
    by (simp_all add: test_libs_def toy_lib_def)
  show ?thesis
    by (intro exI [of _ e])
      (simp add: configure_def ld and_then_def lift_res_def proc_err_def ensure_def succeed_def
        pol cod ident prov multi adv cli lib Let_def, simp add: test_setup_def node_setup_defs)
qed

theorem configure_sound_witness:
  "\<exists>e ttl. configure test_libs () test_cli \<lparr> dk_files = Map.empty, dk_future = [] \<rparr> = (Inr test_setup, e) \<and>
     check_ttl (ac_descriptor (cf_announcer test_setup))
       (unat (as_secs (bp_reboot_ttl (sv_bootstrap (cf_supervisor_policy test_setup))))) = Inr ttl"
proof -
  obtain e where "configure test_libs () test_cli \<lparr> dk_files = Map.empty, dk_future = [] \<rparr> = (Inr test_setup, e)"
    using test_configured by blast
  with configure_sound [OF this] show ?thesis by blast
qed

theorem seed_record_accepted_witness:
  "\<exists>raw codec c. sign_peer_record (nl_multiaddr test_libs) toy_lib () 42 (ac_addresses (cf_announcer test_setup)) = Inr raw \<and>
     cf_codecs test_setup RECORD_TYPE_LIBP2P = Some codec \<and>
     decode_and_verify codec raw NativeServer = Inr c \<and> pc_sequence c = 42"
proof -
  obtain e where e: "configure test_libs () test_cli \<lparr> dk_files = Map.empty, dk_future = [] \<rparr> = (Inr test_setup, e)"
    using test_configured by blast
  have f: "nl_libp2p test_libs = toy_lib" "ac_keypair (cf_announcer test_setup) = ()"
      "ac_addresses (cf_announcer test_setup) = [[Ip4 (ip4 8 8 8 8), Tcp 4001]]"
      "nd_accepted_record_types (cf_descriptor test_setup) = [RECORD_TYPE_LIBP2P]" "cli_seed test_cli"
      "ma_from_bytes (nl_multiaddr test_libs) x = Some [Ip4 (ip4 8 8 8 8), Tcp 4001]"
      "ma_to_bytes (nl_multiaddr test_libs) = ma_to_bytes toy_multiaddrs" for x
    by (simp_all add: test_libs_def test_setup_def node_setup_defs test_cli_def toy_multiaddrs_def)
  obtain raw where "sign_peer_record toy_multiaddrs toy_lib () 42 [[Ip4 (ip4 8 8 8 8), Tcp 4001]] = Inr raw"
    using toy_signed by blast
  then have raw: "sign_peer_record (nl_multiaddr test_libs) toy_lib () 42 [[Ip4 (ip4 8 8 8 8), Tcp 4001]] = Inr raw"
    by (simp add: sign_peer_record_def f(7) DEFAULT_MAX_ENDPOINTS_PER_RECORD_def)
  have "\<exists>codec. cf_codecs test_setup RECORD_TYPE_LIBP2P = Some codec \<and>
      decode_and_verify codec raw NativeServer = Inr
        \<lparr> pc_record_type = RECORD_TYPE_LIBP2P, pc_peer_id = cf_local_peer test_setup, pc_sequence = 42,
          pc_endpoints = map (\<lambda>a. \<lparr> ep_address = ma_show (nl_multiaddr test_libs) a \<rparr>) (ac_addresses (cf_announcer test_setup)),
          pc_raw_signed_record = raw, pc_expires_at = 0, pc_source = ResurrectRegistry,
          pc_announcement_block = None, pc_announcement_log_index = None \<rparr>"
    by (rule seed_record_accepted [OF e]) (simp_all add: f toy_lawful raw)
  then show ?thesis using raw f(3) by force
qed

end
