(* ===== verification/Bootstrap_Answers.thy ===== *)
theory Bootstrap_Answers
  imports Bootstrap
begin

text \<open>
  Properties of the world that every interface operation keeps: a bootstrap cycle keeps them
  too. The instance: each answer in the log of a cycle is one that the environment gives in
  some state of its world, so what holds of all answers of a source holds of what was
  dialed.
\<close>

section \<open>The interface\<close>

locale env_invariant =
  fixes env :: "'w bootstrap_env"
    and holds :: "'w \<Rightarrow> bool"
  assumes cache_discover: "holds w \<Longrightarrow> holds (snd (be_cache_discover env ns w))"
    and native_discover: "holds w \<Longrightarrow> holds (snd (be_native_discover env ns w))"
    and add_verified_peer: "holds w \<Longrightarrow> holds (snd (be_add_verified_peer env p w))"
    and registry_discover: "holds w \<Longrightarrow> holds (snd (be_registry_discover env ns w))"
    and connected_peers: "holds w \<Longrightarrow> holds (snd (be_connected_peers env w))"
    and connect: "holds w \<Longrightarrow> holds (be_connect env p t w)"
    and next_dial: "holds w \<Longrightarrow> holds (snd (be_next_dial env ps w))"
    and drop_dials: "holds w \<Longrightarrow> holds (be_drop_dials env ps w)"
    and eligible: "holds w \<Longrightarrow> holds (snd (be_eligible env w))"
    and announce: "holds w \<Longrightarrow> holds (snd (be_announce env d w))"
begin

lemma foldl_connect_holds: "holds w \<Longrightarrow> holds (foldl (\<lambda>v p. be_connect env p t v) w ps)"
  by (induction ps arbitrary: w) (simp_all add: connect)

lemma foldl_add_holds: "holds w \<Longrightarrow> holds (foldl (\<lambda>v p. snd (be_add_verified_peer env p v)) w ps)"
  by (induction ps arbitrary: w) (simp_all add: add_verified_peer)

lemma refill_holds: "holds w \<Longrightarrow> holds (snd (snd (refill env policy flying waiting w)))"
  by (simp add: refill_def Let_def foldl_connect_holds)

lemma dial_loop_holds: "holds w \<Longrightarrow> holds (snd (dial_loop env policy flying waiting w))"
proof (induction "length flying + length waiting" arbitrary: flying waiting w rule: less_induct)
  case less
  obtain fl queued v1 where fill: "refill env policy flying waiting w = (fl, queued, v1)"
    by (metis prod.collapse)
  then have v1: "holds v1" using refill_holds [OF less.prems, of policy flying waiting] by simp
  obtain i v2 where i: "be_next_dial env fl v1 = (i, v2)" by fastforce
  obtain n v3 where n: "be_connected_peers env v2 = (n, v3)" by fastforce
  have v3: "holds v3" using next_dial [OF v1, of fl] connected_peers [of v2] i n by simp
  show ?case
  proof (cases "fl = []")
    case True
    then show ?thesis using v1 by (simp add: dial_loop.simps [of _ policy flying waiting] fill)
  next
    case False
    let ?rest = "remove_nth (i mod length fl) fl"
    have "length ?rest + length queued < length flying + length waiting"
      using False refill_lengths [OF fill] by (cases fl) (simp_all add: length_remove_nth)
    from less.hyps [OF this v3] False drop_dials [OF v3] show ?thesis
      by (simp add: dial_loop.simps [of _ policy flying waiting] fill i n Let_def)
  qed
qed

lemma dial_found_holds: "holds w \<Longrightarrow> holds (snd (dial_found env policy found ts source w))"
  using dial_loop_holds [of w policy "[]"]
  by (auto simp: dial_found_def dial_candidates_def split: sum.split prod.split bool.split)
    (metis snd_conv)+

lemma add_verified_holds: "holds w \<Longrightarrow> holds (add_verified_peers env found w)"
  by (simp add: add_verified_peers_def foldl_add_holds split: sum.split)

lemma promote_holds: "holds w \<Longrightarrow> holds (snd (promote env policy ts w))"
  using eligible [of w] announce [of "snd (be_eligible env w)" "bp_reboot_ttl policy"]
  by (auto simp: promote_def and_then_def succeed_def split: prod.split bool.split sum.split)

lemma run_cycle_holds: "holds w \<Longrightarrow> holds (snd (run_cycle env policy ns w))"
  by (simp add: run_cycle_def split_beta connected_peers cache_discover native_discover registry_discover
      dial_found_holds add_verified_holds promote_holds)

end

section \<open>Answers\<close>

definition answer_of :: "'w bootstrap_env \<Rightarrow> bootstrap_event \<Rightarrow> bool" where
  "answer_of env e \<longleftrightarrow>
     (case e of
        DiscoveredCache ns c \<Rightarrow> \<exists>w. c = fst (be_cache_discover env ns w)
      | DiscoveredNative ns c \<Rightarrow> \<exists>w. c = fst (be_native_discover env ns w)
      | DiscoveredRegistry ns c \<Rightarrow> \<exists>w. c = fst (be_registry_discover env ns w)
      | _ \<Rightarrow> True)"

lemma answer_of_simps [simp]:
  "answer_of env (DiscoveredCache ns (fst (be_cache_discover env ns w)))"
  "answer_of env (DiscoveredNative ns (fst (be_native_discover env ns w)))"
  "answer_of env (DiscoveredRegistry ns (fst (be_registry_discover env ns w)))"
  "answer_of env (AddVerified p)" "answer_of env (SawConnected n)" "answer_of env (DialStarted p t)"
  "answer_of env (DialFinished p)" "answer_of env (DialsDropped ps)" "answer_of env (SawEligible b)"
  "answer_of env (Announced d r)"
  unfolding answer_of_def by simp_all blast+

interpretation answers: env_invariant "observed_env env" "\<lambda>(w, es). \<forall>e \<in> set es. answer_of env e" for env
  by unfold_locales (auto simp: observed_env_def recorded_eq)

lemma observed_answers:
  assumes "run_cycle (observed_env env) policy ns (w, []) = (result, (v, events))" and "e \<in> set events"
  shows "answer_of env e"
  using answers.run_cycle_holds [of env "(w, [])" policy ns] assms by simp

text \<open>Whom a cycle dials, and whom it adds: candidates of an answer in its log.\<close>

definition offered :: "namespace \<Rightarrow> bootstrap_event list \<Rightarrow> peer_candidate \<Rightarrow> bool" where
  "offered ns es p \<longleftrightarrow> (\<exists>c. (DiscoveredCache ns c \<in> set es \<or> DiscoveredNative ns c \<in> set es \<or>
     DiscoveredRegistry ns c \<in> set es) \<and> p \<in> set (candidates_of c))"

lemma stage_offered:
  assumes "dials_ok policy [] peers reached es"
  shows "set (started es) \<subseteq> set peers" and "AddVerified p \<notin> set es"
proof -
  have "started es = take (length (started es)) peers" using assms by (simp add: dials_ok_def)
  then show "set (started es) \<subseteq> set peers" by (metis set_take_subset)
  show "AddVerified p \<notin> set es" using assms by (force simp: dials_ok_def dial_event_def)
qed

lemma isolated_offered:
  assumes "isolated_run policy ns es path"
  shows "(\<forall>p \<in> set (started es). offered ns es p) \<and>
    (\<forall>p. AddVerified p \<in> set es \<longrightarrow> (\<exists>c. DiscoveredRegistry ns c \<in> set es \<and> p \<in> set (candidates_of c)))"
  using assms
proof cases
  case (isolated n c d1 m d2 r d3)
  have "set (started es) \<subseteq> set (candidates_of c) \<union> set (candidates_of m) \<union> set (candidates_of r)"
    using stage_offered(1) [OF isolated(4)] stage_offered(1) [OF isolated(5)] stage_offered(1) [OF isolated(6)]
    by (auto simp: isolated(1))
  moreover have "AddVerified p \<in> set es \<Longrightarrow> p \<in> set (candidates_of r)" for p
    using stage_offered(2) [OF isolated(4)] stage_offered(2) [OF isolated(5)] stage_offered(2) [OF isolated(6)]
    by (auto simp: isolated(1))
  moreover have "DiscoveredCache ns c \<in> set es" "DiscoveredNative ns m \<in> set es" "DiscoveredRegistry ns r \<in> set es"
    by (simp_all add: isolated(1))
  ultimately show ?thesis unfolding offered_def by blast
qed

lemma cycle_offered:
  assumes "cycle_spec policy ns es result"
  shows "(\<forall>p \<in> set (started es). offered ns es p) \<and>
    (\<forall>p. AddVerified p \<in> set es \<longrightarrow> (\<exists>c. DiscoveredRegistry ns c \<in> set es \<and> p \<in> set (candidates_of c)))"
  using assms
proof cases
  case (at_start n)
  then show ?thesis by simp
next
  case (via_cache n c d1)
  then show ?thesis using stage_offered [OF via_cache(4)] by (auto simp: offered_def)
next
  case (via_native n c d1 m d2)
  have "set (started es) \<subseteq> set (candidates_of c) \<union> set (candidates_of m)"
    using stage_offered(1) [OF via_native(4)] stage_offered(1) [OF via_native(5)] by (auto simp: via_native(1))
  moreover have "AddVerified p \<notin> set es" for p
    using stage_offered(2) [OF via_native(4)] stage_offered(2) [OF via_native(5)] by (auto simp: via_native(1))
  moreover have "DiscoveredCache ns c \<in> set es" "DiscoveredNative ns m \<in> set es"
    by (simp_all add: via_native(1))
  ultimately show ?thesis unfolding offered_def by blast
next
  case (via_registry n c d1 m d2 r d3)
  have "set (started es) \<subseteq> set (candidates_of c) \<union> set (candidates_of m) \<union> set (candidates_of r)"
    using stage_offered(1) [OF via_registry(4)] stage_offered(1) [OF via_registry(5)]
      stage_offered(1) [OF via_registry(6)] by (auto simp: via_registry(1))
  moreover have "AddVerified p \<in> set es \<Longrightarrow> p \<in> set (candidates_of r)" for p
    using stage_offered(2) [OF via_registry(4)] stage_offered(2) [OF via_registry(5)]
      stage_offered(2) [OF via_registry(6)] by (auto simp: via_registry(1))
  moreover have "DiscoveredCache ns c \<in> set es" "DiscoveredNative ns m \<in> set es" "DiscoveredRegistry ns r \<in> set es"
    by (simp_all add: via_registry(1))
  ultimately show ?thesis unfolding offered_def by blast
next
  case (not_eligible fs path)
  from isolated_offered [OF not_eligible(3)] show ?thesis by (auto simp: not_eligible(1) offered_def)
next
  case (promoted fs path)
  from isolated_offered [OF promoted(3)] show ?thesis by (auto simp: promoted(1) offered_def)
next
  case (promotion_failed fs path e)
  from isolated_offered [OF promotion_failed(3)] show ?thesis by (auto simp: promotion_failed(1) offered_def)
qed

lemma started_mem: "DialStarted p t \<in> set es \<Longrightarrow> p \<in> set (started es)"
  by (induction es) (auto split: bootstrap_event.splits)

end
