(* ===== verification/Node_Composition.thy ===== *)
theory Node_Composition
  imports Node_Config Bootstrap_Answers Eth_Scan_Chain
begin

text \<open>
  How \<open>run\<close> of \<open>crates/resurrect-node/src/main.rs\<close> joins the parts: the peer cache, the registry
  scanner and the announcer behind the interfaces of the bootstrap controller, over a world
  with the cache's rows, the chain as the provider sees it, the discovery's and announcer's
  own state, the telemetry they share, the disk, and the rest of the host (dialing, native
  discovery, waiting, clock, random numbers, failures of the database).
\<close>

section \<open>The world\<close>

record 'h host_ops =
  ho_native_discover :: "namespace \<Rightarrow> ('h, bootstrap_error, peer_candidate list) proc"
  ho_add_verified_peer :: "peer_candidate \<Rightarrow> ('h, bootstrap_error, unit) proc"
  ho_connected_peers :: "'h \<Rightarrow> nat \<times> 'h"
  ho_connect :: "peer_candidate \<Rightarrow> duration \<Rightarrow> 'h \<Rightarrow> 'h"
  ho_next_dial :: "peer_candidate list \<Rightarrow> 'h \<Rightarrow> nat \<times> 'h"
  ho_drop_dials :: "peer_candidate list \<Rightarrow> 'h \<Rightarrow> 'h"
  ho_clock :: "'h \<Rightarrow> duration option \<times> 'h"
  ho_random :: "'h \<Rightarrow> nat \<times> 'h"
  ho_wait :: "duration \<Rightarrow> 'h \<Rightarrow> bool \<times> 'h"
  ho_database_fault :: "'h \<Rightarrow> database_fault \<times> 'h"

record ('c, 'h) node_world =
  nw_cache :: cache_db
  nw_chain :: 'c
  nw_checkpoint :: "scan_checkpoint option"
  nw_announcer :: registry_announcer
  nw_telemetry :: registry_telemetry
  nw_disk :: disk
  nw_host :: 'h

text \<open>The texts of the errors of other crates that are passed on as strings.\<close>

record node_texts =
  nt_scan :: "scan_error \<Rightarrow> string"
  nt_announce :: error_texts

definition on_fst :: "('x, 'e, 'a) proc \<Rightarrow> ('x \<times> 'c, 'e, 'a) proc" where
  "on_fst m = (\<lambda>(x, c). case m x of (r, x') \<Rightarrow> (r, (x', c)))"

definition on_snd :: "('c, 'e, 'a) proc \<Rightarrow> ('x \<times> 'c, 'e, 'a) proc" where
  "on_snd m = (\<lambda>(x, c). case m c of (r, c') \<Rightarrow> (r, (x, c')))"

definition beside_cache :: "'c registry_provider \<Rightarrow> ('x \<times> 'c) registry_provider" where
  "beside_cache P =
     \<lparr> rp_chain_id = on_snd (rp_chain_id P),
       rp_registry_constants = (\<lambda>a. on_snd (rp_registry_constants P a)),
       rp_block = (\<lambda>b. on_snd (rp_block P b)),
       rp_announcements = (\<lambda>a ns f t. on_snd (rp_announcements P a ns f t)),
       rp_announce = (\<lambda>a ns ty ttl r. on_snd (rp_announce P a ns ty ttl r)) \<rparr>"

section \<open>The parts behind the controller's interfaces\<close>

definition node_cache_discover ::
  "(bytes \<Rightarrow> b256) \<Rightarrow> 'h host_ops \<Rightarrow> ('c, 'sk) node_setup \<Rightarrow> namespace \<Rightarrow>
   (('c, 'h) node_world, bootstrap_error, peer_candidate list) proc"
where
  "node_cache_discover keccak ops setup ns w =
     (case ho_database_fault ops (nw_host w) of (fault, h1) \<Rightarrow>
      case ho_clock ops h1 of (clock, h2) \<Rightarrow>
      case on_database fault (\<lambda>db. (load keccak (cf_cache setup) (cache_unix_time clock) ns db, db)) (nw_cache w) of
        (r, db) \<Rightarrow> (map_err (\<lambda>e. Discovery (cache_error_text e)) r, w\<lparr> nw_cache := db, nw_host := h2 \<rparr>))"

definition node_registry_discover ::
  "(bytes \<Rightarrow> b256) \<Rightarrow> node_texts \<Rightarrow> 'h host_ops \<Rightarrow> ('c, 'sk) node_setup \<Rightarrow> namespace \<Rightarrow>
   (('c, 'h) node_world, bootstrap_error, peer_candidate list) proc"
where
  "node_registry_discover keccak texts ops setup ns w =
     (case ho_database_fault ops (nw_host w) of (fault, h1) \<Rightarrow>
      case registry_discover keccak (beside_cache (cf_provider setup)) (cf_descriptor setup) (cf_codecs setup)
             (cf_scanner setup) (cf_local_peer setup)
             (Some (\<lambda>ns peers. on_fst (on_database fault (store_verified ns peers)))) (nt_scan texts) ns
             ((nw_cache w, nw_chain w), \<lparr> dv_checkpoint = nw_checkpoint w, dv_telemetry = nw_telemetry w \<rparr>) of
        (r, ((db, c), s)) \<Rightarrow> (r, w\<lparr> nw_cache := db, nw_chain := c, nw_checkpoint := dv_checkpoint s,
           nw_telemetry := dv_telemetry s, nw_host := h1 \<rparr>))"

definition node_announce ::
  "multiaddr_lib \<Rightarrow> ('pk, 'sk) libp2p_lib \<Rightarrow> node_texts \<Rightarrow> 'h host_ops \<Rightarrow> ('c, 'sk) node_setup \<Rightarrow> duration \<Rightarrow>
   (('c, 'h) node_world, bootstrap_error, unit) proc"
where
  "node_announce mlib lib texts ops setup lifetime w =
     (case ho_clock ops (nw_host w) of (clock, h1) \<Rightarrow>
      case ho_random ops h1 of (pick, h2) \<Rightarrow>
      case announce mlib lib (nt_announce texts) (cf_provider setup) (cf_announcer setup) (unix_time clock) pick
             lifetime (nw_chain w, (nw_announcer w)\<lparr> na_telemetry := nw_telemetry w \<rparr>) of
        (r, (c, s)) \<Rightarrow> (r, w\<lparr> nw_chain := c, nw_announcer := s, nw_telemetry := na_telemetry s, nw_host := h2 \<rparr>))"

definition on_host :: "('h \<Rightarrow> 'a \<times> 'h) \<Rightarrow> ('c, 'h) node_world \<Rightarrow> 'a \<times> ('c, 'h) node_world" where
  "on_host m w = (case m (nw_host w) of (x, h) \<Rightarrow> (x, w\<lparr> nw_host := h \<rparr>))"

text \<open>A question to the announcer, which reads the clock.\<close>

definition ask_announcer ::
  "((string + u64) \<Rightarrow> registry_announcer \<Rightarrow> bool) \<Rightarrow> 'h host_ops \<Rightarrow> ('c, 'h) node_world \<Rightarrow>
   bool \<times> ('c, 'h) node_world"
where
  "ask_announcer question ops w =
     on_host (\<lambda>h. case ho_clock ops h of (clock, h') \<Rightarrow> (question (unix_time clock) (nw_announcer w), h')) w"

definition node_env ::
  "(bytes \<Rightarrow> b256) \<Rightarrow> multiaddr_lib \<Rightarrow> ('pk, 'sk) libp2p_lib \<Rightarrow> node_texts \<Rightarrow> 'h host_ops \<Rightarrow>
   ('c, 'sk) node_setup \<Rightarrow> ('c, 'h) node_world bootstrap_env"
where
  "node_env keccak mlib lib texts ops setup =
     \<lparr> be_cache_discover = node_cache_discover keccak ops setup,
       be_native_discover = (\<lambda>ns. on_host (ho_native_discover ops ns)),
       be_add_verified_peer = (\<lambda>peer. on_host (ho_add_verified_peer ops peer)),
       be_registry_discover = node_registry_discover keccak texts ops setup,
       be_connected_peers = on_host (ho_connected_peers ops),
       be_connect = (\<lambda>peer timeout w. w\<lparr> nw_host := ho_connect ops peer timeout (nw_host w) \<rparr>),
       be_next_dial = (\<lambda>peers. on_host (ho_next_dial ops peers)),
       be_drop_dials = (\<lambda>peers w. w\<lparr> nw_host := ho_drop_dials ops peers (nw_host w) \<rparr>),
       be_eligible = ask_announcer (eligible (cf_announcer setup)) ops,
       be_renewal_due = ask_announcer (renewal_due (cf_announcer setup)) ops,
       be_announce = node_announce mlib lib texts ops setup \<rparr>"

text \<open>The state that \<open>run\<close> creates for the parts; the counters are shared.\<close>

definition new_node_world ::
  "cache_db \<Rightarrow> 'c \<Rightarrow> duration option \<Rightarrow> disk \<Rightarrow> 'h \<Rightarrow> ('c, 'h) node_world"
where
  "new_node_world db chain clock disk host =
     \<lparr> nw_cache = db, nw_chain = chain, nw_checkpoint = dv_checkpoint (new_discovery no_telemetry),
       nw_announcer = new_announcer (sequence_now clock) no_telemetry, nw_telemetry = no_telemetry,
       nw_disk = disk, nw_host = host \<rparr>"

section \<open>What a configured node dials\<close>

text \<open>
  A candidate whose raw record a codec of the node verified, with addresses that the node's
  endpoint policy accepts, for the peer itself or, in an ENR, for any.
\<close>

definition verified :: "multiaddr_lib \<Rightarrow> endpoint_policy \<Rightarrow> codec_registry \<Rightarrow> u32 list \<Rightarrow> peer_candidate \<Rightarrow> bool" where
  "verified mlib policy codecs types p \<longleftrightarrow>
     pc_record_type p \<in> set types \<and> length (pc_endpoints p) \<le> DEFAULT_MAX_ENDPOINTS_PER_RECORD \<and>
     pc_endpoints p \<noteq> [] \<and>
     (\<exists>codec raw decoded. codecs (pc_record_type p) = Some codec \<and>
        0 < length raw \<and> length raw \<le> DEFAULT_MAX_RECORD_BYTES \<and>
        decode_and_verify codec raw NativeServer = Inr decoded \<and> pc_peer_id p = pc_peer_id decoded \<and>
        pc_sequence p = pc_sequence decoded \<and> pc_endpoints p = pc_endpoints decoded) \<and>
     (\<forall>ep \<in> set (pc_endpoints p). \<exists>a expected. expected \<in> {None, Some (pc_peer_id p)} \<and>
        accepts policy a expected NativeServer \<and> ep_address ep = ma_show mlib a)"

lemma decode_libp2p_endpoints:
  assumes "decode_and_verify (libp2p_codec mlib lib policy n) raw ctx = Inr c"
  shows "pc_endpoints c \<noteq> [] \<and> (\<forall>ep \<in> set (pc_endpoints c). \<exists>a. accepts policy a (Some (pc_peer_id c)) ctx \<and>
    ep_address ep = ma_show mlib a)"
  using assms
  by (auto simp: libp2p_codec_def decode_libp2p_def res_bind_Inr_iff shown_endpoints_def Let_def split: if_splits)
    blast

text \<open>A record whose signature verifies under a key of the peer, and an address it announces.\<close>

definition signed_address ::
  "multiaddr_lib \<Rightarrow> ('pk, 'sk) libp2p_lib \<Rightarrow> bytes \<Rightarrow> bytes \<Rightarrow> multiaddr \<Rightarrow> bool"
where
  "signed_address mlib lib raw peer a \<longleftrightarrow>
     (\<exists>envelope key message. lp_decode_envelope lib raw = Inr envelope \<and>
        lp_decode_key lib (env_public_key envelope) = Inr key \<and> lp_peer_of_key lib key = peer \<and>
        lp_verify lib key (signing_input LIBP2P_PEER_RECORD_PAYLOAD_TYPE (env_payload envelope)) (env_signature envelope) \<and>
        lp_decode_message lib (env_payload envelope) = Inr message \<and>
        lp_peer_from_bytes lib (pm_peer_id message) = Inr peer \<and>
        (\<exists>b \<in> set (pm_addresses message). ma_from_bytes mlib b = Some a))"

lemma decode_libp2p_signed:
  assumes "decode_and_verify (libp2p_codec mlib lib policy n) raw ctx = Inr c" and "ep \<in> set (pc_endpoints c)"
  shows "\<exists>a. accepts policy a (Some (pc_peer_id c)) ctx \<and> ep_address ep = ma_show mlib a \<and>
    signed_address mlib lib raw (pc_peer_id c) a"
  using assms
  by (auto simp: libp2p_codec_def decode_libp2p_def res_bind_Inr_iff shown_endpoints_def Let_def
      signed_address_def List.map_filter_def split: if_splits)
    blast

lemma decode_enr_endpoints:
  assumes "decode_and_verify (enr_codec mlib decoder policy) raw ctx = Inr c"
  shows "pc_endpoints c \<noteq> [] \<and> (\<forall>ep \<in> set (pc_endpoints c). \<exists>a. accepts policy a None ctx \<and>
    ep_address ep = ma_show mlib a)"
  using assms
  by (auto simp: enr_codec_def decode_enr_def shown_endpoints_def Let_def split: if_splits sum.splits)
    blast

lemma configured_codec_verifies:
  assumes "build_codecs libs descriptor policy = Inr codecs"
    and "codecs t = Some codec" and "decode_and_verify codec raw ctx = Inr c"
  shows "pc_endpoints c \<noteq> [] \<and> (\<forall>ep \<in> set (pc_endpoints c). \<exists>a expected.
    expected \<in> {None, Some (pc_peer_id c)} \<and> accepts policy a expected ctx \<and>
    ep_address ep = ma_show (nl_multiaddr libs) a)"
proof -
  note reg = register_codecs_Inr [OF assms(1) [unfolded build_codecs_def]]
  have "t \<in> set (nd_accepted_record_types descriptor)"
    using assms(2) configured_codecs(1) [OF assms(1)] by auto
  moreover have "t = RECORD_TYPE_ENR \<or> t = RECORD_TYPE_LIBP2P"
    using reg calculation by auto
  ultimately have "codec = enr_codec (nl_multiaddr libs) (nl_enr libs) policy \<or>
      codec = libp2p_codec (nl_multiaddr libs) (nl_libp2p libs) policy DEFAULT_MAX_ENDPOINTS_PER_RECORD"
    using reg assms(2) by auto
  then show ?thesis
    using assms(3) decode_enr_endpoints [of "nl_multiaddr libs" "nl_enr libs" policy raw ctx c]
      decode_libp2p_endpoints [of "nl_multiaddr libs" "nl_libp2p libs" policy
        DEFAULT_MAX_ENDPOINTS_PER_RECORD raw ctx c] by blast
qed

lemma verifiedI:
  assumes "build_codecs libs descriptor policy = Inr codecs"
    and "pc_record_type p \<in> set types" and "length (pc_endpoints p) \<le> DEFAULT_MAX_ENDPOINTS_PER_RECORD"
    and "\<exists>codec raw decoded. codecs (pc_record_type p) = Some codec \<and>
        0 < length raw \<and> length raw \<le> DEFAULT_MAX_RECORD_BYTES \<and>
        decode_and_verify codec raw NativeServer = Inr decoded \<and> pc_peer_id p = pc_peer_id decoded \<and>
        pc_sequence p = pc_sequence decoded \<and> pc_endpoints p = pc_endpoints decoded"
  shows "verified (nl_multiaddr libs) policy codecs types p"
proof -
  from assms(4) obtain codec raw decoded where d: "codecs (pc_record_type p) = Some codec"
    "decode_and_verify codec raw NativeServer = Inr decoded" "pc_peer_id p = pc_peer_id decoded"
    "pc_endpoints p = pc_endpoints decoded" by blast
  from configured_codec_verifies [OF assms(1) d(1,2)] assms(2-4) d(3,4) show ?thesis
    unfolding verified_def by metis
qed

lemma cache_answers_verified:
  assumes "build_codecs libs descriptor policy = Inr (cf_codecs setup)"
    and "cf_cache setup = open_cache (cf_codecs setup) types NativeServer n"
    and "p \<in> set (candidates_of (fst (node_cache_discover keccak ops setup ns w)))"
  shows "verified (nl_multiaddr libs) policy (cf_codecs setup) types p"
proof -
  obtain fault h1 where f: "ho_database_fault ops (nw_host w) = (fault, h1)" by fastforce
  obtain clock h2 where c: "ho_clock ops h1 = (clock, h2)" by fastforce
  let ?m = "\<lambda>db. (load keccak (cf_cache setup) (cache_unix_time clock) ns db, db)"
  from assms(3) f c obtain cs where r: "fst (on_database fault ?m (nw_cache w)) = Inr cs" and cs: "p \<in> set cs"
    by (cases "fst (on_database fault ?m (nw_cache w))")
      (auto simp: node_cache_discover_def candidates_of_def split_beta)
  then have l: "load keccak (cf_cache setup) (cache_unix_time clock) ns (nw_cache w) = Inr cs"
    by (auto simp: on_database_def split: option.splits prod.splits bool.splits sum.splits)
  then obtain now where now: "cache_unix_time clock = Inr now"
    by (cases ns; cases "cache_unix_time clock") (auto simp: load_def res_bind_Inr_iff)
  have "cache_discover keccak (cf_cache setup) cache_error_text (Inr now) ns (nw_cache w) = (Inr cs, nw_cache w)"
    using l by (simp add: cache_discover_def now)
  from cached_candidates_sound [OF this] cs show ?thesis
    by (intro verifiedI [OF assms(1)]) (auto simp: assms(2) open_cache_def)
qed

lemma registry_answers_verified:
  assumes "build_codecs libs (cf_descriptor setup) policy = Inr (cf_codecs setup)"
    and "sc_dial_context (cf_scanner setup) = NativeServer"
    and "sc_max_endpoints_per_record (cf_scanner setup) = DEFAULT_MAX_ENDPOINTS_PER_RECORD"
    and "p \<in> set (candidates_of (fst (node_registry_discover keccak texts ops setup ns w)))"
  shows "verified (nl_multiaddr libs) policy (cf_codecs setup)
      (nd_accepted_record_types (cf_descriptor setup)) p"
proof -
  obtain fault h1 where f: "ho_database_fault ops (nw_host w) = (fault, h1)" by fastforce
  let ?s = "\<lparr> dv_checkpoint = nw_checkpoint w, dv_telemetry = nw_telemetry w \<rparr>"
  obtain r u where d: "registry_discover keccak (beside_cache (cf_provider setup)) (cf_descriptor setup) (cf_codecs setup)
             (cf_scanner setup) (cf_local_peer setup)
             (Some (\<lambda>ns peers. on_fst (on_database fault (store_verified ns peers))))
             (nt_scan texts) ns ((nw_cache w, nw_chain w), ?s) = (r, u)" by (rule prod.exhaust)
  with assms(4) f have "p \<in> set (candidates_of r)" by (simp add: node_registry_discover_def split: prod.splits)
  then obtain cs where "r = Inr cs" "p \<in> set cs" by (auto simp: candidates_of_def split: sum.splits)
  with d obtain report v where scan: "scan keccak (beside_cache (cf_provider setup)) (cf_codecs setup) (cf_scanner setup)
      (cf_descriptor setup) (cf_local_peer setup) (nw_checkpoint w) (nw_cache w, nw_chain w) = (Inr report, v)"
    and p: "p \<in> set (sr_candidates report)"
    by (auto simp: registry_discover_def Let_def split: if_splits prod.splits sum.splits)
  from scan_report_sound [OF scan] p assms(2,3) show ?thesis
    by (intro verifiedI [OF assms(1)]) auto
qed

text \<open>
  End to end. Whatever the chain, the cache file, the network and the other hosts answer, a
  node that passed its configuration checks dials, in a bootstrap cycle, only peers that its
  native discovery named and peers whose record a configured codec verified, whose type the
  descriptor accepts, and all of whose addresses the selected endpoint policy accepts; what
  it adds to native discovery is always verified.
\<close>

theorem node_dials_verified:
  fixes w :: "('c, 'h) node_world"
  assumes "configure libs fresh cli d = (Inr setup, e)"
    and "run_cycle (observed_env (node_env keccak mlib lib texts ops setup)) policy ns (w, []) =
           (result, (v, events))"
    and "endpoint_policy = (if cli_allow_private_endpoints cli then local_testing else default_endpoint_policy)"
    and "types = nd_accepted_record_types (cf_descriptor setup)"
  shows "(\<forall>p t. DialStarted p t \<in> set events \<longrightarrow>
       (\<exists>peers. DiscoveredNative ns (Inr peers) \<in> set events \<and> p \<in> set peers) \<or>
       verified (nl_multiaddr libs) endpoint_policy (cf_codecs setup) types p) \<and>
    (\<forall>p. AddVerified p \<in> set events \<longrightarrow>
       verified (nl_multiaddr libs) endpoint_policy (cf_codecs setup) types p)"
proof -
  let ?env = "node_env keccak mlib lib texts ops setup"
  from configure_Inr [OF assms(1)] obtain descriptor codecs identity provider listen peers advertised
    where c: "build_codecs libs descriptor endpoint_policy = Inr codecs"
    and s: "setup = node_setup_of cli descriptor codecs identity
           (lp_peer_of_key (nl_libp2p libs) (lp_public (nl_libp2p libs) identity)) provider listen peers advertised"
    using assms(3) by metis
  have build: "build_codecs libs (cf_descriptor setup) endpoint_policy = Inr (cf_codecs setup)"
    and cache: "cf_cache setup = open_cache (cf_codecs setup) types NativeServer DEFAULT_MAX_ACTIVE_CANDIDATES"
    and scanner: "sc_dial_context (cf_scanner setup) = NativeServer"
      "sc_max_endpoints_per_record (cf_scanner setup) = DEFAULT_MAX_ENDPOINTS_PER_RECORD"
    by (simp_all add: c s assms(4) node_setup_defs default_scanner_config_def)
  let ?ok = "verified (nl_multiaddr libs) endpoint_policy (cf_codecs setup) types"
  have ok: "?ok p" if "p \<in> set (candidates_of c)" and "DiscoveredCache m c \<in> set events \<or> DiscoveredRegistry m c \<in> set events"
    for p c m
  proof -
    from that(2) observed_answers [OF assms(2)] have "answer_of ?env (DiscoveredCache m c) \<or>
        answer_of ?env (DiscoveredRegistry m c)" by blast
    then have "(\<exists>w. c = fst (node_cache_discover keccak ops setup m w)) \<or>
        (\<exists>w. c = fst (node_registry_discover keccak texts ops setup m (w :: ('c, 'h) node_world)))"
      by (simp add: answer_of_def node_env_def)
    then show ?thesis
      using that(1) cache_answers_verified [OF build cache] registry_answers_verified [OF build scanner]
      unfolding assms(4) by blast
  qed
  from cycle_offered [OF run_cycle_spec [OF assms(2)]]
  have started: "\<forall>p \<in> set (started events). offered ns events p"
    and added: "\<forall>p. AddVerified p \<in> set events \<longrightarrow> (\<exists>c. DiscoveredRegistry ns c \<in> set events \<and> p \<in> set (candidates_of c))"
    by blast+
  have "(\<exists>peers. DiscoveredNative ns (Inr peers) \<in> set events \<and> p \<in> set peers) \<or> ?ok p"
    if "DialStarted p t \<in> set events" for p t
  proof -
    from started_mem [OF that] started have "offered ns events p" by blast
    then obtain c where "DiscoveredCache ns c \<in> set events \<or> DiscoveredNative ns c \<in> set events \<or>
        DiscoveredRegistry ns c \<in> set events" and p: "p \<in> set (candidates_of c)"
      unfolding offered_def by blast
    moreover have "\<exists>peers. c = Inr peers \<and> p \<in> set peers"
      using p by (auto simp: candidates_of_def split: sum.splits)
    ultimately show ?thesis using ok [OF p] by blast
  qed
  moreover have "?ok p" if "AddVerified p \<in> set events" for p using added that ok by blast
  ultimately show ?thesis by blast
qed

section \<open>A concrete cycle\<close>

text \<open>A host without peers, whose first dial brings it to two.\<close>

definition test_host :: "nat host_ops" where
  "test_host =
     \<lparr> ho_native_discover = (\<lambda>_. succeed []), ho_add_verified_peer = (\<lambda>_. succeed ()),
       ho_connected_peers = (\<lambda>n. (n, n)), ho_connect = (\<lambda>_ _ n. n), ho_next_dial = (\<lambda>_ _. (0, 2)),
       ho_drop_dials = (\<lambda>_ n. n), ho_clock = (\<lambda>n. (Some (from_secs 5), n)), ho_random = (\<lambda>n. (0, n)),
       ho_wait = (\<lambda>_ n. (True, n)), ho_database_fault = (\<lambda>n. (None, n)) \<rparr>"

definition plain_texts :: node_texts where
  "plain_texts = \<lparr> nt_scan = (\<lambda>_. ''scan''), nt_announce = test_texts \<rparr>"

lemma test_cache_gives:
  "\<exists>db p. pc_source p = LocalCache \<and> cache_discover sum_hash (cf_cache test_setup) cache_error_text (Inr 5) (Namespace 7) db =
     (Inr [p], db)"
proof -
  let ?lib = "nl_multiaddr test_libs"
  let ?codec = "libp2p_codec ?lib toy_lib default_endpoint_policy DEFAULT_MAX_ENDPOINTS_PER_RECORD"
  obtain raw where "sign_peer_record toy_multiaddrs toy_lib () 42 [[Ip4 (ip4 8 8 8 8), Tcp 4001]] = Inr raw"
    using toy_signed by blast
  then have raw: "sign_peer_record ?lib toy_lib () 42 [[Ip4 (ip4 8 8 8 8), Tcp 4001]] = Inr raw"
    by (simp add: sign_peer_record_def test_libs_def DEFAULT_MAX_ENDPOINTS_PER_RECORD_def)
  let ?d = "\<lparr> pc_record_type = RECORD_TYPE_LIBP2P, pc_peer_id = [1], pc_sequence = 42,
      pc_endpoints = [\<lparr> ep_address = ma_show ?lib [Ip4 (ip4 8 8 8 8), Tcp 4001] \<rparr>],
      pc_raw_signed_record = raw, pc_expires_at = 0, pc_source = ResurrectRegistry,
      pc_announcement_block = None, pc_announcement_log_index = None \<rparr>"
  have dec: "length raw \<le> DEFAULT_MAX_RECORD_BYTES \<and> decode_and_verify ?codec raw NativeServer = Inr ?d"
    using signed_record_decodes [OF toy_lawful raw, of DEFAULT_MAX_ENDPOINTS_PER_RECORD
        default_endpoint_policy NativeServer] test_accepts
    by (simp add: test_libs_def toy_multiaddrs_def toy_lib_def DEFAULT_MAX_ENDPOINTS_PER_RECORD_def)
  have nonempty: "raw \<noteq> []"
    using dec by (auto simp: libp2p_codec_def decode_libp2p_def)
  have codecs: "cf_codecs test_setup = [RECORD_TYPE_LIBP2P \<mapsto> ?codec]"
    by (simp add: test_setup_def node_setup_defs)
  let ?a = "\<lparr> an_namespace = Namespace 7, an_record_type = RECORD_TYPE_LIBP2P, an_valid_until = 50,
      an_peer_record = raw, an_block_number = 1, an_log_index = 1, an_block_hash = None \<rparr>"
  let ?policy = "\<lparr> ap_expected_namespace = Namespace 7, ap_accepted_record_types = [RECORD_TYPE_LIBP2P],
      ap_chain_time = 5, ap_max_record_bytes = DEFAULT_MAX_RECORD_BYTES,
      ap_max_endpoints = DEFAULT_MAX_ENDPOINTS_PER_RECORD, ap_dial_context = NativeServer \<rparr>"
  obtain c where c: "validate_announcement (cf_codecs test_setup) ?a ?policy = Inr c"
    and f: "pc_expires_at c = 50" "pc_sequence c = 42" "pc_record_type c = RECORD_TYPE_LIBP2P"
      "length (pc_endpoints c) = 1" "pc_announcement_block c = Some 1" "pc_announcement_log_index c = Some 1"
    using dec nonempty by (simp add: validate_announcement_def codecs DEFAULT_MAX_ENDPOINTS_PER_RECORD_def)
  have "lawful_registry (cf_codecs test_setup)"
    by (simp add: codecs lawful_registry_def signed.verifying_codec_axioms) (simp add: libp2p_codec_def)
  from stored_candidate_returns [OF this c, of NativeServer "[RECORD_TYPE_LIBP2P]" 5 "Namespace 7" sum_hash
      DEFAULT_MAX_ACTIVE_CANDIDATES cache_error_text] f dec
  obtain db where "cache_discover sum_hash (open_cache (cf_codecs test_setup) [RECORD_TYPE_LIBP2P] NativeServer
      DEFAULT_MAX_ACTIVE_CANDIDATES) cache_error_text (Inr 5) (Namespace 7) db =
      (Inr [c\<lparr> pc_source := LocalCache \<rparr>], db)"
    by (auto simp: fits_def opt_default_def DEFAULT_MAX_ENDPOINTS_PER_RECORD_def)
  moreover have "cf_cache test_setup = open_cache (cf_codecs test_setup) [RECORD_TYPE_LIBP2P] NativeServer
      DEFAULT_MAX_ACTIVE_CANDIDATES"
    by (simp add: test_setup_def node_setup_defs)
  ultimately show ?thesis by (intro exI [of _ db] exI [of _ "c\<lparr> pc_source := LocalCache \<rparr>"]) simp
qed

theorem node_dials_verified_witness:
  "\<exists>db p t result v events. run_cycle (observed_env (node_env sum_hash toy_multiaddrs toy_lib plain_texts test_host test_setup))
       (sv_bootstrap (cf_supervisor_policy test_setup)) (Namespace 7)
       (new_node_world db (0 :: nat) None \<lparr> dk_files = Map.empty, dk_future = [] \<rparr> 0, []) = (result, (v, events)) \<and>
     DialStarted p t \<in> set events \<and>
     verified (nl_multiaddr test_libs) default_endpoint_policy (cf_codecs test_setup) [RECORD_TYPE_LIBP2P] p"
proof -
  obtain db p where p: "cache_discover sum_hash (cf_cache test_setup) cache_error_text (Inr 5) (Namespace 7) db =
      (Inr [p], db)" using test_cache_gives by blast
  let ?env = "node_env sum_hash toy_multiaddrs toy_lib plain_texts test_host test_setup"
  let ?policy = "sv_bootstrap (cf_supervisor_policy test_setup)"
  let ?w = "new_node_world db (0 :: nat) None \<lparr> dk_files = Map.empty, dk_future = [] \<rparr> (0 :: nat)"
  let ?events = "[SawConnected 0, DiscoveredCache (Namespace 7) (Inr [p]),
      DialStarted p (bp_per_dial_timeout ?policy), DialFinished p, SawConnected 2, DialsDropped []]"
  have pol: "bp_minimum_successful_peers ?policy = 2" "bp_maximum_parallel_dials ?policy = 8"
    by (simp_all add: test_setup_def node_setup_defs test_cli_def)
  have l: "load sum_hash (cf_cache test_setup) (Inr 5) (Namespace 7) db = Inr [p]"
      "cache_unix_time (Some (from_secs 5)) = Inr 5"
    using p by (simp_all add: cache_discover_def cache_unix_time_def as_secs_def from_secs_def)
  have run: "\<exists>result v. run_cycle (observed_env ?env) ?policy (Namespace 7) (?w, []) = (result, (v, ?events))"
    by (simp add: run_cycle_def observed_env_def recorded_def node_env_def on_host_def test_host_def
        node_cache_discover_def on_database_def new_node_world_def l connection_target_def pol dial_found_def dial_candidates_def
        dial_loop.simps refill_def remove_nth_def Let_def)
  obtain e where e: "configure test_libs () test_cli \<lparr> dk_files = Map.empty, dk_future = [] \<rparr> = (Inr test_setup, e)"
    using test_configured by blast
  have s: "cli_allow_private_endpoints test_cli = False"
      "nd_accepted_record_types (cf_descriptor test_setup) = [RECORD_TYPE_LIBP2P]"
    by (simp_all add: test_cli_def test_setup_def node_setup_defs)
  from run obtain result v where r: "run_cycle (observed_env ?env) ?policy (Namespace 7) (?w, []) = (result, (v, ?events))"
    by blast
  from node_dials_verified [OF e r refl refl]
  have "(\<exists>peers. DiscoveredNative (Namespace 7) (Inr peers) \<in> set ?events \<and> p \<in> set peers) \<or>
      verified (nl_multiaddr test_libs) default_endpoint_policy (cf_codecs test_setup) [RECORD_TYPE_LIBP2P] p"
    unfolding s by (metis list.set_intros(1,2))
  then have "verified (nl_multiaddr test_libs) default_endpoint_policy (cf_codecs test_setup) [RECORD_TYPE_LIBP2P] p"
    by simp
  with r show ?thesis by (metis list.set_intros(1,2))
qed

end
