(* ===== verification/Supervisor_Invariants.thy ===== *)
theory Supervisor_Invariants
  imports Supervisor_Returns Bootstrap_Answers
begin

text \<open>
  The worlds that a supervisor passes through, whether it ever returns or not, and invariants of
  them: a property of the world that every operation keeps holds in all (locale
  \<open>supervisor_invariant\<close>, which extends \<open>env_invariant\<close>). Instances: the answers in the log,
  and that whom a cycle dials was offered by an answer before it.
\<close>

section \<open>The worlds of a run\<close>

inductive supervised :: "'w supervisor_env \<Rightarrow> supervisor \<Rightarrow> 'w \<Rightarrow> supervisor_state \<Rightarrow> 'w \<Rightarrow> bool"
  for env node w0 where
  begins: "supervised env node w0 initial_state w0"
| turns: "supervised env node w0 s w \<Longrightarrow> supervise_turn env node s w = (Inr (Continue s'), v) \<Longrightarrow>
    supervised env node w0 s' v"

text \<open>Where some turn ends, be it the last one.\<close>

definition reaches :: "'w supervisor_env \<Rightarrow> supervisor \<Rightarrow> 'w \<Rightarrow> 'w \<Rightarrow> bool" where
  "reaches env node w0 v \<longleftrightarrow>
     v = w0 \<or> (\<exists>s w r. supervised env node w0 s w \<and> supervise_turn env node s w = (r, v))"

lemma supervised_reaches: "supervised env node w0 s v \<Longrightarrow> reaches env node w0 v"
  by (cases rule: supervised.cases) (auto simp: reaches_def)

lemma supervise_reaches:
  assumes "supervise env node s w = Some (r, v)" and "supervised env node w0 s w"
  shows "reaches env node w0 v"
proof -
  let ?P = "\<lambda>env node s x y. supervised env node w0 s x \<longrightarrow> reaches env node w0 (snd y)"
  have "?P env node s w (r, v)"
  proof (rule supervise.raw_induct [where P = ?P, OF _ assms(1)], intro impI)
    fix f env node s x y
    assume IH: "\<And>env node s x y. f env node s x = Some y \<Longrightarrow> ?P env node s x y"
      and eq: "(case supervise_turn env node s x of (r, v) \<Rightarrow> if se_gone env v then None else (case r of
          Inl error \<Rightarrow> Some (Inl error, v)
        | Inr turn \<Rightarrow> (case turn of Stop \<Rightarrow> Some (Inr (), v) | Continue s' \<Rightarrow> f env node s' v))) = Some y"
      and sup: "supervised env node w0 s x"
    obtain a u where turn: "supervise_turn env node s x = (a, u)" by fastforce
    consider "snd y = u" | s' where "a = Inr (Continue s')" "f env node s' u = Some y"
      using eq turn by (auto split: sum.splits turn.splits if_splits)
    then show "reaches env node w0 (snd y)"
    proof cases
      case 1
      with sup turn show ?thesis by (auto simp: reaches_def)
    next
      case 2
      with IH [OF 2(2)] sup turn show ?thesis by (auto intro: supervised.turns)
    qed
  qed
  with assms(2) show ?thesis by simp
qed

lemma run_reaches: "run_supervisor env node w0 = Some (r, v) \<Longrightarrow> reaches env node w0 v"
  using supervise_reaches [OF _ supervised.begins] by (simp add: run_supervisor_def initial_state_def)

text \<open>
  A turn that control does not come back from is the last: the supervisor never returns. The
  worlds above take no notice of it, so that what holds in all of them holds in more worlds
  than a run can pass through.
\<close>

definition turn_ends :: "'w supervisor_env \<Rightarrow> supervisor \<Rightarrow> 'w \<Rightarrow> 'w \<Rightarrow> bool" where
  "turn_ends env node w0 v \<longleftrightarrow> (\<exists>s w r. supervised env node w0 s w \<and> supervise_turn env node s w = (r, v))"

lemma turn_ends_reaches: "turn_ends env node w0 v \<Longrightarrow> reaches env node w0 v"
  by (auto simp: turn_ends_def reaches_def)

lemma supervised_goes_on:
  "supervised env node w0 s w \<Longrightarrow>
   run_supervisor env node w0 = None \<or> run_supervisor env node w0 = supervise env node s w"
proof (induction rule: supervised.induct)
  case begins
  show ?case by (simp add: run_supervisor_def initial_state_def)
next
  case (turns s w s' v)
  then show ?case by (auto simp: supervise.simps [of env node s w])
qed

lemma gone_never_returns:
  assumes "turn_ends env node w0 v" and "se_gone env v"
  shows "run_supervisor env node w0 = None"
proof -
  from assms(1) obtain s w r where s: "supervised env node w0 s w" and t: "supervise_turn env node s w = (r, v)"
    unfolding turn_ends_def by blast
  have "supervise env node s w = None" using assms(2) by (simp add: supervise.simps [of env node s w] t)
  with supervised_goes_on [OF s] show ?thesis by simp
qed

section \<open>The interface\<close>

locale supervisor_invariant = env_invariant "se_bootstrap env" holds
  for env :: "'w supervisor_env" and holds :: "'w \<Rightarrow> bool" +
  assumes renewal_due: "holds w \<Longrightarrow> holds (snd (be_renewal_due (se_bootstrap env) w))"
    and telemetry: "holds w \<Longrightarrow> holds (snd (se_telemetry env w))"
    and unix_time: "holds w \<Longrightarrow> holds (snd (se_unix_time env w))"
    and random: "holds w \<Longrightarrow> holds (snd (se_random env w))"
    and wait: "holds w \<Longrightarrow> holds (snd (se_wait env d w))"
    and create_dir_all: "holds w \<Longrightarrow> holds (snd (fs_create_dir_all (se_files env) p w))"
    and write_file: "holds w \<Longrightarrow> holds (snd (fs_write (se_files env) p b w))"
    and rename_file: "holds w \<Longrightarrow> holds (snd (fs_rename (se_files env) p q w))"
begin

lemma file_ops_keep:
  "keeps holds (fs_create_dir_all (se_files env) p)" "keeps holds (fs_write (se_files env) p b)"
  "keeps holds (fs_rename (se_files env) p q)"
  by (simp_all add: keeps_def create_dir_all write_file rename_file)

lemma files_keep: "keeps holds (write_atomic_json lib (se_files env) path status)"
  unfolding write_atomic_json_def Let_def
  by (auto intro!: keeps_and_then keeps_rules file_ops_keep split: option.split)

lemma publish_keeps: "keeps holds (publish_status env node status)"
  using files_keep keeps_rules(1) by (auto simp: publish_status_def split: option.split)

lemma report_keeps: "keeps holds (report_status env node state m via path err)"
  unfolding keeps_def
proof (intro allI impI)
  fix w assume "holds w"
  then have "holds (snd (se_unix_time env (snd (se_telemetry env w))))" using unix_time telemetry by simp
  then show "holds (snd (report_status env node state m via path err w))"
    unfolding report_status_def split_beta by (rule keepsD [OF publish_keeps])
qed

lemma renew_holds: "holds w \<Longrightarrow> holds (snd (renew env node w))"
proof -
  assume w: "holds w"
  obtain due v where d: "be_renewal_due (se_bootstrap env) w = (due, v)" by fastforce
  obtain r u where a: "be_announce (se_bootstrap env) (sv_maintenance_ttl (su_policy node)) v = (r, u)" by fastforce
  have "holds v" using renewal_due [OF w] d by simp
  moreover from this have "holds u" using announce [of v "sv_maintenance_ttl (su_policy node)"] a by simp
  ultimately show ?thesis
    using d a by (cases due; cases r) (auto simp: renew_def split: unit.splits)
qed

lemma and_then_holds: "keeps holds m \<Longrightarrow> (\<And>x. keeps holds (f x)) \<Longrightarrow> holds w \<Longrightarrow> holds (snd (and_then m f w))"
  using keeps_and_then [of holds m f] by (simp add: keeps_def)

lemma connected_turn_holds: "holds w \<Longrightarrow> holds (snd (connected_turn env node n s w))"
proof -
  assume "holds w"
  then have "holds (snd (renew env node w))" by (rule renew_holds)
  moreover have "keeps holds (\<lambda>w2. case se_wait env d w2 of (True, w3) \<Rightarrow> (Inr Stop, w3)
      | (False, w3) \<Rightarrow> (Inr (Continue s'), w3))" for d s'
    unfolding keeps_def using wait by (auto split: prod.split bool.split) (metis snd_conv)+
  ultimately show ?thesis
    by (auto simp: connected_turn_def split_beta intro!: and_then_holds report_keeps)
qed

lemma retry_keeps: "keeps holds (retry env node s)"
  unfolding keeps_def retry_def
  using random wait by (auto split: prod.split bool.split) (metis snd_conv)+

lemma bootstrap_turn_holds: "holds w \<Longrightarrow> holds (snd (bootstrap_turn env node s w))"
proof -
  assume w: "holds w"
  obtain result w1 where r: "run_cycle (se_bootstrap env) (sv_bootstrap (su_policy node)) (su_namespace node) w = (result, w1)"
    by fastforce
  obtain st via path err where c: "cycle_status node result = (st, via, path, err)" by (rule prod_cases4)
  have "holds w1" using run_cycle_holds [OF w] r by (metis snd_conv)
  then have "holds (snd (be_connected_peers (se_bootstrap env) w1))" by (rule connected_peers)
  then show ?thesis
    by (auto simp: bootstrap_turn_def r c Let_def split_beta intro!: and_then_holds report_keeps keeps_rules retry_keeps)
qed

lemma supervise_turn_holds: "holds w \<Longrightarrow> holds (snd (supervise_turn env node s w))"
  using connected_peers [of w]
  by (auto simp: supervise_turn_def split_beta connected_turn_holds bootstrap_turn_holds)

lemma supervised_holds: "supervised env node w0 s v \<Longrightarrow> holds w0 \<Longrightarrow> holds v"
proof (induction rule: supervised.induct)
  case (turns s w s' v)
  then show ?case using supervise_turn_holds [of w node s] by simp
qed

lemma reaches_holds: "reaches env node w0 v \<Longrightarrow> holds w0 \<Longrightarrow> holds v"
  unfolding reaches_def using supervised_holds supervise_turn_holds by (metis snd_conv)

end

section \<open>Answers\<close>

definition answers_only :: "'w bootstrap_env \<Rightarrow> 'w \<times> supervisor_event list \<Rightarrow> bool" where
  "answers_only env = (\<lambda>(w, es). \<forall>e. Cycle e \<in> set es \<longrightarrow> answer_of env e)"

lemma answer_of_more [simp]: "answer_of env (SawRenewalDue b)"
  by (simp add: answer_of_def)

interpretation answering: supervisor_invariant "observed_supervisor env" "answers_only (se_bootstrap env)" for env
  by unfold_locales
    (auto simp: answers_only_def logged_env_def recorded_eq observed_files_def logged_eq)

text \<open>Whom the cycles dial, and whom they add: candidates of an answer in the log.\<close>

definition offered_in :: "namespace \<Rightarrow> supervisor_event list \<Rightarrow> peer_candidate \<Rightarrow> bool" where
  "offered_in ns es p \<longleftrightarrow> (\<exists>c. (Cycle (DiscoveredCache ns c) \<in> set es \<or> Cycle (DiscoveredNative ns c) \<in> set es \<or>
     Cycle (DiscoveredRegistry ns c) \<in> set es) \<and> p \<in> set (candidates_of c))"

definition dials_offered :: "namespace \<Rightarrow> supervisor_event list \<Rightarrow> bool" where
  "dials_offered ns es \<longleftrightarrow>
     (\<forall>p t. Cycle (DialStarted p t) \<in> set es \<longrightarrow> offered_in ns es p) \<and>
     (\<forall>p. Cycle (AddVerified p) \<in> set es \<longrightarrow>
        (\<exists>c. Cycle (DiscoveredRegistry ns c) \<in> set es \<and> p \<in> set (candidates_of c)))"

lemma dials_offered_append: "dials_offered ns es \<Longrightarrow> dials_offered ns fs \<Longrightarrow> dials_offered ns (es @ fs)"
  unfolding dials_offered_def offered_in_def by (simp add: Bex_def) blast

lemma dials_offered_none:
  "\<forall>p t. Cycle (DialStarted p t) \<notin> set es \<Longrightarrow> \<forall>p. Cycle (AddVerified p) \<notin> set es \<Longrightarrow> dials_offered ns es"
  by (simp add: dials_offered_def)

lemma cycle_dials_offered:
  assumes "cycle_spec policy ns es r"
  shows "dials_offered ns (map Cycle es)"
proof -
  have mem: "Cycle e \<in> set (map Cycle es) \<longleftrightarrow> e \<in> set es" for e by auto
  have s: "DialStarted p t \<in> set es \<Longrightarrow> offered ns es p" for p t
    using cycle_offered [OF assms] started_mem by blast
  show ?thesis
    using s cycle_offered [OF assms] unfolding dials_offered_def offered_in_def offered_def mem by blast
qed

lemma reported_dials_offered: "reported node state m via path err pub r \<Longrightarrow> dials_offered ns pub"
  by (intro dials_offered_none)
    (auto simp: reported_def published_def follows_def dest!: in_set_takeD split: option.splits)

lemma turn_dials_offered:
  assumes "turn_spec node s es r"
  shows "dials_offered (su_namespace node) es"
proof -
  let ?ok = "dials_offered (su_namespace node)"
  have one: "?ok [Cycle (SawConnected n)]" "?ok [Waited d b]" for n d b
    by (simp_all add: dials_offered_none)
  have ren: "renewed node ren err \<Longrightarrow> ?ok ren" for ren err
    by (auto simp: renewed_def intro!: dials_offered_none)
  have app: "?ok (e # fs)" if "?ok [e]" "?ok fs" for e fs
    using dials_offered_append [OF that] by simp
  from assms show ?thesis
    by cases (auto intro!: app one dials_offered_append intro: ren cycle_dials_offered reported_dials_offered)
qed

lemma supervised_dials_offered:
  assumes "supervised (observed_supervisor env) node (w, []) s x"
  shows "dials_offered (su_namespace node) (snd x)"
  using assms
proof (induction rule: supervised.induct)
  case begins
  show ?case by (simp add: dials_offered_none)
next
  case (turns s x s' y)
  obtain new where "snd y = snd x @ new" "turn_spec node s new (Inr (Continue s'))"
    using supervise_turn_observed [of env node s "fst x" "snd x" _ "fst y" "snd y"] turns.hyps(2) by auto
  with turns.IH turn_dials_offered dials_offered_append show ?case by metis
qed

lemma reaches_dials_offered:
  assumes "reaches (observed_supervisor env) node (w, []) (v, es)"
  shows "dials_offered (su_namespace node) es"
proof -
  consider "es = []" | s x r where "supervised (observed_supervisor env) node (w, []) s x"
      "supervise_turn (observed_supervisor env) node s x = (r, (v, es))"
    using assms by (auto simp: reaches_def)
  then show ?thesis
  proof cases
    case 1
    then show ?thesis by (simp add: dials_offered_none)
  next
    case 2
    obtain new where "es = snd x @ new" "turn_spec node s new r"
      using supervise_turn_observed [of env node s "fst x" "snd x" r v es] 2(2) by auto
    with supervised_dials_offered [OF 2(1)] turn_dials_offered dials_offered_append show ?thesis by metis
  qed
qed

end
