(* ===== verification/Provider_Invariants.thy ===== *)
theory Provider_Invariants
  imports Eth_Scanner
begin

text \<open>
  Properties of the world that every question to the provider keeps: a scan
  (\<open>crates/resurrect-ethereum/src/scanner.rs\<close>) keeps them too, whatever it is answered.
\<close>

lemma search_loop_keeps:
  assumes "\<forall>r. keeps I (rp_block P r)" and "I w"
  shows "I (snd (search_loop P cutoff low high w))"
  using assms
proof (induction P cutoff low high w rule: search_loop.induct)
  case (1 P cutoff low high w)
  let ?m = "low + (high - low) div 2"
  obtain r v where r: "rp_block P (Number ?m) w = (r, v)" by fastforce
  have v: "I v" using keepsD [of I "rp_block P (Number ?m)" w] "1.prems" r by simp
  show ?case
  proof (cases "low < high")
    case True
    show ?thesis
    proof (cases r)
      case (Inl e)
      with True r v show ?thesis by (simp add: search_loop.simps [of P cutoff low high w] Let_def)
    next
      case (Inr found)
      then show ?thesis
        using True r v "1.IH" [OF True refl r [symmetric] Inr _ _ "1.prems"(1) v]
        by (cases found) (auto simp: search_loop.simps [of P cutoff low high w] Let_def)
    qed
  next
    case False
    with "1.prems"(2) show ?thesis by (simp add: search_loop.simps [of P cutoff low high w])
  qed
qed

lemma scan_loop_keeps:
  assumes "\<forall>a ns f t. keeps I (rp_announcements P a ns f t)" and "I w"
  shows "I (snd (scan_loop keccak P codecs config registry policy head minimum from_block chunk_size reductions progress w))"
  using assms
proof (induction keccak P codecs config registry policy head minimum from_block chunk_size reductions progress w
    rule: scan_loop.induct)
  case (1 keccak P codecs config registry policy head minimum from_block chunk_size reductions progress w)
  let ?to = "chunk_end from_block chunk_size head"
  obtain r v where r: "rp_announcements P registry (ap_expected_namespace policy) from_block ?to w = (r, v)"
    by fastforce
  have v: "I v" using keepsD [of I "rp_announcements P registry (ap_expected_namespace policy) from_block ?to" w] "1.prems" r by simp
  show ?case
  proof (cases "from_block \<le> head \<and> sp_logs_processed progress < sc_max_logs_per_scan config")
    case True
    show ?thesis
    proof (cases r)
      case (Inl e)
      with True r v "1.IH"(1) [OF True refl r [symmetric] Inl _ "1.prems"(1) v] show ?thesis
        by (simp add: scan_loop.simps [of keccak P codecs config registry policy head minimum from_block] Let_def)
    next
      case (Inr as)
      with True r v "1.IH"(2) [OF True refl r [symmetric] Inr refl _ "1.prems"(1) v] show ?thesis
        by (simp add: scan_loop.simps [of keccak P codecs config registry policy head minimum from_block] Let_def)
    qed
  next
    case False
    with "1.prems"(2) show ?thesis
      by (auto simp: scan_loop.simps [of keccak P codecs config registry policy head minimum from_block])
  qed
qed

locale provider_invariant =
  fixes P :: "'w registry_provider"
    and holds :: "'w \<Rightarrow> bool"
  assumes chain_id: "keeps holds (rp_chain_id P)"
    and registry_constants: "keeps holds (rp_registry_constants P a)"
    and block: "keeps holds (rp_block P r)"
    and announcements: "keeps holds (rp_announcements P a ns from_block to_block)"
begin

lemma try_tag_keeps: "keeps holds m \<Longrightarrow> keeps holds (try_tag P tag m)"
  unfolding keeps_def
proof (intro allI impI)
  fix w assume m: "\<forall>w. holds w \<longrightarrow> holds (snd (m w))" and w: "holds w"
  obtain a v where a: "rp_block P tag w = (a, v)" by fastforce
  have "holds v" using keepsD [OF block w, of tag] a by simp
  with a m show "holds (snd (try_tag P tag m w))"
    by (auto simp: try_tag_def split: sum.split option.split provider_error.split)
qed

lemma fallback_keeps: "keeps holds (fallback_head P config)"
  unfolding fallback_head_def by (auto intro!: keeps_and_then keeps_rules block)

lemma head_keeps: "keeps holds (confirmed_head P config)"
  unfolding confirmed_head_def by (auto intro!: try_tag_keeps fallback_keeps)

lemma reorg_keeps: "keeps holds (detect_reorg P previous)"
  unfolding detect_reorg_def by (auto intro!: keeps_and_then keeps_rules block split: option.split)

lemma find_start_keeps: "keeps holds (find_start_block P deployment head cutoff)"
  using search_loop_keeps [where P = P and I = holds] block by (auto simp: find_start_block_def keeps_def succeed_def)

lemma scan_logs_keeps:
  "keeps holds (scan_logs keccak P codecs config descriptor node constants start_block head)"
proof -
  have "keeps holds (scan_loop keccak P codecs config registry policy number minimum from_block chunk n progress)"
    for registry policy number minimum from_block chunk n progress
    using scan_loop_keeps [of holds P] announcements by (simp add: keeps_def [of holds "scan_loop _ _ _ _ _ _ _ _ _ _ _ _"])
  then show ?thesis unfolding scan_logs_def split_def
    by (intro keeps_and_then keeps_rules)
qed

lemma scan_keeps: "keeps holds (scan keccak P codecs config descriptor node previous)"
  unfolding scan_def
  by (auto intro!: keeps_and_then keeps_rules chain_id registry_constants head_keeps reorg_keeps
      find_start_keeps scan_logs_keeps)

end

end
