(* ===== verification/Node_Lifetime.thy ===== *)
theory Node_Lifetime
  imports Node_Composition Supervisor_Invariants Provider_Invariants
begin

text \<open>
  The supervisor over the parts that \<open>run\<close> of \<open>crates/resurrect-node/src/main.rs\<close> joins, and what
  holds as long as the node lives, in every world it reaches, whether or not it ever returns:
  whom it dials, that its cache stays readable, and what its counters count.
\<close>

section \<open>The status file on the disk\<close>

text \<open>\<open>tokio::fs::write\<close>: a failure may be one to open the file, or leave a part of the contents.\<close>

definition disk_write :: "string \<Rightarrow> bytes \<Rightarrow> (disk, io_error, unit) proc" where
  "disk_write path b d =
     (case tick d of
        (None, v) \<Rightarrow> (Inr (), v\<lparr> dk_files := (dk_files v)(path \<mapsto> b) \<rparr>)
      | (Some n, v) \<Rightarrow>
          (Inl OtherIo, if n = 0 then v else v\<lparr> dk_files := (dk_files v)(path \<mapsto> take (n - 1) b) \<rparr>))"

definition disk_rename :: "string \<Rightarrow> string \<Rightarrow> (disk, io_error, unit) proc" where
  "disk_rename old new d =
     (case tick d of
        (Some n, v) \<Rightarrow> (Inl OtherIo, v)
      | (None, v) \<Rightarrow>
          (case dk_files v old of
             None \<Rightarrow> (Inl NotFound, v)
           | Some b \<Rightarrow> (Inr (), if old = new then v
               else v\<lparr> dk_files := (dk_files v)(new \<mapsto> b, old := None) \<rparr>)))"

definition on_disk ::
  "(io_error \<Rightarrow> string) \<Rightarrow> (disk, io_error, 'a) proc \<Rightarrow> (('c, 'h) node_world, string, 'a) proc"
where
  "on_disk io_text m w = (case m (nw_disk w) of (r, d) \<Rightarrow> (map_err io_text r, w\<lparr> nw_disk := d \<rparr>))"

section \<open>The supervised node\<close>

definition node_supervisor_env ::
  "(bytes \<Rightarrow> b256) \<Rightarrow> multiaddr_lib \<Rightarrow> ('pk, 'sk) libp2p_lib \<Rightarrow> node_texts \<Rightarrow> (io_error \<Rightarrow> string) \<Rightarrow> 'h host_ops \<Rightarrow>
   ('c, 'sk) node_setup \<Rightarrow> (('c, 'h) node_world \<Rightarrow> bool) \<Rightarrow> ('c, 'h) node_world supervisor_env"
where
  "node_supervisor_env keccak mlib lib texts io_text ops setup gone =
     \<lparr> se_bootstrap = node_env keccak mlib lib texts ops setup,
       se_telemetry = (\<lambda>w. (snapshot (nw_telemetry w), w)),
       se_unix_time = on_host (\<lambda>h. case ho_clock ops h of (clock, h') \<Rightarrow> (status_unix_time clock, h')),
       se_random = on_host (ho_random ops), se_wait = (\<lambda>d. on_host (ho_wait ops d)),
       se_files =
         \<lparr> fs_create_dir_all = (\<lambda>p. on_disk io_text (create_dir_all p)),
           fs_write = (\<lambda>p b. on_disk io_text (disk_write p b)),
           fs_rename = (\<lambda>p q. on_disk io_text (disk_rename p q)) \<rparr>,
       se_gone = gone \<rparr>"

definition node_supervisor :: "host_text \<Rightarrow> path_lib \<Rightarrow> cli \<Rightarrow> ('c, 'sk) node_setup \<Rightarrow> supervisor" where
  "node_supervisor text paths cli setup =
     new_supervisor (nd_namespace (cf_descriptor setup)) (ht_peer text (cf_local_peer setup))
       (cf_supervisor_policy setup) (cli_status_file cli) paths"

section \<open>Whom a living node dials\<close>

lemma configured_parts:
  assumes "configure libs fresh cli d = (Inr setup, e)"
    and "policy = (if cli_allow_private_endpoints cli then local_testing else default_endpoint_policy)"
  shows "build_codecs libs (cf_descriptor setup) policy = Inr (cf_codecs setup)"
    and "cf_cache setup = open_cache (cf_codecs setup) (nd_accepted_record_types (cf_descriptor setup)) NativeServer
       DEFAULT_MAX_ACTIVE_CANDIDATES"
    and "sc_dial_context (cf_scanner setup) = NativeServer"
    and "sc_max_endpoints_per_record (cf_scanner setup) = DEFAULT_MAX_ENDPOINTS_PER_RECORD"
proof -
  from configure_Inr [OF assms(1)] obtain descriptor codecs identity provider listen peers advertised
    where "build_codecs libs descriptor policy = Inr codecs"
    and "setup = node_setup_of cli descriptor codecs identity
           (lp_peer_of_key (nl_libp2p libs) (lp_public (nl_libp2p libs) identity)) provider listen peers advertised"
    using assms(2) by metis
  then show "build_codecs libs (cf_descriptor setup) policy = Inr (cf_codecs setup)"
    "cf_cache setup = open_cache (cf_codecs setup) (nd_accepted_record_types (cf_descriptor setup)) NativeServer
       DEFAULT_MAX_ACTIVE_CANDIDATES"
    "sc_dial_context (cf_scanner setup) = NativeServer"
    "sc_max_endpoints_per_record (cf_scanner setup) = DEFAULT_MAX_ENDPOINTS_PER_RECORD"
    by (simp_all add: node_setup_defs default_scanner_config_def)
qed

text \<open>Every answer of the node's cache and registry, in any of its worlds, is verified.\<close>

lemma node_answers_verified:
  assumes "configure libs fresh cli d = (Inr setup, e)"
    and "policy = (if cli_allow_private_endpoints cli then local_testing else default_endpoint_policy)"
    and "answer_of (node_env keccak mlib lib texts ops setup) (DiscoveredCache ns c) \<or>
         answer_of (node_env keccak mlib lib texts ops setup) (DiscoveredRegistry ns c)"
    and "p \<in> set (candidates_of c)"
  shows "verified (nl_multiaddr libs) policy (cf_codecs setup) (nd_accepted_record_types (cf_descriptor setup)) p"
proof -
  note parts = configured_parts [OF assms(1,2)]
  from assms(3) have "(\<exists>w. c = fst (node_cache_discover keccak ops setup ns w)) \<or>
      (\<exists>w. c = fst (node_registry_discover keccak texts ops setup ns w))"
    by (simp add: answer_of_def node_env_def)
  then show ?thesis
    using assms(4) cache_answers_verified [OF parts(1,2)] registry_answers_verified [OF parts(1,3,4)] by blast
qed

lemma node_life_verified:
  assumes "configure libs fresh cli d = (Inr setup, e)"
    and "policy = (if cli_allow_private_endpoints cli then local_testing else default_endpoint_policy)"
    and "reaches (observed_supervisor (node_supervisor_env keccak mlib lib texts io_text ops setup gone))
           (node_supervisor text paths cli setup) (w, []) (v, events)"
    and "verifies = verified (nl_multiaddr libs) policy (cf_codecs setup)
           (nd_accepted_record_types (cf_descriptor setup))"
  shows "(\<forall>p t. Cycle (DialStarted p t) \<in> set events \<longrightarrow> verifies p \<or>
       (\<exists>ns c. Cycle (DiscoveredNative ns c) \<in> set events \<and> p \<in> set (candidates_of c))) \<and>
    (\<forall>p. Cycle (AddVerified p) \<in> set events \<longrightarrow> verifies p)"
proof -
  let ?env = "node_supervisor_env keccak mlib lib texts io_text ops setup gone"
  have "answers_only (se_bootstrap ?env) (v, events)"
    using answering.reaches_holds [OF assms(3)] by (simp add: answers_only_def)
  then have ok: "verifies p" if "Cycle (DiscoveredCache ns c) \<in> set events \<or> Cycle (DiscoveredRegistry ns c) \<in> set events"
      "p \<in> set (candidates_of c)" for p ns c
    using that node_answers_verified [OF assms(1,2) _ that(2), of keccak mlib lib texts ops ns]
    by (auto simp: answers_only_def node_supervisor_env_def assms(4))
  from reaches_dials_offered [OF assms(3)] ok show ?thesis
    unfolding dials_offered_def offered_in_def by blast
qed

section \<open>The cache stays readable\<close>

text \<open>A row as the schema means it: the numbers of a candidate, in the columns' range.\<close>

definition row_typed :: "cache_row \<Rightarrow> bool" where
  "row_typed row \<longleftrightarrow>
     0 \<le> cr_record_type row \<and> cr_record_type row < 2 ^ 32 \<and>
     0 \<le> cr_sequence row \<and> cr_sequence row < 2 ^ 63 \<and> 0 \<le> cr_expires_at row \<and> cr_expires_at row < 2 ^ 63 \<and>
     0 \<le> coalesce0 (cr_announcement_block row) \<and> coalesce0 (cr_announcement_block row) < 2 ^ 63 \<and>
     0 \<le> coalesce0 (cr_announcement_log_index row) \<and> coalesce0 (cr_announcement_log_index row) < 2 ^ 63"

definition cache_typed :: "cache_db \<Rightarrow> bool" where
  "cache_typed db \<longleftrightarrow> cache_ok db \<and> (\<forall>row \<in> set db. row_typed row)"

lemma to_i64_range:
  assumes "to_i64 v f = Inr x"
  shows "0 \<le> x \<and> x < 2 ^ 63"
proof -
  from assms have "unat v < 2 ^ 63" and x: "x = uint v" unfolding to_i64_Inr_iff by (rule conjunct1, rule conjunct2)
  then have "int (unat v) < int (2 ^ 63)" by (subst of_nat_less_iff)
  then show ?thesis unfolding x by simp
qed

lemma to_i64_option_range:
  assumes "to_i64_option v f = Inr x"
  shows "0 \<le> coalesce0 x \<and> coalesce0 x < 2 ^ 63"
proof (cases v)
  case None
  with assms show ?thesis by (simp add: to_i64_option_def coalesce0_def)
next
  case (Some n)
  with assms obtain y where "to_i64 n f = Inr y" "x = Some y"
    by (cases "to_i64 n f") (simp_all add: to_i64_option_def)
  then show ?thesis using to_i64_range [of n f y] by (simp add: coalesce0_def)
qed

lemma candidate_row_typed:
  assumes "candidate_row ns c = Inr row"
  shows "row_typed row"
proof -
  have t: "uint (pc_record_type c) < 2 ^ 32" using uint_lt2p [of "pc_record_type c"] by simp
  from assms obtain x1 x2 x3 x4 where r:
    "to_i64 (pc_sequence c) ''sequence'' = Inr x1" "to_i64 (pc_expires_at c) ''expires_at'' = Inr x2"
    "to_i64_option (pc_announcement_block c) ''announcement_block'' = Inr x3"
    "to_i64_option (pc_announcement_log_index c) ''announcement_log_index'' = Inr x4"
    "cr_record_type row = uint (pc_record_type c)" "cr_sequence row = x1" "cr_expires_at row = x2"
    "cr_announcement_block row = x3" "cr_announcement_log_index row = x4"
    by (auto simp: candidate_row_def res_bind_Inr_iff)
  then show ?thesis
    using t to_i64_range [OF r(1)] to_i64_range [OF r(2)] to_i64_option_range [OF r(3)] to_i64_option_range [OF r(4)]
    by (simp add: row_typed_def)
qed

lemma upsert_rows: "set (upsert row db) \<subseteq> insert row (set db)"
  by (induction db) auto

lemma upsert_typed: "cache_typed db \<Longrightarrow> row_typed row \<Longrightarrow> cache_typed (upsert row db)"
  using upsert_rows [of row db] by (auto simp: cache_typed_def upsert_ok)

lemma store_rows_typed: "store_rows ns cs db = Inr db' \<Longrightarrow> cache_typed db \<Longrightarrow> cache_typed db'"
  by (induction cs arbitrary: db) (auto simp: res_bind_Inr_iff dest: candidate_row_typed intro: upsert_typed)

lemma store_verified_typed: "cache_typed db \<Longrightarrow> cache_typed (snd (store_verified ns cs db))"
  by (auto simp: store_verified_def dest: store_rows_typed split: namespace.split sum.split)

lemma prune_typed: "cache_typed db \<Longrightarrow> cache_typed (snd (prune_expired clock db))"
  by (auto simp: prune_expired_def cache_typed_def cache_ok_def distinct_map inj_on_def Let_def split: sum.split)

lemma on_database_typed:
  assumes "cache_typed db" and "cache_typed (snd (m db))"
  shows "cache_typed (snd (on_database fault m db))"
  using assms by (auto simp: on_database_def split: option.split prod.split bool.split sum.split)

lemma read_row_typed: "row_typed row \<Longrightarrow> \<exists>r. read_row row = Inr r"
  by (auto simp: read_row_def row_typed_def optional_u64_def coalesce0_def split: option.splits)

lemma traverse_total: "(\<And>x. x \<in> set xs \<Longrightarrow> \<exists>y. f x = Inr y) \<Longrightarrow> \<exists>ys. traverse f xs = Inr ys"
proof (induction xs)
  case (Cons x xs)
  then obtain y ys where "f x = Inr y" "traverse f xs = Inr ys" by force
  then show ?case by simp
qed simp

lemma load_typed:
  assumes "cache_typed db"
  shows "\<exists>peers. load keccak cache (Inr now) ns db = Inr peers"
proof (cases ns)
  case (Namespace k)
  have "\<exists>rows. load_rows k db = Inr rows"
    unfolding load_rows_def using assms by (intro traverse_total) (auto simp: cache_typed_def intro: read_row_typed)
  then show ?thesis by (auto simp: load_def Namespace)
qed

text \<open>Operations behind \<open>beside_cache\<close> leave the cache alone, and so does a scan.\<close>

interpretation cache_aside: provider_invariant "beside_cache P" "\<lambda>(db', c). db' = db" for P and db :: cache_db
  by unfold_locales (auto simp: keeps_def beside_cache_def on_snd_def split: prod.splits)

lemma registry_discover_cache:
  fixes db :: cache_db
  assumes "registry_discover keccak (beside_cache P) d codecs config node (Some (\<lambda>ns peers. on_fst (store ns peers)))
      texts ns ((db, c), s) = (r, ((db', c'), s'))"
  shows "db' = db \<or> (\<exists>peers. r = Inr peers \<and> db' = snd (store ns peers db))"
proof -
  obtain a db1 c1 where a: "scan keccak (beside_cache P) codecs config d node (dv_checkpoint s) (db, c) = (a, (db1, c1))"
    by (metis prod.collapse)
  have "db1 = db"
    using keepsD [OF cache_aside.scan_keeps, of db "(db, c)" keccak P codecs config d node "dv_checkpoint s"] a by simp
  with assms a show ?thesis
    by (auto simp: registry_discover_def Let_def on_fst_def split: if_splits sum.splits prod.splits)
qed

text \<open>What every operation of the supervised node does to the cache.\<close>

lemma node_registry_cache:
  "nw_cache (snd (node_registry_discover keccak texts ops setup ns w)) \<in>
     {nw_cache w} \<union> {snd (on_database fault (store_verified ns peers) (nw_cache w)) | fault peers. True}"
proof -
  obtain fault h where f: "ho_database_fault ops (nw_host w) = (fault, h)" by fastforce
  let ?s = "\<lparr> dv_checkpoint = nw_checkpoint w, dv_telemetry = nw_telemetry w \<rparr>"
  obtain r db c s where r: "registry_discover keccak (beside_cache (cf_provider setup)) (cf_descriptor setup) (cf_codecs setup)
             (cf_scanner setup) (cf_local_peer setup)
             (Some (\<lambda>ns peers. on_fst (on_database fault (store_verified ns peers)))) (nt_scan texts) ns
             ((nw_cache w, nw_chain w), ?s) = (r, ((db, c), s))" by (metis prod.collapse)
  from registry_discover_cache [OF r] f r show ?thesis
    by (auto simp: node_registry_discover_def)
qed

text \<open>The state that the operations of the supervised node touch, apart from the host and the disk.\<close>

lemmas node_ops = node_supervisor_env_def node_env_def on_host_def on_disk_def ask_announcer_def

lemma node_announce_cache: "nw_cache (snd (node_announce mlib lib texts ops setup d w)) = nw_cache w"
  by (simp add: node_announce_def split_beta)

lemma node_cache_discover_cache:
  "cache_typed (nw_cache w) \<Longrightarrow> cache_typed (nw_cache (snd (node_cache_discover keccak ops setup ns w)))"
  by (simp add: node_cache_discover_def split_beta on_database_typed)

lemma node_registry_typed:
  "cache_typed (nw_cache w) \<Longrightarrow> cache_typed (nw_cache (snd (node_registry_discover keccak texts ops setup ns w)))"
proof -
  assume w: "cache_typed (nw_cache w)"
  have "cache_typed (snd (on_database f (store_verified ns ps) (nw_cache w)))" for f ps
    by (intro on_database_typed store_verified_typed w)
  with w node_registry_cache [of keccak texts ops "setup" ns w] show ?thesis by auto
qed

interpretation cache_keeping: supervisor_invariant "node_supervisor_env keccak mlib lib texts io_text ops cfg gone"
  "\<lambda>w. cache_typed (nw_cache w)"
  for keccak mlib lib texts io_text and ops :: "'h host_ops" and cfg :: "('c, 'sk) node_setup"
  by unfold_locales
    (simp_all add: node_ops split_beta node_announce_cache node_cache_discover_cache node_registry_typed)

section \<open>What the counters count\<close>

definition scans_done :: "supervisor_event list \<Rightarrow> nat" where
  "scans_done es = length [e \<leftarrow> es. case e of Cycle (DiscoveredRegistry ns (Inr peers)) \<Rightarrow> True | _ \<Rightarrow> False]"

definition scans_failed :: "namespace \<Rightarrow> supervisor_event list \<Rightarrow> nat" where
  "scans_failed ns es =
     length [e \<leftarrow> es. case e of Cycle (DiscoveredRegistry m (Inl error)) \<Rightarrow> m = ns | _ \<Rightarrow> False]"

definition announcements_made :: "supervisor_event list \<Rightarrow> nat" where
  "announcements_made es = length [e \<leftarrow> es. case e of Cycle (Announced ttl (Inr u)) \<Rightarrow> True | _ \<Rightarrow> False]"

definition counted :: "('c, 'sk) node_setup \<Rightarrow> ('c, 'h) node_world \<times> supervisor_event list \<Rightarrow> bool" where
  "counted setup = (\<lambda>(w, es).
     rt_scans (nw_telemetry w) = word_of_nat (scans_done es) \<and>
     rt_scan_failures (nw_telemetry w) = word_of_nat (scans_failed (nd_namespace (cf_descriptor setup)) es) \<and>
     rt_announcements (nw_telemetry w) =
       (if ac_eligible (cf_announcer setup) then word_of_nat (announcements_made es) else 0))"

lemma counts_snoc [simp]:
  "scans_done (es @ [Cycle (DiscoveredRegistry m c)]) = scans_done es + (case c of Inr _ \<Rightarrow> 1 | Inl _ \<Rightarrow> 0)"
  "scans_failed ns (es @ [Cycle (DiscoveredRegistry m c)]) =
     scans_failed ns es + (case c of Inl _ \<Rightarrow> if m = ns then 1 else 0 | Inr _ \<Rightarrow> 0)"
  "announcements_made (es @ [Cycle (DiscoveredRegistry m c)]) = announcements_made es"
  "scans_done (es @ [Cycle (Announced t a)]) = scans_done es"
  "scans_failed ns (es @ [Cycle (Announced t a)]) = scans_failed ns es"
  "announcements_made (es @ [Cycle (Announced t a)]) = announcements_made es + (case a of Inr _ \<Rightarrow> 1 | Inl _ \<Rightarrow> 0)"
  by (simp_all add: scans_done_def scans_failed_def announcements_made_def split: sum.split)

lemmas count_defs = scans_done_def scans_failed_def announcements_made_def

lemma counted_registry:
  assumes "counted setup (w, es)"
  shows "counted setup (snd (node_registry_discover keccak texts ops setup ns w),
    es @ [Cycle (DiscoveredRegistry ns (fst (node_registry_discover keccak texts ops setup ns w)))])"
proof -
  obtain r v where rv: "node_registry_discover keccak texts ops setup ns w = (r, v)" by fastforce
  let ?s = "\<lparr> dv_checkpoint = nw_checkpoint w, dv_telemetry = nw_telemetry w \<rparr>"
  obtain fault h where f: "ho_database_fault ops (nw_host w) = (fault, h)" by fastforce
  obtain db c s where d: "registry_discover keccak (beside_cache (cf_provider setup)) (cf_descriptor setup)
      (cf_codecs setup) (cf_scanner setup) (cf_local_peer setup)
      (Some (\<lambda>ns peers. on_fst (on_database fault (store_verified ns peers)))) (nt_scan texts) ns
      ((nw_cache w, nw_chain w), ?s) = (r, ((db, c), s))" and v: "nw_telemetry v = dv_telemetry s"
    using rv f by (auto simp: node_registry_discover_def split: prod.splits)
  from d show ?thesis
    unfolding rv using assms by (auto simp: registry_discover_def counted_def count_scan_def v Let_def
        split: if_splits sum.splits prod.splits)
qed

lemma counted_announce:
  assumes "counted setup (w, es)"
  shows "counted setup (snd (node_announce mlib lib texts ops setup ttl w),
    es @ [Cycle (Announced ttl (fst (node_announce mlib lib texts ops setup ttl w)))])"
proof -
  obtain r v where rv: "node_announce mlib lib texts ops setup ttl w = (r, v)" by fastforce
  let ?s = "(nw_announcer w)\<lparr> na_telemetry := nw_telemetry w \<rparr>"
  obtain clock h1 where c: "ho_clock ops (nw_host w) = (clock, h1)" by fastforce
  obtain pick h2 where p: "ho_random ops h1 = (pick, h2)" by fastforce
  obtain u s where a: "announce mlib lib (nt_announce texts) (cf_provider setup) (cf_announcer setup) (unix_time clock)
      pick ttl (nw_chain w, ?s) = (r, (u, s))" and v: "nw_telemetry v = na_telemetry s"
    using rv c p by (auto simp: node_announce_def split: prod.splits)
  from a assms show ?thesis
    unfolding rv by (auto simp: announce_def counted_def v Let_def split: if_splits sum.splits prod.splits)
qed

lemma counted_host [simp]:
  "counted setup (w\<lparr> nw_host := h \<rparr>, es) = counted setup (w, es)"
  "counted setup (w\<lparr> nw_disk := d \<rparr>, es) = counted setup (w, es)"
  "counted setup (snd (node_cache_discover keccak ops setup ns w), es) = counted setup (w, es)"
  by (simp_all add: counted_def node_cache_discover_def split_beta)

definition counts :: "supervisor_event \<Rightarrow> bool" where
  "counts e = (case e of Cycle (DiscoveredRegistry _ _) \<Rightarrow> True | Cycle (Announced _ _) \<Rightarrow> True | _ \<Rightarrow> False)"

lemma counted_snoc [simp]:
  assumes "\<not> counts e"
  shows "counted setup (w, es @ [e]) = counted setup (w, es)"
proof (cases e)
  case (Cycle c)
  with assms show ?thesis by (cases c) (simp_all add: counted_def count_defs counts_def)
qed (simp_all add: counted_def count_defs)

lemma counts_simps [simp]:
  "\<not> counts (File f)" "\<not> counts (Waited d b)" "\<not> counts (Cycle (DiscoveredCache ns c))"
  "\<not> counts (Cycle (DiscoveredNative ns c))" "\<not> counts (Cycle (AddVerified p))" "\<not> counts (Cycle (SawConnected n))"
  "\<not> counts (Cycle (DialStarted p t))" "\<not> counts (Cycle (DialFinished p))" "\<not> counts (Cycle (DialsDropped ps))"
  "\<not> counts (Cycle (SawEligible b))" "\<not> counts (Cycle (SawRenewalDue b))"
  by (simp_all add: counts_def)

interpretation counting: supervisor_invariant
  "observed_supervisor (node_supervisor_env keccak mlib lib texts io_text ops cfg gone)" "counted cfg"
  for keccak mlib lib texts io_text and ops :: "'h host_ops" and cfg :: "('c, 'sk) node_setup"
  by unfold_locales
    (auto simp: logged_env_def recorded_eq observed_files_def logged_eq node_ops split_beta
      counted_registry counted_announce)

end
