(* ===== verification/Node_Live.thy ===== *)
theory Node_Live
  imports Node_P2p Bootstrap_Answers "HOL-Library.Sublist"
begin

text \<open>
  The host of \<open>crates/resurrect-node/src/p2p.rs\<close> at work: the event loop of Node_P2p on its own
  task, the command channel between it and the handle, and the calls of the handle that wait.
  What happens outside and when tasks run is a list of happenings, consumed by whatever waits
  or looks; every interleaving of loop and callers is one such list. When it runs out, timers
  elapse, the loop works off its channel, and the interrupt signal arrives.
\<close>

section \<open>The state\<close>

datatype happening =
    SwarmReports swarm_event
  | LoopTakes "peer_id \<Rightarrow> multiaddr list \<Rightarrow> string + unit"
  | ClockReads "duration option"
  | is_pause: Pause
  | DialReturns nat
  | DialExpires nat bool
  | is_time_up: TimeUp
  | is_interrupt: CtrlC

record ('pk, 'sk) live_libs =
  ll_multiaddr :: multiaddr_lib
  ll_libp2p :: "('pk, 'sk) libp2p_lib"
  ll_text :: host_text

text \<open>
  The channel holds the commands sent and not yet taken; those beyond its capacity are still
  waiting to be sent, in the order in which they will be. \<open>lv_flying\<close> are the senders of the
  \<open>connect\<close> calls that have not returned, oldest first; \<open>lv_taken\<close> is what the loop did so far,
  and \<open>lv_withdrawn\<close> the senders whose call was dropped before it could send. The handler of
  the interrupt signal is in place (\<open>lv_armed\<close>) from the first wait of the supervisor on, which
  polls it first; an interrupt before that kills the process.
\<close>

record live_host =
  lv_loop :: event_loop
  lv_taken :: "host_input list"
  lv_channel :: "command list"
  lv_flying :: "sender list"
  lv_withdrawn :: "sender list"
  lv_next_sender :: sender
  lv_clock :: "duration option"
  lv_random :: "nat list"
  lv_armed :: bool
  lv_signalled :: bool
  lv_killed :: bool
  lv_future :: "happening list"

definition COMMAND_CAPACITY :: nat where
  "COMMAND_CAPACITY = 64"

definition new_live_host :: "event_loop \<Rightarrow> duration option \<Rightarrow> nat list \<Rightarrow> happening list \<Rightarrow> live_host" where
  "new_live_host loop clock random future =
     \<lparr> lv_loop = loop, lv_taken = [], lv_channel = [], lv_flying = [], lv_withdrawn = [], lv_next_sender = 0,
       lv_clock = clock, lv_random = random, lv_armed = False, lv_signalled = False, lv_killed = False,
       lv_future = future \<rparr>"

section \<open>The loop's side\<close>

definition feed :: "('pk, 'sk) live_libs \<Rightarrow> host_input \<Rightarrow> live_host \<Rightarrow> live_host" where
  "feed L i h =
     h\<lparr> lv_loop := host_step (ll_multiaddr L) (ll_libp2p L) (ll_text L) i (lv_loop h),
        lv_taken := lv_taken h @ [i] \<rparr>"

definition idle_env :: host_env where
  "idle_env = \<lparr> he_dial = (\<lambda>_ _. Inl ''no swarm''), he_is_closed = (\<lambda>_. False) \<rparr>"

text \<open>A caller listens for its answer while its \<open>connect\<close> is in flight.\<close>

definition swarm_env :: "(peer_id \<Rightarrow> multiaddr list \<Rightarrow> string + unit) \<Rightarrow> live_host \<Rightarrow> host_env" where
  "swarm_env swarm h = \<lparr> he_dial = swarm, he_is_closed = (\<lambda>w. w \<notin> set (lv_flying h)) \<rparr>"

text \<open>A loop that ends drops the receiving half, and with it the commands in the channel.\<close>

definition close_channel :: "('pk, 'sk) live_libs \<Rightarrow> live_host \<Rightarrow> live_host" where
  "close_channel L h =
     fold (\<lambda>c. feed L (HostCommand c idle_env)) (lv_channel h) (h\<lparr> lv_channel := [] \<rparr>)"

definition take_command ::
  "('pk, 'sk) live_libs \<Rightarrow> (peer_id \<Rightarrow> multiaddr list \<Rightarrow> string + unit) \<Rightarrow> live_host \<Rightarrow> live_host"
where
  "take_command L swarm h =
     (case lv_channel h of
        [] \<Rightarrow> h
      | c # cs \<Rightarrow>
          let h' = feed L (HostCommand c (swarm_env swarm h)) (h\<lparr> lv_channel := cs \<rparr>)
          in if el_running (lv_loop h') then h' else close_channel L h')"

fun happens :: "('pk, 'sk) live_libs \<Rightarrow> happening \<Rightarrow> live_host \<Rightarrow> live_host" where
  "happens L (SwarmReports ev) h = feed L (HostSwarm ev) h"
| "happens L (LoopTakes swarm) h = take_command L swarm h"
| "happens L (ClockReads clock) h = h\<lparr> lv_clock := clock \<rparr>"
| "happens L CtrlC h = (if lv_armed h then h\<lparr> lv_signalled := True \<rparr> else h\<lparr> lv_killed := True \<rparr>)"
| "happens L Pause h = h"
| "happens L (DialReturns k) h = h"
| "happens L (DialExpires k own) h = h"
| "happens L TimeUp h = h"

text \<open>
  Waiting: things happen until the first after which the condition holds. Looking: what the loop
  did since the last look is done, up to a pause.
\<close>

fun await ::
  "('pk, 'sk) live_libs \<Rightarrow> (happening \<Rightarrow> live_host \<Rightarrow> bool) \<Rightarrow> happening list \<Rightarrow> live_host \<Rightarrow>
   happening option \<times> live_host"
where
  "await L ready [] h = (None, h\<lparr> lv_future := [] \<rparr>)"
| "await L ready (x # xs) h =
     (let h' = happens L x h
      in if ready x h' then (Some x, h'\<lparr> lv_future := xs \<rparr>) else await L ready xs h')"

fun in_background :: "happening \<Rightarrow> bool" where
  "in_background (SwarmReports ev) = True"
| "in_background (LoopTakes swarm) = True"
| "in_background (ClockReads clock) = True"
| "in_background x = False"

fun drift :: "('pk, 'sk) live_libs \<Rightarrow> happening list \<Rightarrow> live_host \<Rightarrow> live_host" where
  "drift L [] h = h\<lparr> lv_future := [] \<rparr>"
| "drift L (x # xs) h =
     (if in_background x then drift L xs (happens L x h)
      else h\<lparr> lv_future := (if is_pause x then xs else x # xs) \<rparr>)"

definition look :: "('pk, 'sk) live_libs \<Rightarrow> live_host \<Rightarrow> live_host" where
  "look L h = drift L (lv_future h) h"

primrec work_off :: "('pk, 'sk) live_libs \<Rightarrow> nat \<Rightarrow> live_host \<Rightarrow> live_host" where
  "work_off L 0 h = h"
| "work_off L (Suc n) h = work_off L n (take_command L (\<lambda>_ _. Inl ''no swarm'') h)"

section \<open>The handle's side\<close>

text \<open>A command sent to a loop that has ended comes back, and its sender is dropped.\<close>

definition live_send :: "('pk, 'sk) live_libs \<Rightarrow> command \<Rightarrow> live_host \<Rightarrow> bool \<times> live_host" where
  "live_send L c h =
     (if el_running (lv_loop h) then (True, h\<lparr> lv_channel := lv_channel h @ [c] \<rparr>)
      else (False, feed L (HostCommand c idle_env) h))"

definition new_sender :: "live_host \<Rightarrow> sender \<times> live_host" where
  "new_sender h = (lv_next_sender h, h\<lparr> lv_next_sender := Suc (lv_next_sender h) \<rparr>)"

fun reply_to :: "sender \<Rightarrow> host_reply dial_effect list \<Rightarrow> host_reply option" where
  "reply_to w [] = None"
| "reply_to w (e # es) =
     (case e of Answered v a \<Rightarrow> if v = w then Some a else reply_to w es | _ \<Rightarrow> reply_to w es)"

definition has_settled :: "sender \<Rightarrow> live_host \<Rightarrow> bool" where
  "has_settled w h \<longleftrightarrow> w \<in> set (settled (el_log (lv_loop h)))"

definition await_reply :: "('pk, 'sk) live_libs \<Rightarrow> sender \<Rightarrow> live_host \<Rightarrow> host_reply option \<times> live_host" where
  "await_reply L w h =
     (let h1 = (if has_settled w h then h
                else case await L (\<lambda>_. has_settled w) (lv_future h) h of
                    (Some _, v) \<Rightarrow> v
                  | (None, v) \<Rightarrow> work_off L (length (lv_channel v)) v)
      in (reply_to w (el_log (lv_loop h1)), h1))"

text \<open>\<open>connect\<close>, up to where it first waits.\<close>

definition live_connect :: "('pk, 'sk) live_libs \<Rightarrow> peer_candidate \<Rightarrow> live_host \<Rightarrow> live_host" where
  "live_connect L peer h =
     (let w = lv_next_sender h
      in snd (live_send L (CmdDial peer w) (snd (new_sender (h\<lparr> lv_flying := lv_flying h @ [w] \<rparr>)))))"

text \<open>Dropping a call that still waits to send its command takes the command back.\<close>

definition unsend :: "sender \<Rightarrow> live_host \<Rightarrow> live_host" where
  "unsend w h =
     h\<lparr> lv_channel := take COMMAND_CAPACITY (lv_channel h) @
          filter (\<lambda>c. command_senders c \<noteq> [w]) (drop COMMAND_CAPACITY (lv_channel h)),
        lv_withdrawn := lv_withdrawn h @ concat (map command_senders
          (filter (\<lambda>c. command_senders c = [w]) (drop COMMAND_CAPACITY (lv_channel h)))) \<rparr>"

text \<open>
  The \<open>k\<close>-th call in flight ends because its time is up. The caller of \<open>connect\<close> has a timeout
  of the same length around it, started earlier: either \<open>connect\<close> notices first and sends
  the command that prunes its waiter, which it can once its own was sent and while the channel
  has room, or it is dropped.
\<close>

definition end_dial :: "nat \<Rightarrow> live_host \<Rightarrow> live_host" where
  "end_dial k h = h\<lparr> lv_flying := remove_nth k (lv_flying h) \<rparr>"

definition expire_dial :: "('pk, 'sk) live_libs \<Rightarrow> nat \<Rightarrow> bool \<Rightarrow> live_host \<Rightarrow> live_host" where
  "expire_dial L k own h =
     (let h1 = end_dial k h
      in if length (lv_flying h) \<le> k then h
         else if own \<and> length (lv_channel h) < COMMAND_CAPACITY
         then fold (\<lambda>c v. snd (live_send L c v)) (snd (host_connect True None)) h1
         else unsend (lv_flying h ! k) h1)"

fun dial_ends :: "happening \<Rightarrow> live_host \<Rightarrow> bool" where
  "dial_ends (DialReturns k) h \<longleftrightarrow> k < length (lv_flying h) \<and> has_settled (lv_flying h ! k) h"
| "dial_ends (DialExpires k own) h \<longleftrightarrow> k < length (lv_flying h)"
| "dial_ends x h \<longleftrightarrow> False"

definition live_next_dial :: "('pk, 'sk) live_libs \<Rightarrow> live_host \<Rightarrow> nat \<times> live_host" where
  "live_next_dial L h =
     (case await L dial_ends (lv_future h) h of
        (Some (DialReturns k), v) \<Rightarrow> (k, end_dial k v)
      | (Some (DialExpires k own), v) \<Rightarrow> (k, expire_dial L k own v)
      | (_, v) \<Rightarrow> (0, expire_dial L 0 False v))"

definition live_drop_dials :: "live_host \<Rightarrow> live_host" where
  "live_drop_dials h = (fold unsend (lv_flying h) h)\<lparr> lv_flying := [] \<rparr>"

definition live_connected_peers :: "('pk, 'sk) live_libs \<Rightarrow> live_host \<Rightarrow> nat \<times> live_host" where
  "live_connected_peers L h = (let v = look L h in (host_connected_peers (lv_loop v), v))"

definition sleep :: "('pk, 'sk) live_libs \<Rightarrow> live_host \<Rightarrow> live_host" where
  "sleep L h = snd (await L (\<lambda>x _. is_time_up x) (lv_future h) h)"

text \<open>\<open>NativePeerSource::discover\<close>: the observation window, then a question to the loop.\<close>

definition live_native_discover ::
  "('pk, 'sk) live_libs \<Rightarrow> namespace \<Rightarrow> (live_host, bootstrap_error, peer_candidate list) proc"
where
  "live_native_discover L ns h =
     (case new_sender (sleep L h) of (w, h1) \<Rightarrow>
      case live_send L (CmdNativeCandidates w) h1 of
        (False, h2) \<Rightarrow> (native_discover (request_native False None), h2)
      | (True, h2) \<Rightarrow>
          (case await_reply L w h2 of (answer, h3) \<Rightarrow>
             (native_discover (request_native True
                (case answer of Some (NativeReply peers) \<Rightarrow> Some peers | _ \<Rightarrow> None)), h3)))"

definition live_add_verified_peer ::
  "('pk, 'sk) live_libs \<Rightarrow> peer_candidate \<Rightarrow> (live_host, bootstrap_error, unit) proc"
where
  "live_add_verified_peer L peer h =
     (case live_send L (CmdAddVerified peer) (look L h) of (sent, v) \<Rightarrow> (add_verified_peer sent, v))"

definition live_wait_for_listener :: "('pk, 'sk) live_libs \<Rightarrow> (live_host, host_error, host_status) proc" where
  "live_wait_for_listener L h =
     (let listening = (\<lambda>v. hs_listen_addresses (el_status (lv_loop v)) \<noteq> []);
          v = (if listening h then h
               else snd (await L (\<lambda>x v. listening v \<or> \<not> el_running (lv_loop v) \<or> is_time_up x) (lv_future h) h))
      in (wait_for_listener (\<not> el_running (lv_loop v)) [el_status (lv_loop v)], v))"

text \<open>\<open>shutdown\<close> of the handle, and the wait for the task.\<close>

definition live_shutdown :: "('pk, 'sk) live_libs \<Rightarrow> live_host \<Rightarrow> live_host" where
  "live_shutdown L h =
     (case new_sender (look L h) of (w, h1) \<Rightarrow>
      case live_send L (CmdShutdown w) h1 of
        (False, h2) \<Rightarrow> h2
      | (True, h2) \<Rightarrow> snd (await_reply L w h2))"

text \<open>
  \<open>wait_or_shutdown\<close> of the supervisor over the interrupt signal, whose first poll puts the
  handler in place; and the clock.
\<close>

definition live_wait :: "('pk, 'sk) live_libs \<Rightarrow> live_host \<Rightarrow> bool \<times> live_host" where
  "live_wait L h =
     (if lv_signalled h then (True, h)
      else case await L (\<lambda>x _. is_time_up x \<or> is_interrupt x) (lv_future h) (h\<lparr> lv_armed := True \<rparr>) of
          (Some TimeUp, v) \<Rightarrow> (False, v)
        | (_, v) \<Rightarrow> (True, v\<lparr> lv_signalled := True \<rparr>))"

definition live_clock :: "('pk, 'sk) live_libs \<Rightarrow> live_host \<Rightarrow> duration option \<times> live_host" where
  "live_clock L h = (let v = look L h in (lv_clock v, v))"

definition live_random :: "live_host \<Rightarrow> nat \<times> live_host" where
  "live_random h = (case lv_random h of [] \<Rightarrow> (0, h) | n # ns \<Rightarrow> (n, h\<lparr> lv_random := ns \<rparr>))"


section \<open>What a live host can do\<close>

text \<open>
  The atomic changes of a live host, with the commands sent on the way: the invariants of the
  composition are proved once, over these.
\<close>

inductive live_moves :: "('pk, 'sk) live_libs \<Rightarrow> live_host \<Rightarrow> command list \<Rightarrow> live_host \<Rightarrow> bool" for L h where
  stays: "live_moves L h [] h"
| reported: "live_moves L h cs v \<Longrightarrow> live_moves L h cs (feed L (HostSwarm ev) v)"
| taken: "live_moves L h cs v \<Longrightarrow> lv_channel v = c # rest \<Longrightarrow>
    live_moves L h cs (feed L (HostCommand c env) (v\<lparr> lv_channel := rest \<rparr>))"
| sent: "live_moves L h cs v \<Longrightarrow> set (command_senders c) \<subseteq> {lv_next_sender v} \<Longrightarrow>
    live_moves L h (cs @ [c]) (v\<lparr> lv_channel := lv_channel v @ [c],
      lv_next_sender := lv_next_sender v + length (command_senders c) \<rparr>)"
| refused: "live_moves L h cs v \<Longrightarrow> set (command_senders c) \<subseteq> {lv_next_sender v} \<Longrightarrow>
    live_moves L h (cs @ [c]) (feed L (HostCommand c env)
      (v\<lparr> lv_next_sender := lv_next_sender v + length (command_senders c) \<rparr>))"
| unsent: "live_moves L h cs v \<Longrightarrow> set rest \<subseteq> set (lv_channel v) \<Longrightarrow>
    mset (concat (map command_senders rest)) + mset gone = mset (concat (map command_senders (lv_channel v))) \<Longrightarrow>
    live_moves L h cs (v\<lparr> lv_channel := rest, lv_withdrawn := lv_withdrawn v @ gone \<rparr>)"
| within: "live_moves L h cs v \<Longrightarrow>
    live_moves L h cs (v\<lparr> lv_flying := fl, lv_clock := clock, lv_random := random, lv_armed := armed,
      lv_signalled := signalled, lv_killed := killed, lv_future := future \<rparr>)"

lemma live_moves_trans:
  assumes "live_moves L v ds u" and "live_moves L h cs v"
  shows "live_moves L h (cs @ ds) u"
  using assms(1)
proof (induction rule: live_moves.induct)
  case (sent ds v c)
  then show ?case using live_moves.sent [OF sent.IH] by simp
next
  case (refused ds v c env)
  then show ?case using live_moves.refused [OF refused.IH] by simp
qed (use assms(2) in \<open>auto intro: live_moves.intros\<close>)

lemma live_moves_quiet: "live_moves L v [] u \<Longrightarrow> live_moves L h cs v \<Longrightarrow> live_moves L h cs u"
  using live_moves_trans [of L v "[]" u h cs] by simp

lemmas moved = live_moves_quiet live_moves.stays

lemma within_moves:
  "live_moves L h [] (h\<lparr> lv_flying := fl \<rparr>)" "live_moves L h [] (h\<lparr> lv_clock := clock \<rparr>)"
  "live_moves L h [] (h\<lparr> lv_random := random \<rparr>)" "live_moves L h [] (h\<lparr> lv_signalled := b \<rparr>)"
  "live_moves L h [] (h\<lparr> lv_future := future \<rparr>)" "live_moves L h [] (h\<lparr> lv_armed := b \<rparr>)"
  "live_moves L h [] (h\<lparr> lv_killed := b \<rparr>)"
proof -
  note w = live_moves.within [OF live_moves.stays, where L = L and h = h]
  show "live_moves L h [] (h\<lparr> lv_flying := fl \<rparr>)"
    using w [where fl = "fl" and clock = "lv_clock h" and random = "lv_random h" and armed = "lv_armed h" and signalled = "lv_signalled h" and killed = "lv_killed h" and future = "lv_future h"] by simp
  show "live_moves L h [] (h\<lparr> lv_clock := clock \<rparr>)"
    using w [where fl = "lv_flying h" and clock = "clock" and random = "lv_random h" and armed = "lv_armed h" and signalled = "lv_signalled h" and killed = "lv_killed h" and future = "lv_future h"] by simp
  show "live_moves L h [] (h\<lparr> lv_random := random \<rparr>)"
    using w [where fl = "lv_flying h" and clock = "lv_clock h" and random = "random" and armed = "lv_armed h" and signalled = "lv_signalled h" and killed = "lv_killed h" and future = "lv_future h"] by simp
  show "live_moves L h [] (h\<lparr> lv_signalled := b \<rparr>)"
    using w [where fl = "lv_flying h" and clock = "lv_clock h" and random = "lv_random h" and armed = "lv_armed h" and signalled = b and killed = "lv_killed h" and future = "lv_future h"] by simp
  show "live_moves L h [] (h\<lparr> lv_future := future \<rparr>)"
    using w [where fl = "lv_flying h" and clock = "lv_clock h" and random = "lv_random h" and armed = "lv_armed h" and signalled = "lv_signalled h" and killed = "lv_killed h" and future = "future"] by simp
  show "live_moves L h [] (h\<lparr> lv_armed := b \<rparr>)"
    using w [where fl = "lv_flying h" and clock = "lv_clock h" and random = "lv_random h" and armed = b and signalled = "lv_signalled h" and killed = "lv_killed h" and future = "lv_future h"] by simp
  show "live_moves L h [] (h\<lparr> lv_killed := b \<rparr>)"
    using w [where fl = "lv_flying h" and clock = "lv_clock h" and random = "lv_random h" and armed = "lv_armed h" and signalled = "lv_signalled h" and killed = b and future = "lv_future h"] by simp
qed

lemma taken_moves:
  "lv_channel h = c # rest \<Longrightarrow> live_moves L h [] (feed L (HostCommand c env) (h\<lparr> lv_channel := rest \<rparr>))"
  by (rule live_moves.taken [OF live_moves.stays])

lemma feed_channel [simp]: "lv_channel (feed L i h) = lv_channel h"
  by (simp add: feed_def)

lemma feed_update_channel: "feed L i (h\<lparr> lv_channel := cs \<rparr>) = (feed L i h)\<lparr> lv_channel := cs \<rparr>"
  by (simp add: feed_def)

lemma close_channel_moves: "live_moves L h [] (close_channel L h)"
proof -
  have "live_moves L (v\<lparr> lv_channel := cs \<rparr>) [] (fold (\<lambda>c. feed L (HostCommand c idle_env)) cs (v\<lparr> lv_channel := [] \<rparr>))"
    for cs v
  proof (induction cs arbitrary: v)
    case (Cons c cs)
    have "live_moves L (v\<lparr> lv_channel := c # cs \<rparr>) []
        ((feed L (HostCommand c idle_env) v)\<lparr> lv_channel := cs \<rparr>)"
      using taken_moves [of "v\<lparr> lv_channel := c # cs \<rparr>" c cs L idle_env] by (simp add: feed_update_channel)
    with Cons [of "feed L (HostCommand c idle_env) v"] show ?case
      by (simp add: feed_update_channel live_moves_quiet)
  qed (simp add: live_moves.stays)
  from this [where cs = "lv_channel h" and v = h] show ?thesis by (simp add: close_channel_def)
qed

lemma take_command_moves: "live_moves L h [] (take_command L swarm h)"
proof (cases "lv_channel h")
  case (Cons c cs)
  with taken_moves [OF Cons, of L "swarm_env swarm h"] show ?thesis
    by (auto simp: take_command_def Let_def intro: live_moves_quiet [OF close_channel_moves])
qed (simp add: take_command_def live_moves.stays)

lemma happens_moves: "live_moves L h [] (happens L x h)"
  by (cases x) (auto simp: take_command_moves within_moves live_moves.stays
      live_moves.reported [OF live_moves.stays])

lemma await_moves: "live_moves L h [] (snd (await L ready xs h))"
proof (induction xs arbitrary: h)
  case (Cons x xs)
  show ?case
    using Cons [of "happens L x h"] happens_moves [of L h x]
    by (auto simp: Let_def intro: live_moves_quiet within_moves)
qed (simp add: within_moves)

lemma drift_moves: "live_moves L h [] (drift L xs h)"
proof (induction xs arbitrary: h)
  case (Cons x xs)
  show ?case
    using Cons [of "happens L x h"] happens_moves [of L h x]
    by (auto intro: live_moves_quiet within_moves)
qed (simp add: within_moves)

lemma look_moves: "live_moves L h [] (look L h)"
  by (simp add: look_def drift_moves)

lemma work_off_moves: "live_moves L h [] (work_off L n h)"
proof (induction n arbitrary: h)
  case (Suc n)
  from live_moves_quiet [OF Suc take_command_moves] show ?case by simp
qed (simp add: live_moves.stays)

lemma await_reply_moves: "live_moves L h [] (snd (await_reply L w h))"
  using await_moves [of L h "\<lambda>_. has_settled w" "lv_future h"]
  by (auto simp: await_reply_def Let_def live_moves.stays split: prod.split option.split
      intro: live_moves_quiet [OF work_off_moves])

text \<open>Sending a command with the senders drawn for it.\<close>

lemma live_send_moves:
  assumes "set (command_senders c) \<subseteq> {lv_next_sender h}"
  shows "live_moves L h [c]
    (snd (live_send L c (h\<lparr> lv_next_sender := lv_next_sender h + length (command_senders c) \<rparr>)))"
proof -
  have swap: "h\<lparr> lv_next_sender := n, lv_channel := cs \<rparr> = h\<lparr> lv_channel := cs, lv_next_sender := n \<rparr>" for n cs
    by simp
  show ?thesis
    using live_moves.sent [OF live_moves.stays assms, of L] live_moves.refused [OF live_moves.stays assms, of L idle_env]
    by (simp add: live_send_def swap)
qed

lemma live_send_plain: "command_senders c = [] \<Longrightarrow> live_moves L h [c] (snd (live_send L c h))"
  using live_send_moves [of c h L] by simp

lemma live_send_fresh:
  "command_senders c = [lv_next_sender h] \<Longrightarrow> live_moves L h [c] (snd (live_send L c (snd (new_sender h))))"
  using live_send_moves [of c h L] by (simp add: new_sender_def)

lemma live_connect_moves:
  "live_moves L h [CmdDial peer (lv_next_sender h)] (live_connect L peer h)"
proof -
  let ?w = "lv_next_sender h"
  let ?v = "h\<lparr> lv_flying := lv_flying h @ [?w] \<rparr>"
  have "live_moves L ?v [CmdDial peer ?w] (snd (live_send L (CmdDial peer ?w) (snd (new_sender ?v))))"
    by (rule live_send_fresh) simp
  from live_moves_trans [OF this within_moves(1)] show ?thesis by (simp add: live_connect_def Let_def)
qed

lemma subseq_filter: "subseq (take n cs @ filter P (drop n cs)) cs"
proof -
  have "subseq (take n cs @ filter P (drop n cs)) (take n cs @ drop n cs)"
    by (intro list_emb_append_mono) (simp_all add: subseq_filter_left)
  then show ?thesis by simp
qed

lemma unsend_moves: "live_moves L h [] (unsend w h)"
proof -
  let ?c = "lv_channel h" and ?d = "drop COMMAND_CAPACITY (lv_channel h)"
  let ?keeps = "\<lambda>c. command_senders c \<noteq> [w]"
  have "mset (concat (map command_senders (filter ?keeps cs))) +
      mset (concat (map command_senders (filter (\<lambda>c. command_senders c = [w]) cs))) =
      mset (concat (map command_senders cs))" for cs
    by (induction cs) auto
  then have "mset (concat (map command_senders (take COMMAND_CAPACITY ?c @ filter ?keeps ?d))) +
      mset (concat (map command_senders (filter (\<lambda>c. command_senders c = [w]) ?d))) =
      mset (concat (map command_senders (take COMMAND_CAPACITY ?c @ ?d)))"
    by (simp only: map_append concat_append mset_append add.assoc)
  then show ?thesis unfolding unsend_def
    by (intro live_moves.unsent live_moves.stays) (auto dest: in_set_takeD in_set_dropD)
qed

lemma end_dial_moves: "live_moves L h [] (end_dial k h)"
  by (simp add: end_dial_def within_moves)

lemma expire_dial_moves: "\<exists>cs. set cs \<subseteq> {CmdPruneDialWaiters} \<and> live_moves L h cs (expire_dial L k own h)"
proof -
  have "live_moves L h [] (unsend w (end_dial k h))" for w
    using live_moves_quiet [OF unsend_moves end_dial_moves] .
  moreover have "live_moves L h [CmdPruneDialWaiters] (snd (live_send L CmdPruneDialWaiters (end_dial k h)))"
    using live_moves_trans [OF live_send_plain end_dial_moves, of CmdPruneDialWaiters L h k] by simp
  ultimately have "live_moves L h [] (expire_dial L k own h) \<or> live_moves L h [CmdPruneDialWaiters] (expire_dial L k own h)"
    using live_moves.stays [of L h] by (simp add: expire_dial_def host_connect_def Let_def)
  then show ?thesis by (auto intro: exI [of _ "[]"] exI [of _ "[CmdPruneDialWaiters]"])
qed

lemma live_next_dial_moves:
  "\<exists>cs. set cs \<subseteq> {CmdPruneDialWaiters} \<and> live_moves L h cs (snd (live_next_dial L h))"
proof -
  obtain x v where x: "await L dial_ends (lv_future h) h = (x, v)" by fastforce
  then have v: "live_moves L h [] v" using await_moves [of L h dial_ends "lv_future h"] by simp
  have e: "\<exists>cs. set cs \<subseteq> {CmdPruneDialWaiters} \<and> live_moves L h cs (expire_dial L k own v)" for k own
    using expire_dial_moves [of L v k own] live_moves_trans [OF _ v] by fastforce
  have d: "live_moves L h [] (end_dial k v)" for k using live_moves_quiet [OF end_dial_moves v] .
  show ?thesis
    using x e d by (cases x) (force simp: live_next_dial_def split: happening.splits)+
qed

lemma live_drop_dials_moves: "live_moves L h [] (live_drop_dials h)"
proof -
  have "live_moves L h [] (fold unsend ws h)" for ws
    by (induction ws arbitrary: h) (auto intro: live_moves.stays live_moves_quiet unsend_moves)
  then show ?thesis unfolding live_drop_dials_def by (rule live_moves_quiet [OF within_moves(1)])
qed

lemma sleep_moves: "live_moves L h [] (sleep L h)"
  by (simp add: sleep_def await_moves)

lemma live_native_moves:
  "\<exists>w. live_moves L h [CmdNativeCandidates w] (snd (live_native_discover L ns h))"
proof -
  let ?v = "sleep L h" and ?c = "CmdNativeCandidates (lv_next_sender (sleep L h))"
  obtain ok u where s: "live_send L ?c (snd (new_sender ?v)) = (ok, u)" by fastforce
  then have u: "live_moves L h [?c] u"
    using live_moves_trans [OF live_send_fresh [of ?c ?v L] sleep_moves] by simp
  have "live_moves L h [?c] (snd (await_reply L w u))" for w
    using live_moves_quiet [OF await_reply_moves u] .
  then have "await_reply L w u = (a, t) \<Longrightarrow> live_moves L h [?c] t" for w a t by (metis snd_conv)
  with s u show ?thesis
    by (intro exI [of _ "lv_next_sender ?v"])
      (auto simp: live_native_discover_def new_sender_def split: bool.split prod.split)
qed

lemma live_add_moves: "live_moves L h [CmdAddVerified p] (snd (live_add_verified_peer L p h))"
  using live_moves_trans [OF live_send_plain look_moves, of "CmdAddVerified p" L h]
  by (simp add: live_add_verified_peer_def split_beta)

lemma live_wait_moves: "live_moves L h [] (snd (live_wait L h))"
proof -
  obtain x v where x: "await L (\<lambda>x _. is_time_up x \<or> is_interrupt x) (lv_future h) (h\<lparr> lv_armed := True \<rparr>) = (x, v)"
    by fastforce
  then have v: "live_moves L h [] v"
    using live_moves_quiet [OF await_moves within_moves(6)] by (metis snd_conv)
  moreover have "live_moves L h [] (v\<lparr> lv_signalled := True \<rparr>)" using live_moves_quiet [OF within_moves(4) v] .
  ultimately show ?thesis
    using x by (cases x) (auto simp: live_wait_def live_moves.stays split: happening.split)
qed

lemma live_listener_moves: "live_moves L h [] (snd (live_wait_for_listener L h))"
  by (simp add: live_wait_for_listener_def Let_def await_moves live_moves.stays)

lemma live_shutdown_moves: "\<exists>w. live_moves L h [CmdShutdown w] (live_shutdown L h)"
proof -
  let ?v = "look L h" and ?c = "CmdShutdown (lv_next_sender (look L h))"
  obtain ok u where s: "live_send L ?c (snd (new_sender ?v)) = (ok, u)" by fastforce
  then have u: "live_moves L h [?c] u"
    using live_moves_trans [OF live_send_fresh [of ?c ?v L] look_moves] by simp
  have "live_moves L h [?c] (snd (await_reply L w u))" for w
    using live_moves_quiet [OF await_reply_moves u] .
  with s u show ?thesis
    by (intro exI [of _ "lv_next_sender ?v"]) (auto simp: live_shutdown_def new_sender_def split: bool.split)
qed

lemma live_random_moves: "live_moves L h [] (snd (live_random h))"
  by (auto simp: live_random_def live_moves.stays within_moves split: list.split)

end
