(* ===== verification/Live_Dials.thy ===== *)
theory Live_Dials
  imports Node_Live
begin

text \<open>
  Invariants of the live host: its event loop is a run of the loop of Node_P2p over what it took,
  which are commands the handle sent, each with senders of its own; what it answers as
  native candidates it knew natively; and what it asks the swarm to dial.
\<close>

section \<open>The loop is a run over what was sent\<close>

definition commands_of :: "host_input list \<Rightarrow> command set" where
  "commands_of inputs = {c. \<exists>env. HostCommand c env \<in> set inputs}"

lemma commands_of_simps [simp]:
  "commands_of [] = {}" "commands_of (is @ js) = commands_of is \<union> commands_of js"
  "commands_of [HostCommand c env] = {c}" "commands_of [HostSwarm ev] = {}"
  by (auto simp: commands_of_def)

abbreviation run_loop :: "('pk, 'sk) live_libs \<Rightarrow> host_input list \<Rightarrow> event_loop \<Rightarrow> event_loop" where
  "run_loop L inputs \<equiv> fold (host_step (ll_multiaddr L) (ll_libp2p L) (ll_text L)) inputs"

definition senders_of :: "live_host \<Rightarrow> sender list" where
  "senders_of h = concat (map host_enters (lv_taken h)) @ concat (map command_senders (lv_channel h))"

definition live_ok :: "('pk, 'sk) live_libs \<Rightarrow> event_loop \<Rightarrow> command set \<Rightarrow> live_host \<Rightarrow> bool" where
  "live_ok L s0 sent h \<longleftrightarrow>
     lv_loop h = run_loop L (lv_taken h) s0 \<and>
     commands_of (lv_taken h) \<union> set (lv_channel h) \<subseteq> sent \<and>
     mset (senders_of h) + mset (lv_withdrawn h) = mset [0..<lv_next_sender h]"

lemma live_ok_distinct: "live_ok L s0 sent h \<Longrightarrow> distinct (senders_of h)"
proof -
  assume "live_ok L s0 sent h"
  then have "mset (senders_of h @ lv_withdrawn h) = mset [0..<lv_next_sender h]" by (simp add: live_ok_def)
  then have "distinct (senders_of h @ lv_withdrawn h)" using mset_eq_imp_distinct_iff distinct_upt by blast
  then show ?thesis by simp
qed

lemma command_senders_once: "distinct (command_senders c)" "length (command_senders c) \<le> 1"
  by (cases c; simp)+

lemma fresh_senders:
  assumes "set (command_senders c) \<subseteq> {n}"
  shows "mset [0..<n + length (command_senders c)] = mset [0..<n] + mset (command_senders c)"
proof -
  have "command_senders c = [] \<or> command_senders c = [n]"
    using assms command_senders_once [of c] by (cases "command_senders c") auto
  then show ?thesis by (auto simp del: mset_upt)
qed

lemma live_moves_ok:
  assumes "live_moves L h cs v" and "live_ok L s0 sent h"
  shows "live_ok L s0 (sent \<union> set cs) v"
  using assms(1)
proof (induction rule: live_moves.induct)
  case stays
  with assms(2) show ?case by simp
next
  case (reported cs v ev)
  then show ?case by (auto simp: live_ok_def feed_def senders_of_def)
next
  case (taken cs v c rest env)
  then show ?case by (auto simp: live_ok_def feed_def senders_of_def)
next
  case (sent cs v c)
  then show ?case
    by (auto simp: live_ok_def senders_of_def fresh_senders [OF sent.hyps(2)] ac_simps simp del: mset_upt)
next
  case (refused cs v c env)
  then show ?case
    by (auto simp: live_ok_def senders_of_def feed_def fresh_senders [OF refused.hyps(2)] ac_simps simp del: mset_upt)
next
  case (unsent cs v rest gone)
  have "mset (senders_of (v\<lparr> lv_channel := rest, lv_withdrawn := lv_withdrawn v @ gone \<rparr>)) + mset (lv_withdrawn v @ gone) =
      mset (senders_of v) + mset (lv_withdrawn v)"
    using unsent.hyps(3) by (simp add: senders_of_def ac_simps)
  moreover have "lv_next_sender (v\<lparr> lv_channel := rest, lv_withdrawn := lv_withdrawn v @ gone \<rparr>) = lv_next_sender v"
    "lv_loop (v\<lparr> lv_channel := rest, lv_withdrawn := lv_withdrawn v @ gone \<rparr>) = lv_loop v" by simp_all
  ultimately show ?case using unsent.IH unsent.hyps(2) unfolding live_ok_def
    by (intro conjI) (auto simp del: mset_upt mset_append)
next
  case (within cs v fl clock random armed signalled killed future)
  then show ?case by (simp add: live_ok_def senders_of_def)
qed

section \<open>Native answers\<close>

lemma host_step_log:
  assumes "Answered w (NativeReply ps) \<in> set (el_log (host_step mlib lib text i s))"
  shows "Answered w (NativeReply ps) \<in> set (el_log s) \<or> el_running s \<and> ps = native_candidates text s"
proof -
  have d: "Answered w (NativeReply ps) \<notin> set (drop_all ws)"
    "Answered w (NativeReply ps) \<notin> set (answer_all (DialReply r) ws)" for ws r
    by (auto simp: drop_all_def answer_all_def)
  have c: "Answered w (NativeReply ps) \<in> set (el_log (complete_dials p r s)) \<Longrightarrow>
      Answered w (NativeReply ps) \<in> set (el_log s)" for p r s
    using d by (auto simp: complete_dials_def split: option.splits)
  have p: "Answered w (NativeReply ps) \<in> set (el_log (host_publish_status text s)) \<longleftrightarrow>
      Answered w (NativeReply ps) \<in> set (el_log s)" for s
    by (simp add: host_publish_status_def Let_def)
  have sw: "Answered w (NativeReply ps) \<in> set (el_log (handle_swarm text ev s)) \<Longrightarrow>
      Answered w (NativeReply ps) \<in> set (el_log s)" for ev
    by (cases "(text, ev, s)" rule: handle_swarm.cases) (auto simp: p dest: c split: if_splits)
  have di: "Answered w (NativeReply ps) \<in> set (el_log (dial mlib lib env peer v s)) \<Longrightarrow>
      Answered w (NativeReply ps) \<in> set (el_log s)" for env peer v
    by (auto simp: dial_def reply_def Let_def split: if_splits sum.splits)
  have co: "handle_command mlib lib text env k s = Some t \<Longrightarrow> Answered w (NativeReply ps) \<in> set (el_log t) \<Longrightarrow>
      Answered w (NativeReply ps) \<in> set (el_log s) \<or> ps = native_candidates text s" for env k t
    using d by (cases k) (auto simp: p reply_def dest: di split: sum.splits)
  show ?thesis
  proof (cases "el_running s")
    case False
    with assms d show ?thesis by (auto simp: host_step_def)
  next
    case True
    show ?thesis
    proof (cases i)
      case (HostSwarm ev)
      with assms True sw show ?thesis by (simp add: host_step_def)
    next
      case (HostCommand k env)
      show ?thesis
      proof (cases "handle_command mlib lib text env k s")
        case None
        then obtain v where "k = CmdShutdown v" by (auto simp: handle_command_panics)
        with HostCommand True assms d show ?thesis by (auto simp: host_step_stop leave_loop_def reply_def)
      next
        case (Some t)
        with HostCommand True assms co [OF Some] show ?thesis by (simp add: host_step_command)
      qed
    next
      case CommandsClosed
      with True assms d show ?thesis by (auto simp: host_step_stop leave_loop_def)
    qed
  qed
qed

lemma native_reply_known:
  assumes "Answered w (NativeReply ps) \<in> set (el_log (fold (host_step mlib lib text) inputs s0))"
    and "el_log s0 = []"
  shows "\<exists>before. prefix before inputs \<and> el_running (fold (host_step mlib lib text) before s0) \<and>
    ps = native_candidates text (fold (host_step mlib lib text) before s0)"
  using assms(1)
proof (induction inputs rule: rev_induct)
  case Nil
  with assms(2) show ?case by simp
next
  case (snoc i inputs)
  from host_step_log [of w ps mlib lib "text" i] snoc.prems
  consider "Answered w (NativeReply ps) \<in> set (el_log (fold (host_step mlib lib text) inputs s0))"
    | "el_running (fold (host_step mlib lib text) inputs s0)"
      "ps = native_candidates text (fold (host_step mlib lib text) inputs s0)" by auto
  then show ?case
  proof cases
    case 1
    from snoc.IH [OF this] obtain before where "prefix before inputs"
      "el_running (fold (host_step mlib lib text) before s0) \<and>
       ps = native_candidates text (fold (host_step mlib lib text) before s0)" by blast
    then show ?thesis by (intro exI [of _ before] conjI prefix_prefix) simp_all
  next
    case 2
    then show ?thesis by (intro exI [of _ inputs]) simp
  qed
qed

text \<open>What the swarm reported natively so far.\<close>

fun reported_by :: "host_input \<Rightarrow> (peer_id \<times> multiaddr) set" where
  "reported_by (HostSwarm (MdnsDiscovered peers)) = set peers"
| "reported_by (HostSwarm (IdentifyReceived p as)) = {p} \<times> set as"
| "reported_by _ = {}"

definition reported_natively :: "host_input list \<Rightarrow> (peer_id \<times> multiaddr) set" where
  "reported_natively inputs = \<Union> (reported_by ` set inputs)"

lemma known_after_reported: "known_after i k \<subseteq> k \<union> reported_by i"
  by (cases "(i, k)" rule: known_after.cases) auto

lemma known_reported: "fold known_after inputs k \<subseteq> k \<union> reported_natively inputs"
proof (induction inputs arbitrary: k)
  case (Cons i inputs)
  then have "fold known_after (i # inputs) k \<subseteq> known_after i k \<union> reported_natively inputs" by simp
  also have "\<dots> \<subseteq> k \<union> reported_natively (i # inputs)"
    using known_after_reported [of i k] by (auto simp: reported_natively_def)
  finally show ?case .
qed simp

text \<open>A candidate with only addresses that the host knew natively.\<close>

definition native_offer :: "host_text \<Rightarrow> (peer_id \<times> multiaddr) set \<Rightarrow> peer_candidate \<Rightarrow> bool" where
  "native_offer text known_pairs p \<longleftrightarrow>
     (\<forall>e \<in> set (pc_endpoints p). \<exists>a. (pc_peer_id p, a) \<in> known_pairs \<and> ep_address e = ht_address text a)"

lemma native_offer_mono: "native_offer text k p \<Longrightarrow> k \<subseteq> k' \<Longrightarrow> native_offer text k' p"
  unfolding native_offer_def by blast

lemma native_answer_offer:
  assumes "live_ok L s0 sent v" and "el_log s0 = []" and "distinct (map fst (el_native s0))"
    and "reply_to w (el_log (lv_loop v)) = Some (NativeReply ps)" and "p \<in> set ps"
  shows "native_offer (ll_text L) (known (el_native s0) \<union> reported_natively (lv_taken v)) p"
proof -
  have "reply_to w es = Some a \<Longrightarrow> Answered w a \<in> set es" for es and a :: host_reply
    by (induction es) (auto split: dial_effect.splits if_splits)
  with assms(1,4) have "Answered w (NativeReply ps) \<in> set (el_log (run_loop L (lv_taken v) s0))"
    by (simp add: live_ok_def)
  from native_reply_known [OF this assms(2)] obtain before where b: "prefix before (lv_taken v)"
    "el_running (run_loop L before s0)" "ps = native_candidates (ll_text L) (run_loop L before s0)" by blast
  let ?s = "run_loop L before s0"
  from host_run_native [OF b(2) assms(3)] have k: "known (el_native ?s) = fold known_after before (known (el_native s0))"
    "distinct (map fst (el_native ?s))" by blast+
  have "reported_natively before \<subseteq> reported_natively (lv_taken v)"
    using set_mono_prefix [OF b(1)] by (auto simp: reported_natively_def)
  then have sub: "known (el_native ?s) \<subseteq> known (el_native s0) \<union> reported_natively (lv_taken v)"
    using known_reported [of before "known (el_native s0)"] k(1) by blast
  have "native_offer (ll_text L) (known (el_native ?s)) p"
    using assms(5) unfolding b(3) known_pairs [OF k(2)] native_offer_def native_candidates_def by auto blast
  then show ?thesis using sub by (rule native_offer_mono)
qed

section \<open>What the swarm is asked to dial\<close>

text \<open>
  The peer and addresses for which a step asks the swarm: the step depends on the swarm's
  answers to nothing else.
\<close>

definition swarm_dial ::
  "('pk, 'sk) live_libs \<Rightarrow> host_input \<Rightarrow> event_loop \<Rightarrow> (peer_id \<times> multiaddr list) option"
where
  "swarm_dial L i s =
     (case i of
        HostCommand (CmdDial peer w) env \<Rightarrow>
          if \<not> el_running s \<or> pc_record_type peer \<noteq> RECORD_TYPE_LIBP2P then None
          else (case lp_peer_from_bytes (ll_libp2p L) (pc_peer_id peer) of
              Inl _ \<Rightarrow> None
            | Inr p \<Rightarrow>
                let addresses = List.map_filter (\<lambda>e. ma_parse (ll_multiaddr L) (ep_address e)) (pc_endpoints peer)
                in if p \<in> set (el_connected s) \<or> addresses = [] then None else Some (p, addresses))
      | _ \<Rightarrow> None)"

lemma swarm_asked_only:
  assumes "\<forall>p as. swarm_dial L (HostCommand c env) s = Some (p, as) \<longrightarrow> he_dial env p as = he_dial env' p as"
    and "he_is_closed env = he_is_closed env'"
  shows "run_loop L [HostCommand c env] s = run_loop L [HostCommand c env'] s"
proof (cases "el_running s")
  case True
  show ?thesis
  proof (cases c)
    case (CmdDial peer w)
    have "dial (ll_multiaddr L) (ll_libp2p L) env peer w s = dial (ll_multiaddr L) (ll_libp2p L) env' peer w s"
      using assms(1) True unfolding CmdDial by (auto simp: swarm_dial_def dial_def Let_def split: sum.splits)
    with True CmdDial show ?thesis by (simp add: host_step_def)
  qed (use True assms(2) in \<open>simp_all add: host_step_def\<close>)
qed (simp add: host_step_def)

fun swarm_dials ::
  "('pk, 'sk) live_libs \<Rightarrow> host_input list \<Rightarrow> event_loop \<Rightarrow> (peer_id \<times> multiaddr list) list"
where
  "swarm_dials L [] s = []"
| "swarm_dials L (i # is) s =
     (case swarm_dial L i s of None \<Rightarrow> [] | Some d \<Rightarrow> [d]) @ swarm_dials L is (run_loop L [i] s)"

lemma swarm_dialed:
  assumes "(q, as) \<in> set (swarm_dials L inputs s)"
  obtains peer w where "CmdDial peer w \<in> commands_of inputs" and "pc_record_type peer = RECORD_TYPE_LIBP2P"
    and "lp_peer_from_bytes (ll_libp2p L) (pc_peer_id peer) = Inr q"
    and "as = List.map_filter (\<lambda>e. ma_parse (ll_multiaddr L) (ep_address e)) (pc_endpoints peer)" and "as \<noteq> []"
proof -
  from assms have "\<exists>peer w. CmdDial peer w \<in> commands_of inputs \<and> pc_record_type peer = RECORD_TYPE_LIBP2P \<and>
      lp_peer_from_bytes (ll_libp2p L) (pc_peer_id peer) = Inr q \<and>
      as = List.map_filter (\<lambda>e. ma_parse (ll_multiaddr L) (ep_address e)) (pc_endpoints peer) \<and> as \<noteq> []"
  proof (induction inputs arbitrary: s)
    case (Cons i "is")
    show ?case
    proof (cases "swarm_dial L i s = Some (q, as)")
      case True
      then show ?thesis
        by (auto simp: swarm_dial_def commands_of_def Let_def
            split: host_input.splits command.splits if_splits sum.splits)
    next
      case False
      with Cons.prems have "(q, as) \<in> set (swarm_dials L is (run_loop L [i] s))"
        by (auto split: option.splits)
      from Cons.IH [OF this] show ?thesis by (auto simp: commands_of_def)
    qed
  qed simp
  with that show ?thesis by blast
qed

lemma map_filter_set: "set (List.map_filter f xs) = {y. \<exists>x \<in> set xs. f x = Some y}"
  by (induction xs) (auto simp: List.map_filter_def)

text \<open>
  When the controller's timeout ends a dial before \<open>connect\<close> notices its own, nothing is sent:
  the waiter stays with the loop.
\<close>

lemma outer_timeout_sends_no_prune:
  "lv_loop (expire_dial L k False h) = lv_loop h \<and>
   set (lv_channel (expire_dial L k False h)) \<subseteq> set (lv_channel h)"
  by (auto simp: expire_dial_def end_dial_def unsend_def Let_def dest: in_set_takeD in_set_dropD)

end
