(* ===== verification/Supervisor_Morphism.thy ===== *)
theory Supervisor_Morphism
  imports Supervisor_Invariants
begin

text \<open>
  Maps between the worlds of two supervisors that all operations respect, after \<open>env_morphism\<close>:
  what a supervisor passes through is then the image of what the other passes through. The
  instance: observing a supervisor changes nothing that it does.
\<close>

section \<open>The interface\<close>

locale supervisor_morphism = env_morphism h "se_bootstrap low" "se_bootstrap high"
  for h :: "'v \<Rightarrow> 'w" and low :: "'v supervisor_env" and high :: "'w supervisor_env" +
  assumes telemetry: "se_telemetry high (h v) = apsnd h (se_telemetry low v)"
    and unix_time: "se_unix_time high (h v) = apsnd h (se_unix_time low v)"
    and random: "se_random high (h v) = apsnd h (se_random low v)"
    and wait: "se_wait high d (h v) = apsnd h (se_wait low d v)"
    and create_dir_all: "fs_create_dir_all (se_files high) p (h v) = apsnd h (fs_create_dir_all (se_files low) p v)"
    and write_file: "fs_write (se_files high) p b (h v) = apsnd h (fs_write (se_files low) p b v)"
    and rename_file: "fs_rename (se_files high) p q (h v) = apsnd h (fs_rename (se_files low) p q v)"
begin

lemma and_then_morphism:
  assumes "m' (h v) = apsnd h (m v)" and "\<And>x u. f' x (h u) = apsnd h (f x u)"
  shows "and_then m' f' (h v) = apsnd h (and_then m f v)"
  using assms by (cases "m v") (auto simp: and_then_def split: sum.split)

lemma files_morphism:
  "write_atomic_json lib (se_files high) path status (h v) = apsnd h (write_atomic_json lib (se_files low) path status v)"
  unfolding write_atomic_json_def Let_def
  by (intro and_then_morphism)
    (auto simp: succeed_def proc_err_def lift_res_def create_dir_all write_file rename_file split: option.split prod.split)

lemma report_morphism:
  "report_status high node state m via path err (h v) = apsnd h (report_status low node state m via path err v)"
  by (simp add: report_status_def publish_status_def telemetry unix_time files_morphism succeed_def split_beta
      split: option.split)

lemma renew_morphism: "renew high node (h v) = apsnd h (renew low node v)"
  by (auto simp: renew_def renewal_due announce split: prod.split bool.split sum.split unit.split)

lemma connected_turn_morphism:
  "connected_turn high node n s (h v) = apsnd h (connected_turn low node n s v)"
  unfolding connected_turn_def renew_morphism split_beta fst_apsnd snd_apsnd
  by (intro and_then_morphism report_morphism) (auto simp: wait split: bool.split)

lemma retry_morphism: "retry high node s (h v) = apsnd h (retry low node s v)"
  by (auto simp: retry_def random wait split_beta split: bool.split)

lemma bootstrap_turn_morphism:
  "bootstrap_turn high node s (h v) = apsnd h (bootstrap_turn low node s v)"
  unfolding bootstrap_turn_def run_cycle_morphism connected_peers split_beta fst_apsnd snd_apsnd Let_def
  by (intro and_then_morphism report_morphism) (auto simp: succeed_def retry_morphism)

lemma supervise_turn_morphism:
  "supervise_turn high node s (h v) = apsnd h (supervise_turn low node s v)"
  by (simp add: supervise_turn_def connected_peers split_beta connected_turn_morphism bootstrap_turn_morphism)

lemma supervised_low:
  assumes "supervised high node (h v0) s w"
  shows "\<exists>v. supervised low node v0 s v \<and> w = h v"
  using assms
proof (induction rule: supervised.induct)
  case begins
  show ?case by (blast intro: supervised.begins)
next
  case (turns s w s' w')
  then obtain v where v: "supervised low node v0 s v" "w = h v" by blast
  obtain r u where u: "supervise_turn low node s v = (r, u)" by fastforce
  with turns.hyps(2) v(2) have "r = Inr (Continue s')" "w' = h u"
    by (simp_all add: supervise_turn_morphism)
  with u v(1) show ?case by (blast intro: supervised.turns)
qed

lemma reaches_low:
  assumes "reaches high node (h v0) w"
  shows "\<exists>v. reaches low node v0 v \<and> w = h v"
proof -
  from assms consider "w = h v0" | s x r where "supervised high node (h v0) s x" "supervise_turn high node s x = (r, w)"
    by (auto simp: reaches_def)
  then show ?thesis
  proof cases
    case 1
    then show ?thesis by (auto simp: reaches_def)
  next
    case 2
    from supervised_low [OF 2(1)] obtain v where v: "supervised low node v0 s v" "x = h v" by blast
    obtain r' u where u: "supervise_turn low node s v = (r', u)" by fastforce
    with 2(2) v(2) have "w = h u" by (simp add: supervise_turn_morphism)
    with u v(1) show ?thesis by (auto simp: reaches_def)
  qed
qed

end

section \<open>Forgetting the observations\<close>

interpretation forget_log: env_morphism fst "logged_env f env" env for f env
  by unfold_locales (simp_all add: logged_env_def recorded_def split_beta)

interpretation unobserved: supervisor_morphism fst "observed_supervisor env" env for env
  by unfold_locales
    (simp_all add: logged_env_def recorded_def observed_supervisor_def quiet_def observed_files_def logged_def
      split_beta)

lemma reaches_observed:
  assumes "reaches env node w0 w"
  shows "\<exists>es. reaches (observed_supervisor env) node (w0, []) (w, es)"
  using unobserved.reaches_low [of env node "(w0, [])" w] assms by auto

end
