(* ===== verification/Node_Main.thy ===== *)
theory Node_Main
  imports Node_Lifetime Live_Dials Supervisor_Morphism
begin

text \<open>
  \<open>run\<close> of \<open>crates/resurrect-node/src/main.rs\<close> in full: it configures the node, starts the host
  and waits for a listener, opens and prunes the cache, joins the parts over the live host of
  Node_Live, runs the supervisor until the interrupt signal, and shuts the host down. The
  end-to-end properties hold in every world that such a node reaches.
\<close>

section \<open>The live host behind the parts\<close>

text \<open>The faults of the database operations to come: each operation takes one.\<close>

record node_host =
  nh_live :: live_host
  nh_faults :: "database_fault list"

definition on_live :: "(live_host \<Rightarrow> 'a \<times> live_host) \<Rightarrow> node_host \<Rightarrow> 'a \<times> node_host" where
  "on_live m h = (case m (nh_live h) of (x, v) \<Rightarrow> (x, h\<lparr> nh_live := v \<rparr>))"

definition next_fault :: "node_host \<Rightarrow> database_fault \<times> node_host" where
  "next_fault h = (case nh_faults h of [] \<Rightarrow> (None, h) | f # fs \<Rightarrow> (f, h\<lparr> nh_faults := fs \<rparr>))"

definition live_ops :: "('pk, 'sk) live_libs \<Rightarrow> node_host host_ops" where
  "live_ops L =
     \<lparr> ho_native_discover = (\<lambda>ns. on_live (live_native_discover L ns)),
       ho_add_verified_peer = (\<lambda>peer. on_live (live_add_verified_peer L peer)),
       ho_connected_peers = on_live (live_connected_peers L),
       ho_connect = (\<lambda>peer timeout h. h\<lparr> nh_live := live_connect L peer (nh_live h) \<rparr>),
       ho_next_dial = (\<lambda>peers. on_live (live_next_dial L)),
       ho_drop_dials = (\<lambda>peers h. h\<lparr> nh_live := live_drop_dials (nh_live h) \<rparr>),
       ho_clock = on_live (live_clock L), ho_random = on_live live_random,
       ho_wait = (\<lambda>d. on_live (live_wait L)), ho_database_fault = next_fault \<rparr>"

section \<open>Starting the parts\<close>

text \<open>What a node finds outside when it starts, and the texts of other crates' values.\<close>

record 'c outside =
  ou_disk :: disk
  ou_database :: "cache_db option"
  ou_chain :: 'c
  ou_build :: "string + unit"
  ou_listen_on :: "multiaddr \<Rightarrow> bool"
  ou_clock :: "duration option"
  ou_random :: "nat list"
  ou_future :: "happening list"
  ou_faults :: "database_fault list"

record node_prints =
  np_texts :: node_texts
  np_io :: "io_error \<Rightarrow> string"
  np_peer :: "peer_id \<Rightarrow> string"
  np_paths :: path_lib

definition live_libs_of :: "('c, 'p, 'pk, 'sk, 'signer) node_libs \<Rightarrow> node_prints \<Rightarrow> ('pk, 'sk) live_libs" where
  "live_libs_of libs np =
     \<lparr> ll_multiaddr = nl_multiaddr libs, ll_libp2p = nl_libp2p libs,
       ll_text = \<lparr> ht_peer = np_peer np, ht_address = ma_show (nl_multiaddr libs) \<rparr> \<rparr>"

definition start_loop ::
  "('pk, 'sk) live_libs \<Rightarrow> 'c outside \<Rightarrow> ('w, 'sk) node_setup \<Rightarrow> host_error + event_loop"
where
  "start_loop L ou setup =
     start (ll_text L) (ou_build ou) (ou_listen_on ou) (cf_local_peer setup) (cf_host setup)"

definition start_host ::
  "('pk, 'sk) live_libs \<Rightarrow> 'c outside \<Rightarrow> ('w, 'sk) node_setup \<Rightarrow> host_error + node_host"
where
  "start_host L ou setup =
     res_bind (start_loop L ou setup) (\<lambda>loop.
     case live_wait_for_listener L (new_live_host loop (ou_clock ou) (ou_random ou) (ou_future ou)) of
       (Inl error, _) \<Rightarrow> Inl error
     | (Inr status, h) \<Rightarrow> Inr \<lparr> nh_live = h, nh_faults = ou_faults ou \<rparr>)"

text \<open>\<open>SqlitePeerCache::open\<close> on the disk and the database, and \<open>prune_expired\<close> of the cache.\<close>

definition open_database ::
  "(io_error \<Rightarrow> string) \<Rightarrow> string option \<Rightarrow> database_fault \<Rightarrow> (disk \<times> cache_db option, cache_error, unit) proc"
where
  "open_database io_text parent fault =
     and_then (case parent of None \<Rightarrow> succeed ()
               | Some p \<Rightarrow> on_fst (proc_err (\<lambda>e. CacheIo (io_text e)) (create_dir_all p))) (\<lambda>_.
     on_snd (on_database fault (\<lambda>db. (Inr (), Some (initialize db)))))"

definition prune_database :: "duration option \<Rightarrow> database_fault \<Rightarrow> (cache_db, cache_error, nat) proc" where
  "prune_database clock fault db =
     (case cache_unix_time clock of
        Inl error \<Rightarrow> (Inl error, db)
      | Inr now \<Rightarrow> on_database fault (prune_expired (Inr now)) db)"

definition open_node_cache ::
  "('c, 'p, 'pk, 'sk, 'signer) node_libs \<Rightarrow> node_prints \<Rightarrow> cli \<Rightarrow> node_host \<Rightarrow> disk \<Rightarrow> cache_db option \<Rightarrow>
   (cache_error + cache_db \<times> node_host) \<times> disk \<times> cache_db option"
where
  "open_node_cache libs np cli h d db =
     (case next_fault h of (f1, h1) \<Rightarrow>
      case open_database (np_io np) (nl_parent libs (cli_cache cli)) f1 (d, db) of
        (Inl error, (d', db')) \<Rightarrow> (Inl error, (d', db'))
      | (Inr _, (d', db')) \<Rightarrow>
          (case on_live (live_clock (live_libs_of libs np)) h1 of (clock, h2) \<Rightarrow>
           case next_fault h2 of (f2, h3) \<Rightarrow>
           case prune_database clock f2 (initialize db') of
             (Inl error, rows) \<Rightarrow> (Inl error, (d', Some rows))
           | (Inr _, rows) \<Rightarrow> (Inr (rows, h3), (d', Some rows))))"

text \<open>\<open>run\<close> up to the supervisor: the configured parts and the world they start in.\<close>

definition prepare ::
  "('c, 'p, 'pk, 'sk, 'signer) node_libs \<Rightarrow> node_prints \<Rightarrow> 'sk \<Rightarrow> cli \<Rightarrow>
   ('c outside, run_error, ('c, 'sk) node_setup \<times> ('c, node_host) node_world) proc"
where
  "prepare libs np fresh cli ou =
     (case configure libs fresh cli (ou_disk ou) of
        (Inl error, d) \<Rightarrow> (Inl error, ou\<lparr> ou_disk := d \<rparr>)
      | (Inr setup, d) \<Rightarrow>
          (case start_host (live_libs_of libs np) ou setup of
             Inl error \<Rightarrow> (Inl (HostFailed error), ou\<lparr> ou_disk := d \<rparr>)
           | Inr h \<Rightarrow>
               (case open_node_cache libs np cli h d (ou_database ou) of
                  (Inl error, (d', db)) \<Rightarrow> (Inl (CacheFailed error), ou\<lparr> ou_disk := d', ou_database := db \<rparr>)
                | (Inr (rows, h1), (d', db)) \<Rightarrow>
                    (case on_live (live_clock (live_libs_of libs np)) h1 of (clock, h2) \<Rightarrow>
                       (Inr (setup, new_node_world rows (ou_chain ou) clock d' h2),
                        ou\<lparr> ou_disk := d', ou_database := db \<rparr>)))))"

text \<open>
  Control does not come back to \<open>run\<close> when a call to the chain is never answered (the code has no
  timeout around it), or when the interrupt killed the process.
\<close>

definition node_gone :: "('c, 'p, 'pk, 'sk, 'signer) node_libs \<Rightarrow> ('c, node_host) node_world \<Rightarrow> bool" where
  "node_gone libs w \<longleftrightarrow> nl_pending libs (nw_chain w) \<or> lv_killed (nh_live (nw_host w))"

definition run_env ::
  "('c, 'p, 'pk, 'sk, 'signer) node_libs \<Rightarrow> node_prints \<Rightarrow> ('c, 'sk) node_setup \<Rightarrow>
   ('c, node_host) node_world supervisor_env"
where
  "run_env libs np setup =
     node_supervisor_env (nl_keccak libs) (nl_multiaddr libs) (nl_libp2p libs) (np_texts np) (np_io np)
       (live_ops (live_libs_of libs np)) setup (node_gone libs)"

definition run_supervised ::
  "('c, 'p, 'pk, 'sk, 'signer) node_libs \<Rightarrow> node_prints \<Rightarrow> cli \<Rightarrow> ('c, 'sk) node_setup \<Rightarrow> supervisor"
where
  "run_supervised libs np cli setup =
     node_supervisor (ll_text (live_libs_of libs np)) (np_paths np) cli setup"

text \<open>
  \<open>None\<close> is a supervisor that never returns, or a process that was killed. An error drops the parts
  as they are.
\<close>

definition run ::
  "('c, 'p, 'pk, 'sk, 'signer) node_libs \<Rightarrow> node_prints \<Rightarrow> 'sk \<Rightarrow> cli \<Rightarrow> 'c outside \<Rightarrow>
   ((run_error + unit) \<times> ('c outside + ('c, node_host) node_world)) option"
where
  "run libs np fresh cli ou =
     (case prepare libs np fresh cli ou of
        (Inl error, ou') \<Rightarrow> Some (Inl error, Inl ou')
      | (Inr (setup, w), ou') \<Rightarrow>
          (case run_supervisor (run_env libs np setup) (run_supervised libs np cli setup) w of
             None \<Rightarrow> None
           | Some (Inl error, v) \<Rightarrow> Some (Inl (SupervisorFailed error), Inr v)
           | Some (Inr _, v) \<Rightarrow> Some (Inr (), Inr (v\<lparr> nw_host :=
               (nw_host v)\<lparr> nh_live := live_shutdown (live_libs_of libs np) (nh_live (nw_host v)) \<rparr> \<rparr>))))"

section \<open>The host's life beside the log\<close>

lemma live_moves_taken: "live_moves L h cs v \<Longrightarrow> prefix (lv_taken h) (lv_taken v)"
  by (induction rule: live_moves.induct) (simp_all add: feed_def)

lemma reported_natively_prefix: "prefix is js \<Longrightarrow> reported_natively is \<subseteq> reported_natively js"
  unfolding reported_natively_def using set_mono_prefix by blast

text \<open>The commands that a log accounts for, and the native candidates that the host knew.\<close>

definition sent_in :: "supervisor_event list \<Rightarrow> command set" where
  "sent_in es = {c. \<forall>p w. c = CmdDial p w \<longrightarrow> (\<exists>t. Cycle (DialStarted p t) \<in> set es)}"

definition natives_known :: "host_text \<Rightarrow> (peer_id \<times> multiaddr) set \<Rightarrow> supervisor_event list \<Rightarrow> bool" where
  "natives_known text k es \<longleftrightarrow>
     (\<forall>ns c p. Cycle (DiscoveredNative ns c) \<in> set es \<longrightarrow> p \<in> set (candidates_of c) \<longrightarrow> native_offer text k p)"

definition lived :: "('pk, 'sk) live_libs \<Rightarrow> event_loop \<Rightarrow> ('c, node_host) node_world \<times> supervisor_event list \<Rightarrow> bool" where
  "lived L s0 = (\<lambda>(w, es).
     fresh_loop s0 \<and> distinct (map fst (el_native s0)) \<and>
     live_ok L s0 (sent_in es) (nh_live (nw_host w)) \<and>
     natives_known (ll_text L) (known (el_native s0) \<union> reported_natively (lv_taken (nh_live (nw_host w)))) es)"

lemma sent_in_more: "set es \<subseteq> set fs \<Longrightarrow> sent_in es \<subseteq> sent_in fs"
  unfolding sent_in_def by blast

lemma live_ok_mono: "live_ok L s0 sent h \<Longrightarrow> sent \<subseteq> sent2 \<Longrightarrow> live_ok L s0 sent2 h"
  unfolding live_ok_def by blast

lemma natives_known_mono: "natives_known text k es \<Longrightarrow> k \<subseteq> k' \<Longrightarrow> natives_known text k' es"
  unfolding natives_known_def using native_offer_mono by blast

lemma lived_moves:
  assumes "lived L s0 (w, es)" and "live_moves L (nh_live (nw_host w)) cs (nh_live (nw_host v))"
    and "set cs \<subseteq> sent_in fs" and "set es \<subseteq> set fs"
    and "natives_known (ll_text L) (known (el_native s0) \<union> reported_natively (lv_taken (nh_live (nw_host v)))) es \<Longrightarrow>
      natives_known (ll_text L) (known (el_native s0) \<union> reported_natively (lv_taken (nh_live (nw_host v)))) fs"
  shows "lived L s0 (v, fs)"
proof -
  let ?h = "nh_live (nw_host w)" and ?u = "nh_live (nw_host v)"
  have "live_ok L s0 (sent_in es \<union> set cs) ?u"
    using live_moves_ok [OF assms(2)] assms(1) by (simp add: lived_def)
  then have "live_ok L s0 (sent_in fs) ?u"
    using sent_in_more [OF assms(4)] assms(3) by (blast intro: live_ok_mono)
  moreover have "reported_natively (lv_taken ?h) \<subseteq> reported_natively (lv_taken ?u)"
    using reported_natively_prefix [OF live_moves_taken [OF assms(2)]] .
  then have "natives_known (ll_text L) (known (el_native s0) \<union> reported_natively (lv_taken ?u)) es"
    using assms(1) by (auto simp: lived_def intro: natives_known_mono)
  ultimately show ?thesis using assms(1,5) by (simp add: lived_def)
qed

text \<open>An operation that adds an event other than a native answer.\<close>

lemma lived_other:
  assumes "lived L s0 (w, es)" and "live_moves L (nh_live (nw_host w)) cs (nh_live (nw_host v))"
    and "set cs \<subseteq> sent_in (es @ fs)" and "\<And>ns c. Cycle (DiscoveredNative ns c) \<notin> set fs"
  shows "lived L s0 (v, es @ fs)"
  by (rule lived_moves [OF assms(1-3)]) (use assms(4) in \<open>auto simp: natives_known_def\<close>)

lemma lived_quiet:
  assumes "lived L s0 (w, es)" and "live_moves L (nh_live (nw_host w)) [] (nh_live (nw_host v))"
  shows "lived L s0 (v, es)"
  by (rule lived_moves [OF assms]) simp_all

lemma sent_in_other: "c \<in> sent_in es" if "\<And>p w. c \<noteq> CmdDial p w"
  using that by (simp add: sent_in_def)

lemma lived_native:
  assumes "lived L s0 (w, es)"
  shows "lived L s0 (snd (on_host (on_live (live_native_discover L ns)) w),
    es @ [Cycle (DiscoveredNative ns (fst (on_host (on_live (live_native_discover L ns)) w)))])"
proof -
  let ?h = "nh_live (nw_host w)"
  obtain r u where ru: "live_native_discover L ns ?h = (r, u)" by fastforce
  let ?v = "w\<lparr> nw_host := (nw_host w)\<lparr> nh_live := u \<rparr> \<rparr>"
  have op: "on_host (on_live (live_native_discover L ns)) w = (r, ?v)"
    by (simp add: on_host_def on_live_def ru)
  obtain q where m: "live_moves L ?h [CmdNativeCandidates q] u"
    using live_native_moves [of L ?h ns] ru by auto
  have ok: "live_ok L s0 (sent_in es \<union> {CmdNativeCandidates q}) u"
    using live_moves_ok [OF m] assms by (simp add: lived_def)
  have "native_offer (ll_text L) (known (el_native s0) \<union> reported_natively (lv_taken u)) p" if p: "p \<in> set (candidates_of r)" for p
  proof -
    from p ru obtain x ps where "reply_to x (el_log (lv_loop u)) = Some (NativeReply ps)" "p \<in> set ps"
      by (auto simp: live_native_discover_def new_sender_def await_reply_def native_discover_def request_native_def
          candidates_of_def Let_def split: prod.splits bool.splits option.splits host_reply.splits if_splits)
    from native_answer_offer [OF ok _ _ this] assms show ?thesis by (simp add: lived_def fresh_loop_def)
  qed
  then show ?thesis
    unfolding op fst_conv snd_conv
    by (intro lived_moves [OF assms, where cs = "[CmdNativeCandidates q]"])
      (auto simp: m sent_in_other natives_known_def)
qed

lemma live_ops_simps [simp]:
  "ho_native_discover (live_ops L) ns = on_live (live_native_discover L ns)"
  "ho_add_verified_peer (live_ops L) p = on_live (live_add_verified_peer L p)"
  "ho_connected_peers (live_ops L) = on_live (live_connected_peers L)"
  "ho_connect (live_ops L) p t h = h\<lparr> nh_live := live_connect L p (nh_live h) \<rparr>"
  "ho_next_dial (live_ops L) ps = on_live (live_next_dial L)"
  "ho_drop_dials (live_ops L) ps h = h\<lparr> nh_live := live_drop_dials (nh_live h) \<rparr>"
  "ho_clock (live_ops L) = on_live (live_clock L)" "ho_random (live_ops L) = on_live live_random"
  "ho_wait (live_ops L) d = on_live (live_wait L)" "ho_database_fault (live_ops L) = next_fault"
  by (simp_all add: live_ops_def)

text \<open>What each operation of the live host does to it.\<close>

lemma on_live_moves:
  assumes "live_moves L (nh_live (nw_host w)) cs (snd (m (nh_live (nw_host w))))"
  shows "live_moves L (nh_live (nw_host w)) cs (nh_live (nw_host (snd (on_host (on_live m) w))))"
  using assms by (simp add: on_host_def on_live_def split_beta)

lemma live_clock_moves: "live_moves L h [] (snd (live_clock L h))"
  by (simp add: live_clock_def Let_def look_moves)

lemma live_peers_moves: "live_moves L h [] (snd (live_connected_peers L h))"
  by (simp add: live_connected_peers_def Let_def look_moves)

lemma on_live_eq: "on_live m h = (fst (m (nh_live h)), h\<lparr> nh_live := snd (m (nh_live h)) \<rparr>)"
  by (simp add: on_live_def split_beta)

lemma next_fault_live [simp]: "nh_live (snd (next_fault h)) = nh_live h"
  by (simp add: next_fault_def split: list.split)

lemma node_cache_live:
  "live_moves L (nh_live (nw_host w)) [] (nh_live (nw_host (snd (node_cache_discover keccak (live_ops L) setup ns w))))"
  using live_clock_moves [of L "nh_live (nw_host w)"]
  by (simp add: node_cache_discover_def on_live_eq split_beta)

lemma node_registry_live:
  "nh_live (nw_host (snd (node_registry_discover keccak texts (live_ops L) setup ns w))) = nh_live (nw_host w)"
  by (simp add: node_registry_discover_def live_ops_def split_beta)

lemma node_announce_live:
  "live_moves L (nh_live (nw_host w)) []
     (nh_live (nw_host (snd (node_announce mlib lib texts (live_ops L) setup ttl w))))"
  using live_moves_quiet [OF live_random_moves live_clock_moves, of L "nh_live (nw_host w)"]
  by (simp add: node_announce_def on_live_eq split_beta)

lemma ask_announcer_live:
  "live_moves L (nh_live (nw_host w)) [] (nh_live (nw_host (snd (ask_announcer q (live_ops L) w))))"
  using live_clock_moves [of L "nh_live (nw_host w)"]
  by (simp add: ask_announcer_def on_host_def on_live_eq split_beta)

lemma disk_live [simp]: "nw_host (snd (on_disk io_text m w)) = nw_host w"
  by (simp add: on_disk_def split_beta)

lemmas supervised_ops = node_supervisor_env_def node_env_def logged_env_def observed_supervisor_def
  observed_files_def recorded_eq logged_eq quiet_eq

interpretation living: supervisor_invariant
  "observed_supervisor (node_supervisor_env keccak mlib lib texts io_text (live_ops L) cfg gone)" "lived L s0"
  for keccak mlib lib texts io_text L s0 and cfg :: "('c, 'sk) node_setup"
proof (unfold_locales, goal_cases)
  case (1 x ns)
  then show ?case by (cases x) (auto simp: supervised_ops intro!: lived_other [OF _ node_cache_live])
next
  case (2 x ns)
  then show ?case by (cases x) (simp add: supervised_ops lived_native)
next
  case (3 x p)
  then show ?case
    by (cases x) (auto simp: supervised_ops sent_in_other intro!: lived_other on_live_moves live_add_moves)
next
  case (4 x ns)
  then show ?case
    by (cases x) (auto simp: supervised_ops node_registry_live live_moves.stays
        intro!: lived_other [where cs = "[]"])
next
  case (5 x)
  then show ?case
    by (cases x) (auto simp: supervised_ops intro!: lived_other on_live_moves live_peers_moves)
next
  case (6 x p t)
  then show ?case
    by (cases x) (auto simp: supervised_ops sent_in_def intro!: lived_other live_connect_moves)
next
  case (7 x ps)
  show ?case
  proof (cases x)
    case (Pair w es)
    obtain cs where "set cs \<subseteq> {CmdPruneDialWaiters}"
      "live_moves L (nh_live (nw_host w)) cs (snd (live_next_dial L (nh_live (nw_host w))))"
      using live_next_dial_moves [of L "nh_live (nw_host w)"] by blast
    with 7 Pair show ?thesis
      by (auto simp: supervised_ops sent_in_other intro!: lived_other on_live_moves)
  qed
next
  case (8 x ps)
  then show ?case
    by (cases x) (auto simp: supervised_ops intro!: lived_other live_drop_dials_moves)
next
  case (9 x)
  then show ?case by (cases x) (auto simp: supervised_ops intro!: lived_other [OF _ ask_announcer_live])
next
  case (10 x d)
  then show ?case by (cases x) (auto simp: supervised_ops intro!: lived_other [OF _ node_announce_live])
next
  case (11 x)
  then show ?case by (cases x) (auto simp: supervised_ops intro!: lived_other [OF _ ask_announcer_live])
next
  case (12 x)
  then show ?case by (cases x) (auto simp: supervised_ops)
next
  case (13 x)
  obtain w es where x: "x = (w, es)" by fastforce
  show ?case
    using lived_quiet [OF 13 [unfolded x] on_live_moves [where m = "live_clock L", OF live_clock_moves]]
    by (simp add: x supervised_ops on_host_def on_live_eq split_beta)
next
  case (14 x)
  obtain w es where x: "x = (w, es)" by fastforce
  show ?case
    using lived_quiet [OF 14 [unfolded x] on_live_moves [where m = "live_random", OF live_random_moves]]
    by (simp add: x supervised_ops on_host_def on_live_eq split_beta)
next
  case (15 x d)
  then show ?case
    by (cases x) (auto simp: supervised_ops intro!: lived_other on_live_moves live_wait_moves)
next
  case (16 x p)
  then show ?case by (cases x) (auto simp: supervised_ops live_moves.stays intro!: lived_other [where cs = "[]"])
next
  case (17 x p b)
  then show ?case by (cases x) (auto simp: supervised_ops live_moves.stays intro!: lived_other [where cs = "[]"])
next
  case (18 x p q)
  then show ?case by (cases x) (auto simp: supervised_ops live_moves.stays intro!: lived_other [where cs = "[]"])
qed

section \<open>What a started node begins with\<close>

lemma new_host_lived:
  assumes "start_loop L ou setup = Inr s0" and "start_host L ou setup = Inr h"
  shows "fresh_loop s0" and "distinct (map fst (el_native s0))"
    and "known (el_native s0) = configured_pairs (cf_host setup)" and "live_ok L s0 {} (nh_live h)"
proof -
  note s = started_host [OF assms(1) [unfolded start_loop_def]]
  then show "fresh_loop s0" "distinct (map fst (el_native s0))"
    "known (el_native s0) = configured_pairs (cf_host setup)" by simp_all
  let ?h0 = "new_live_host s0 (ou_clock ou) (ou_random ou) (ou_future ou)"
  have "nh_live h = snd (live_wait_for_listener L ?h0)"
    using assms by (auto simp: start_host_def split: prod.splits sum.splits)
  moreover have "live_ok L s0 {} ?h0"
    by (simp add: live_ok_def new_live_host_def senders_of_def)
  ultimately show "live_ok L s0 {} (nh_live h)"
    using live_moves_ok [OF live_listener_moves] by fastforce
qed

lemma open_node_cache_Inr:
  assumes "open_node_cache libs np cli h d db = (Inr (rows, h'), x)"
  shows "live_moves (live_libs_of libs np) (nh_live h) [] (nh_live h')"
    and "cache_typed (initialize db) \<Longrightarrow> cache_typed rows"
proof -
  let ?L = "live_libs_of libs np"
  obtain f1 h1 where f: "next_fault h = (f1, h1)" by fastforce
  obtain d' db' where o: "open_database (np_io np) (nl_parent libs (cli_cache cli)) f1 (d, db) = (Inr (), (d', db'))"
    using assms f by (auto simp: open_node_cache_def split: prod.splits sum.splits)
  obtain clock h2 where c: "on_live (live_clock ?L) h1 = (clock, h2)" by fastforce
  obtain f2 h3 where f2: "next_fault h2 = (f2, h3)" by fastforce
  have r: "\<exists>n. prune_database clock f2 (initialize db') = (Inr n, rows)" and h': "h' = h3"
    using assms f o c f2 by (auto simp: open_node_cache_def split: prod.splits sum.splits)
  have "nh_live h1 = nh_live h" "nh_live h3 = nh_live h2"
    using f f2 next_fault_live by (metis snd_conv)+
  moreover have "nh_live h2 = snd (live_clock ?L (nh_live h1))"
    using c by (auto simp: on_live_eq)
  ultimately show "live_moves ?L (nh_live h) [] (nh_live h')"
    by (simp add: h' live_clock_moves)
  have i: "initialize db' = initialize db"
    using o by (auto simp: open_database_def and_then_Inr_iff on_snd_def on_fst_def on_database_def succeed_def
        initialize_def split: option.splits prod.splits bool.splits)
  show "cache_typed rows" if t: "cache_typed (initialize db)"
  proof -
    obtain now n where "on_database f2 (prune_expired (Inr now)) (initialize db') = (Inr n, rows)"
      using r by (auto simp: prune_database_def split: sum.splits)
    moreover have "cache_typed (snd (on_database f2 (prune_expired (Inr now)) (initialize db')))"
      by (intro on_database_typed prune_typed) (simp_all add: i t)
    ultimately show ?thesis by simp
  qed
qed

lemma prepared:
  assumes "prepare libs np fresh cli ou = (Inr (setup, w), ou')"
  obtains d s0 where "configure libs fresh cli (ou_disk ou) = (Inr setup, d)"
    and "start_loop (live_libs_of libs np) ou setup = Inr s0"
    and "known (el_native s0) = configured_pairs (cf_host setup)"
    and "lived (live_libs_of libs np) s0 (w, [])" and "counted setup (w, [])"
    and "cache_typed (initialize (ou_database ou)) \<Longrightarrow> cache_typed (nw_cache w)"
proof -
  let ?L = "live_libs_of libs np"
  obtain d where d: "configure libs fresh cli (ou_disk ou) = (Inr setup, d)"
    using assms by (auto simp: prepare_def split: prod.splits sum.splits)
  obtain h where h: "start_host ?L ou setup = Inr h"
    using assms d by (auto simp: prepare_def split: prod.splits sum.splits)
  obtain rows h1 d' db where o: "open_node_cache libs np cli h d (ou_database ou) = (Inr (rows, h1), (d', db))"
    using assms d h by (auto simp: prepare_def split: prod.splits sum.splits)
  obtain clock h2 where c: "on_live (live_clock ?L) h1 = (clock, h2)" by fastforce
  have w: "w = new_node_world rows (ou_chain ou) clock d' h2"
    using assms d h o c by (auto simp: prepare_def)
  obtain s0 where s0: "start_loop ?L ou setup = Inr s0"
    using h by (auto simp: start_host_def res_bind_Inr_iff)
  note l = new_host_lived [OF s0 h]
  have "live_moves ?L (nh_live h1) [] (nh_live h2)"
    using c live_clock_moves [of ?L "nh_live h1"] by (auto simp: on_live_eq)
  then have "live_moves ?L (nh_live h) [] (nh_live h2)"
    using live_moves_quiet open_node_cache_Inr(1) [OF o] by blast
  from live_ok_mono [OF live_moves_ok [OF this l(4)]] l(1,2)
  have "lived ?L s0 (w, [])" by (simp add: lived_def w new_node_world_def natives_known_def)
  moreover have "counted setup (w, [])"
    by (simp add: counted_def w new_node_world_def no_telemetry_def count_defs)
  ultimately show ?thesis
    using that [OF d s0 l(3)] open_node_cache_Inr(2) [OF o] by (simp add: w new_node_world_def)
qed

section \<open>End to end\<close>

text \<open>
  An address that a node may dial for a peer: the policy accepts it for that peer, and a record that
  a configured codec verified offers it, signed with a key of the peer.
\<close>

definition verified_offer ::
  "('c, 'p, 'pk, 'sk, 'signer) node_libs \<Rightarrow> endpoint_policy \<Rightarrow> ('c, 'sk) node_setup \<Rightarrow> bytes \<Rightarrow> multiaddr \<Rightarrow> bool"
where
  "verified_offer libs policy setup peer a \<longleftrightarrow>
     accepts policy a (Some peer) NativeServer \<and>
     (\<exists>p. verified (nl_multiaddr libs) policy (cf_codecs setup) (nd_accepted_record_types (cf_descriptor setup)) p \<and>
        pc_record_type p = RECORD_TYPE_LIBP2P \<and> pc_peer_id p = peer \<and>
        (\<exists>ep \<in> set (pc_endpoints p). ep_address ep = ma_show (nl_multiaddr libs) a)) \<and>
     (\<exists>raw. length raw \<le> DEFAULT_MAX_RECORD_BYTES \<and>
        signed_address (nl_multiaddr libs) (nl_libp2p libs) raw peer a)"

lemma dialed_addresses:
  assumes "configure libs fresh cli d = (Inr setup, e)"
    and "policy = (if cli_allow_private_endpoints cli then local_testing else default_endpoint_policy)"
    and "verified (nl_multiaddr libs) policy (cf_codecs setup) (nd_accepted_record_types (cf_descriptor setup)) p"
    and "pc_record_type p = RECORD_TYPE_LIBP2P" and "ep \<in> set (pc_endpoints p)"
  shows "\<exists>a. verified_offer libs policy setup (pc_peer_id p) a \<and> ep_address ep = ma_show (nl_multiaddr libs) a"
proof -
  let ?codec = "libp2p_codec (nl_multiaddr libs) (nl_libp2p libs) policy DEFAULT_MAX_ENDPOINTS_PER_RECORD"
  note build = configured_parts(1) [OF assms(1,2)]
  obtain codec raw c where c: "cf_codecs setup RECORD_TYPE_LIBP2P = Some codec" "length raw \<le> DEFAULT_MAX_RECORD_BYTES"
    "decode_and_verify codec raw NativeServer = Inr c" "pc_peer_id p = pc_peer_id c" "pc_endpoints p = pc_endpoints c"
    using assms(3,4) unfolding verified_def by metis
  note reg = register_codecs_Inr [OF build [unfolded build_codecs_def]]
  have "codec = ?codec"
    using c(1) reg configured_codecs(1) [OF build] by (auto simp: RECORD_TYPE_ENR_def RECORD_TYPE_LIBP2P_def)
  with decode_libp2p_signed [of "nl_multiaddr libs" "nl_libp2p libs" policy DEFAULT_MAX_ENDPOINTS_PER_RECORD raw
      NativeServer c ep] c assms(5) obtain a where "accepts policy a (Some (pc_peer_id p)) NativeServer"
    "ep_address ep = ma_show (nl_multiaddr libs) a"
    "signed_address (nl_multiaddr libs) (nl_libp2p libs) raw (pc_peer_id p) a" by auto
  with c(2) assms(3-5) show ?thesis unfolding verified_offer_def by blast
qed

text \<open>What every property of a living node starts from: its event loop, and the log of its life.\<close>

lemma node_lives:
  assumes "prepare libs np fresh cli ou = (Inr (setup, w0), ou')"
    and "reaches (run_env libs np setup) (run_supervised libs np cli setup) w0 w"
  obtains d s0 es where "configure libs fresh cli (ou_disk ou) = (Inr setup, d)"
    and "start_loop (live_libs_of libs np) ou setup = Inr s0"
    and "known (el_native s0) = configured_pairs (cf_host setup)"
    and "reaches (observed_supervisor (run_env libs np setup)) (run_supervised libs np cli setup) (w0, []) (w, es)"
    and "lived (live_libs_of libs np) s0 (w, es)"
proof -
  obtain es where r: "reaches (observed_supervisor (run_env libs np setup)) (run_supervised libs np cli setup) (w0, []) (w, es)"
    using reaches_observed [OF assms(2)] by blast
  from prepared [OF assms(1)] obtain d s0 where "configure libs fresh cli (ou_disk ou) = (Inr setup, d)"
    "start_loop (live_libs_of libs np) ou setup = Inr s0" "known (el_native s0) = configured_pairs (cf_host setup)"
    "lived (live_libs_of libs np) s0 (w0, [])" by metis
  with that r living.reaches_holds [OF r [unfolded run_env_def]] show thesis by blast
qed

text \<open>Each peer that the supervisor starts to dial has only endpoints that may be dialed.\<close>

lemma started_endpoints:
  assumes "configure libs fresh cli d = (Inr setup, e)"
    and "policy = (if cli_allow_private_endpoints cli then local_testing else default_endpoint_policy)"
    and "reaches (observed_supervisor (run_env libs np setup)) (run_supervised libs np cli setup) (w0, []) (w, es)"
    and "natives_known (ll_text (live_libs_of libs np)) pairs es"
    and "Cycle (DialStarted p t) \<in> set es" and "pc_record_type p = RECORD_TYPE_LIBP2P" and "ep \<in> set (pc_endpoints p)"
  shows "\<exists>a. (verified_offer libs policy setup (pc_peer_id p) a \<or> (pc_peer_id p, a) \<in> pairs) \<and>
    ep_address ep = ma_show (nl_multiaddr libs) a"
proof -
  from node_life_verified [OF assms(1-3) [unfolded run_env_def run_supervised_def] refl] assms(5)
  consider "verified (nl_multiaddr libs) policy (cf_codecs setup) (nd_accepted_record_types (cf_descriptor setup)) p"
    | ns ans where "Cycle (DiscoveredNative ns ans) \<in> set es" "p \<in> set (candidates_of ans)" by blast
  then show ?thesis
  proof cases
    case 1
    with dialed_addresses [OF assms(1,2) _ assms(6,7)] show ?thesis by blast
  next
    case 2
    with assms(4) have "native_offer (ll_text (live_libs_of libs np)) pairs p" by (auto simp: natives_known_def)
    with assms(7) show ?thesis by (auto simp: native_offer_def live_libs_of_def)
  qed
qed

text \<open>
  Callers are conserved: those that ever reached the loop are answered, dropped or waiting.
\<close>

lemma live_conserves:
  assumes "live_ok L s0 cs h" and "fresh_loop s0"
  shows "host_good (lv_loop h)" and "distinct (senders_of h)"
    and "mset (waiting (el_pending (lv_loop h))) + mset (settled (el_log (lv_loop h))) =
      mset (concat (map host_enters (lv_taken h)))"
proof -
  have s: "lv_loop h = run_loop L (lv_taken h) s0" and "distinct (senders_of h)"
    using assms(1) live_ok_distinct [OF assms(1)] by (simp_all add: live_ok_def)
  then show "host_good (lv_loop h)" "distinct (senders_of h)"
    using assms(2) by (auto intro!: host_dialer.good_run simp: fresh_loop_def)
  show "mset (waiting (el_pending (lv_loop h))) + mset (settled (el_log (lv_loop h))) =
      mset (concat (map host_enters (lv_taken h)))"
    using host_dialer.run_conserves [of s0 "ll_multiaddr L" "ll_libp2p L" "ll_text L" "lv_taken h"] assms(2)
    by (simp add: s fresh_loop_def host_held_def)
qed

text \<open>
  C3: end to end, for as long as a node lives and whatever happens outside: each dial that its
  event loop hands to the swarm is for a peer and addresses each of which the endpoint policy
  accepts for that peer and a record offers that a configured codec verified and whose
  signature verifies under a key of that very peer, or which is the operator's own or was
  reported by mDNS or identify. (Addresses and peer ids pass through their text and bytes
  on the way.)
\<close>

theorem node_asks_swarm:
  assumes "prepare libs np fresh cli ou = (Inr (setup, w0), ou')"
    and "reaches (run_env libs np setup) (run_supervised libs np cli setup) w0 w"
    and "policy = (if cli_allow_private_endpoints cli then local_testing else default_endpoint_policy)"
    and "L = live_libs_of libs np" and "host = nh_live (nw_host w)"
  shows "\<exists>s0. start_loop L ou setup = Inr s0 \<and> lv_loop host = run_loop L (lv_taken host) s0 \<and>
    (\<forall>(q, as) \<in> set (swarm_dials L (lv_taken host) s0). as \<noteq> [] \<and>
       (\<forall>a \<in> set as. \<exists>b a'. lp_peer_from_bytes (nl_libp2p libs) b = Inr q \<and>
          ma_parse (nl_multiaddr libs) (ma_show (nl_multiaddr libs) a') = Some a \<and>
          (verified_offer libs policy setup b a' \<or>
           (b, a') \<in> configured_pairs (cf_host setup) \<union> reported_natively (lv_taken host))))"
proof -
  obtain d s0 es where c: "configure libs fresh cli (ou_disk ou) = (Inr setup, d)"
    and s0: "start_loop L ou setup = Inr s0" and k: "known (el_native s0) = configured_pairs (cf_host setup)"
    and r: "reaches (observed_supervisor (run_env libs np setup)) (run_supervised libs np cli setup) (w0, []) (w, es)"
    and l: "lived L s0 (w, es)"
    using node_lives [OF assms(1,2)] unfolding assms(4) by metis
  let ?known = "configured_pairs (cf_host setup) \<union> reported_natively (lv_taken host)"
  have ok: "live_ok L s0 (sent_in es) host" and nat: "natives_known (ll_text L) ?known es"
    using l by (simp_all add: lived_def assms(5) k)
  have dial: "\<exists>b a'. lp_peer_from_bytes (nl_libp2p libs) b = Inr q \<and>
      ma_parse (nl_multiaddr libs) (ma_show (nl_multiaddr libs) a') = Some a \<and>
      (verified_offer libs policy setup b a' \<or> (b, a') \<in> ?known)"
    if dials: "(q, as) \<in> set (swarm_dials L (lv_taken host) s0)" and a: "a \<in> set as" for q as a
  proof -
    obtain p x where p: "CmdDial p x \<in> commands_of (lv_taken host)"
      "pc_record_type p = RECORD_TYPE_LIBP2P" "lp_peer_from_bytes (nl_libp2p libs) (pc_peer_id p) = Inr q"
      "as = List.map_filter (\<lambda>e. ma_parse (nl_multiaddr libs) (ep_address e)) (pc_endpoints p)"
      using swarm_dialed [OF dials] unfolding assms(4) by (metis live_libs_of_def live_libs.simps(1,2))
    from a p(4) obtain ep where ep: "ep \<in> set (pc_endpoints p)" "ma_parse (nl_multiaddr libs) (ep_address ep) = Some a"
      by (auto simp: map_filter_set)
    have "CmdDial p x \<in> sent_in es" using ok p(1) by (auto simp: live_ok_def)
    then obtain t where "Cycle (DialStarted p t) \<in> set es" by (auto simp: sent_in_def)
    from started_endpoints [OF c assms(3) r nat [unfolded assms(4)] this p(2) ep(1)] p(3) ep(2)
    show ?thesis by metis
  qed
  have "as \<noteq> []" if "(q, as) \<in> set (swarm_dials L (lv_taken host) s0)" for q as
    using swarm_dialed [OF that] by blast
  then show ?thesis
    using s0 ok dial by (intro exI [of _ s0]) (auto simp: live_ok_def)
qed

text \<open>
  C10: in the running node every caller of the host that was ever given a sender is in exactly one
  place: answered or dropped (once), waiting for a dial, in the channel, or withdrawn by its
  own call before it could send. None waits for a peer that is connected; when the loop has
  ended, none is left waiting.
\<close>

theorem node_callers:
  assumes "prepare libs np fresh cli ou = (Inr (setup, w0), ou')"
    and "reaches (run_env libs np setup) (run_supervised libs np cli setup) w0 w"
    and "host = nh_live (nw_host w)" and "s = lv_loop host"
    and "places = settled (el_log s) @ waiting (el_pending s) @ concat (map command_senders (lv_channel host)) @
      lv_withdrawn host"
  shows "distinct places \<and> set places = {w. w < lv_next_sender host} \<and>
    (\<forall>p \<in> set (el_connected s). map_of (el_pending s) p = None) \<and>
    host_connected_peers s = card (set (el_connected s)) \<and>
    (\<not> el_running s \<longrightarrow> waiting (el_pending s) = [])"
proof -
  obtain s0 es where "lived (live_libs_of libs np) s0 (w, es)" using node_lives [OF assms(1,2)] by metis
  then have f: "fresh_loop s0" and ok: "live_ok (live_libs_of libs np) s0 (sent_in es) host"
    by (simp_all add: lived_def assms(3))
  note live = live_conserves [OF ok f, folded assms(4)]
  have "mset (senders_of host) + mset (lv_withdrawn host) = mset [0..<lv_next_sender host]"
    using ok unfolding live_ok_def by blast
  moreover have "mset places = mset (senders_of host) + mset (lv_withdrawn host)"
    by (simp add: senders_of_def assms(5) live(3) [symmetric] ac_simps)
  ultimately have m: "mset places = mset [0..<lv_next_sender host]" by (rule trans [rotated])
  have "distinct places" "set places = {w. w < lv_next_sender host}"
    unfolding mset_eq_imp_distinct_iff [OF m] mset_eq_setD [OF m] by auto
  moreover have "map_of (el_pending s) p = None" if "p \<in> set (el_connected s)" for p
    using live(1) that by (auto simp: host_good_def map_of_eq_None_iff)
  ultimately show ?thesis
    using live(1) by (simp add: host_good_def host_connected_peers_def distinct_card)
qed


text \<open>
  C33: the counters of the node are those of its log: as many scans and failed scans as the
  registry answered and failed, and as many announcements as succeeded, by a node that may
  announce (modulo \<open>2 ^ 64\<close>). They are what the status shows.
\<close>

theorem node_counts:
  assumes "prepare libs np fresh cli ou = (Inr (setup, w0), ou')"
    and "reaches (observed_supervisor (run_env libs np setup)) (run_supervised libs np cli setup) (w0, []) (w, es)"
  shows "rt_scans (nw_telemetry w) = word_of_nat (scans_done es) \<and>
    rt_scan_failures (nw_telemetry w) = word_of_nat (scans_failed (nd_namespace (cf_descriptor setup)) es) \<and>
    rt_announcements (nw_telemetry w) =
      (if cli_seed cli then word_of_nat (announcements_made es) else 0) \<and>
    fst (se_telemetry (run_env libs np setup) w) = snapshot (nw_telemetry w)"
proof -
  obtain d where c: "configure libs fresh cli (ou_disk ou) = (Inr setup, d)" and "counted setup (w0, [])"
    using prepared [OF assms(1)] by metis
  then have "counted setup (w, es)"
    using counting.reaches_holds [OF assms(2) [unfolded run_env_def]] by blast
  moreover have "ac_eligible (cf_announcer setup) = cli_seed cli"
    using configure_Inr [OF c] by (metis node_setup_of_def node_setup.simps(10) announcer_config.simps(4))
  ultimately show ?thesis
    by (simp add: counted_def run_env_def node_supervisor_env_def)
qed

section \<open>A concrete node\<close>

text \<open>
  A node without a cache that learns of a peer by mDNS, listens, and is connected to that peer
  and to another when it dials it.
\<close>

definition test_address :: multiaddr where
  "test_address = [Ip4 (ip4 8 8 8 8), Tcp 4001]"

definition test_outside :: "nat outside" where
  "test_outside =
     \<lparr> ou_disk = \<lparr> dk_files = Map.empty, dk_future = [] \<rparr>, ou_database = None, ou_chain = 0,
       ou_build = Inr (), ou_listen_on = (\<lambda>_. True), ou_clock = Some (from_secs 5), ou_random = [],
       ou_future = [SwarmReports (MdnsDiscovered [([2], test_address)]), SwarmReports (NewListenAddr test_address),
         TimeUp, LoopTakes (\<lambda>_ _. Inr ()), LoopTakes (\<lambda>_ _. Inr ()),
         SwarmReports (HostConnectionEstablished [2]), SwarmReports (HostConnectionEstablished [3]), DialReturns 0],
       ou_faults = [] \<rparr>"

definition test_prints :: node_prints where
  "test_prints = \<lparr> np_texts = plain_texts, np_io = (\<lambda>_. ''io''), np_peer = (\<lambda>_. ''12D3''),
     np_paths = \<lparr> pl_parent = (\<lambda>_. None), pl_with_extension = (\<lambda>p e. p @ e), pl_to_json = (\<lambda>_. Inl ''json'') \<rparr> \<rparr>"

definition test_live :: "(unit, unit) live_libs" where
  "test_live = live_libs_of test_libs test_prints"

definition test_loop :: event_loop where
  "test_loop = new_event_loop (ll_text test_live) [1] []"

definition test_listening :: live_host where
  "test_listening =
     \<lparr> lv_loop = run_loop test_live [HostSwarm (MdnsDiscovered [([2], test_address)]),
         HostSwarm (NewListenAddr test_address)] test_loop,
       lv_taken = [HostSwarm (MdnsDiscovered [([2], test_address)]), HostSwarm (NewListenAddr test_address)],
       lv_channel = [], lv_flying = [], lv_withdrawn = [], lv_next_sender = 0, lv_clock = Some (from_secs 5),
       lv_random = [], lv_armed = False, lv_signalled = False, lv_killed = False, lv_future = drop 2 (ou_future test_outside) \<rparr>"

definition mdns_peer :: peer_candidate where
  "mdns_peer =
     \<lparr> pc_record_type = RECORD_TYPE_LIBP2P, pc_peer_id = [2], pc_sequence = 0,
       pc_endpoints = [\<lparr> ep_address = ma_show (nl_multiaddr test_libs) test_address \<rparr>],
       pc_raw_signed_record = [], pc_expires_at = - 1, pc_source = discovery_source_kind.Native,
       pc_announcement_block = None, pc_announcement_log_index = None \<rparr>"

definition test_asked :: live_host where
  "test_asked = snd (live_native_discover test_live (Namespace 7) test_listening)"

definition test_dialing :: live_host where
  "test_dialing = live_connect test_live mdns_peer test_asked"

definition test_dialed :: live_host where
  "test_dialed = snd (live_next_dial test_live test_dialing)"

lemmas live_steps = test_listening_def test_outside_def test_loop_def new_event_loop_def feed_def host_step_def
  host_publish_status_def new_live_host_def Let_def

lemma test_starts: "start_loop test_live test_outside test_setup = Inr test_loop"
  by (simp add: start_loop_def start_def test_outside_def test_setup_def node_setup_defs
      default_host_config_def test_loop_def)

lemma test_listens: "\<exists>status. live_wait_for_listener test_live
     (new_live_host test_loop (Some (from_secs 5)) [] (ou_future test_outside)) = (Inr status, test_listening)"
  by (simp add: live_wait_for_listener_def live_steps)

lemma test_looks: "look test_live test_listening = test_listening"
  by (simp add: look_def live_steps)

lemma test_live_simps [simp]:
  "ht_peer (ll_text test_live) p = ''12D3''" "ht_address (ll_text test_live) a = ''/ip4/8.8.8.8/tcp/4001''"
  "ma_show (nl_multiaddr test_libs) a = ''/ip4/8.8.8.8/tcp/4001''"
  "ma_parse (ll_multiaddr test_live) v = Some test_address" "lp_peer_from_bytes (ll_libp2p test_live) b = Inr b"
  by (simp_all add: test_live_def live_libs_of_def test_prints_def test_libs_def toy_multiaddrs_def toy_lib_def
      test_address_def)

lemmas loop_steps = reply_def native_candidates_def add_addresses_def complete_dials_def dial_def add_waiter_def
  answer_all_def List.insert_def List.map_filter_def

lemma test_native:
  "fst (live_native_discover test_live (Namespace 7) test_listening) = Inr [mdns_peer]"
  "lv_future test_asked = drop 4 (ou_future test_outside)" "lv_flying test_asked = []"
  "lv_next_sender test_asked = 1" "lv_channel test_asked = []"
  by (simp_all add: live_native_discover_def sleep_def new_sender_def live_send_def await_reply_def has_settled_def
      take_command_def native_discover_def request_native_def test_asked_def live_steps loop_steps mdns_peer_def)

definition test_at :: "peer_id list \<Rightarrow> waiters \<Rightarrow> host_reply dial_effect list \<Rightarrow> host_input list \<Rightarrow> command list \<Rightarrow>
    sender list \<Rightarrow> nat \<Rightarrow> happening list \<Rightarrow> live_host" where
  "test_at connected pending log taken channel flying sender future =
     \<lparr> lv_loop = \<lparr> el_running = True, el_local_peer = [1], el_connected = connected,
         el_native = [([2], [test_address])], el_verified = [], el_pending = pending,
         el_listen_addresses = [test_address],
         el_status = \<lparr> hs_peer_id = ''12D3'', hs_listen_addresses = [''/ip4/8.8.8.8/tcp/4001''],
           hs_connected_peers = map (\<lambda>_. ''12D3'') connected, hs_native_discovered_peers = 1 \<rparr>,
         el_log = log \<rparr>,
       lv_taken = taken, lv_channel = channel, lv_flying = flying, lv_withdrawn = [], lv_next_sender = sender,
       lv_clock = Some (from_secs 5), lv_random = [], lv_armed = False, lv_signalled = False, lv_killed = False,
       lv_future = future \<rparr>"

definition test_taken :: "host_input list" where
  "test_taken = [HostSwarm (MdnsDiscovered [([2], test_address)]), HostSwarm (NewListenAddr test_address),
     HostCommand (CmdNativeCandidates 0) \<lparr> he_dial = (\<lambda>_ _. Inr ()), he_is_closed = (\<lambda>w. True) \<rparr>]"

definition test_log :: "host_reply dial_effect list" where
  "test_log = [Published 0, Published 0, Answered 0 (NativeReply [mdns_peer])]"

lemma test_asked_eq:
  "test_asked = test_at [] [] test_log test_taken [] [] 1 (drop 4 (ou_future test_outside))"
  by (simp add: live_native_discover_def sleep_def new_sender_def live_send_def await_reply_def has_settled_def
      take_command_def native_discover_def request_native_def test_asked_def test_at_def test_taken_def test_log_def
      swarm_env_def live_steps loop_steps mdns_peer_def)

lemma test_dialing_eq:
  "test_dialing = test_at [] [] test_log test_taken [CmdDial mdns_peer 1] [1] 2 (drop 4 (ou_future test_outside))"
  by (simp add: test_dialing_def test_asked_eq live_connect_def new_sender_def live_send_def Let_def test_at_def)

definition test_dial_input :: host_input where
  "test_dial_input = HostCommand (CmdDial mdns_peer 1) \<lparr> he_dial = (\<lambda>_ _. Inr ()), he_is_closed = (\<lambda>w. w \<noteq> 1) \<rparr>"

lemma test_dialed_eq:
  "live_next_dial test_live test_dialing =
     (0, test_at [[3], [2]] [] (test_log @ [Published 1, Answered 1 (DialReply (Inr ())), Published 2])
        (test_taken @ [test_dial_input, HostSwarm (HostConnectionEstablished [2]),
           HostSwarm (HostConnectionEstablished [3])]) [] [] 2 [])"
  by (simp add: live_next_dial_def test_dialing_eq test_at_def test_outside_def take_command_def feed_def
      host_step_def dial_def mdns_peer_def test_log_def test_dial_input_def add_waiter_def Let_def swarm_env_def
      host_publish_status_def complete_dials_def List.insert_def List.map_filter_def answer_all_def end_dial_def
      remove_nth_def has_settled_def)

definition test_node :: "disk \<Rightarrow> live_host \<Rightarrow> (nat, node_host) node_world" where
  "test_node d h = new_node_world [] 0 (Some (from_secs 5)) d \<lparr> nh_live = h, nh_faults = [] \<rparr>"

lemma test_node_simps [simp]:
  "nw_host (test_node d h) = \<lparr> nh_live = h, nh_faults = [] \<rparr>"
  "(test_node d h)\<lparr> nw_host := \<lparr> nh_live = v, nh_faults = [] \<rparr> \<rparr> = test_node d v"
  by (simp_all add: test_node_def new_node_world_def)

lemma test_prepared:
  "\<exists>d ou'. prepare test_libs test_prints () test_cli test_outside = (Inr (test_setup, test_node d test_listening), ou')"
proof -
  obtain d where d: "configure test_libs () test_cli (ou_disk test_outside) = (Inr test_setup, d)"
    using test_configured by (auto simp: test_outside_def)
  obtain status where w: "live_wait_for_listener test_live
     (new_live_host test_loop (ou_clock test_outside) (ou_random test_outside) (ou_future test_outside)) =
     (Inr status, test_listening)"
    using test_listens by (auto simp: test_outside_def)
  have h: "start_host test_live test_outside test_setup = Inr \<lparr> nh_live = test_listening, nh_faults = [] \<rparr>"
    by (simp add: start_host_def test_starts w) (simp add: test_outside_def)
  have c: "live_clock test_live test_listening = (Some (from_secs 5), test_listening)"
    unfolding live_clock_def test_looks by (simp add: test_listening_def)
  have o: "open_node_cache test_libs test_prints test_cli \<lparr> nh_live = test_listening, nh_faults = [] \<rparr> d None =
      (Inr ([], \<lparr> nh_live = test_listening, nh_faults = [] \<rparr>), (d, Some []))"
    by (simp add: open_node_cache_def next_fault_def open_database_def test_libs_def and_then_def succeed_def on_snd_def
        on_database_def initialize_def on_live_eq c [unfolded test_live_def test_libs_def] prune_database_def
        cache_unix_time_def prune_expired_def as_secs_def from_secs_def to_i64_def Let_def)
  have out: "ou_database test_outside = None" "ou_chain test_outside = 0" by (simp_all add: test_outside_def)
  show ?thesis
    by (intro exI [of _ d]) (simp add: prepare_def d h [unfolded test_live_def] o out on_live_eq c [unfolded test_live_def] test_node_def)
qed

lemma test_turn:
  "\<exists>v s. supervise_turn (run_env test_libs test_prints test_setup)
       (run_supervised test_libs test_prints test_cli test_setup) initial_state (test_node d test_listening) = (Inr (Continue s), v) \<and>
     nh_live (nw_host v) = snd (live_next_dial test_live test_dialing)"
proof -
  let ?env = "node_env (nl_keccak test_libs) (nl_multiaddr test_libs) (nl_libp2p test_libs) plain_texts (live_ops test_live) test_setup"
  let ?policy = "sv_bootstrap (cf_supervisor_policy test_setup)"
  let ?node = "run_supervised test_libs test_prints test_cli test_setup"
  let ?dialed = "snd (live_next_dial test_live test_dialing)"
  have pol: "bp_minimum_successful_peers ?policy = 2" "bp_maximum_parallel_dials ?policy = 8"
    by (simp_all add: test_setup_def node_setup_defs test_cli_def)
  have n: "live_connected_peers test_live test_listening = (0, test_listening)"
    unfolding live_connected_peers_def test_looks
    by (simp add: host_connected_peers_def live_steps)
  have m: "live_connected_peers test_live ?dialed = (2, ?dialed)" "live_drop_dials ?dialed = ?dialed"
    "live_clock test_live ?dialed = (Some (from_secs 5), ?dialed)"
    by (simp_all add: test_dialed_eq test_at_def live_connected_peers_def look_def host_connected_peers_def
        live_drop_dials_def live_clock_def)
  have k: "live_clock test_live test_listening = (Some (from_secs 5), test_listening)"
    unfolding live_clock_def test_looks by (simp add: test_listening_def)
  have c: "node_cache_discover (nl_keccak test_libs) (live_ops test_live) test_setup (Namespace 7) (test_node d test_listening) =
      (Inr [], test_node d test_listening)"
    by (simp add: node_cache_discover_def test_node_def new_node_world_def next_fault_def on_live_eq k on_database_def
        cache_unix_time_def load_result load_rows_def store_new_def store_ranked_def insert_all_def as_secs_def from_secs_def)
  have nat: "live_native_discover test_live (Namespace 7) test_listening = (Inr [mdns_peer], test_asked)"
    using test_native(1) by (simp add: test_asked_def prod_eq_iff)
  have dials: "live_next_dial test_live test_dialing = (0, ?dialed)" by (simp add: test_dialed_eq)
  have cycle: "\<exists>r. run_cycle ?env ?policy (Namespace 7) (test_node d test_listening) = (Inr r, test_node d ?dialed) \<and> bo_state r = Connected"
    using c m dials nat n
    by (simp add: run_cycle_def node_env_def on_host_def on_live_eq connection_target_def pol dial_found_def dial_candidates_def
        dial_loop.simps refill_def remove_nth_def Let_def test_dialing_def [symmetric]
        connected_outcome_def)
  then obtain r where r: "run_cycle ?env ?policy (Namespace 7) (test_node d test_listening) = (Inr r, test_node d ?dialed)"
    "bo_state r = Connected" by blast
  have s: "se_bootstrap (run_env test_libs test_prints test_setup) = ?env"
    by (simp add: run_env_def node_supervisor_env_def test_prints_def test_live_def)
  have node: "su_namespace ?node = Namespace 7" "su_status_file ?node = None" "su_policy ?node = cf_supervisor_policy test_setup"
    by (simp_all add: run_supervised_def node_supervisor_def new_supervisor_def test_setup_def node_setup_defs test_cli_def)
  have peers: "be_connected_peers ?env (test_node d test_listening) = (0, test_node d test_listening)"
    "be_connected_peers ?env (test_node d ?dialed) = (2, test_node d ?dialed)"
    using n m by (simp_all add: node_env_def on_host_def on_live_eq)
  have rep: "\<exists>a. report_status (run_env test_libs test_prints test_setup) ?node st k via path err (test_node d ?dialed) =
      (Inr a, test_node d ?dialed)" for st k via path err
    using m(3) by (simp add: report_status_def run_env_def node_supervisor_env_def on_host_def on_live_eq
        publish_status_def node succeed_def test_live_def [symmetric])
  show ?thesis
    using rep by (fastforce simp: supervise_turn_def s peers node supervisor_target_def pol bootstrap_turn_def r cycle_status_def
        and_then_def succeed_def Let_def)
qed

lemma test_swarm_dials:
  "swarm_dials test_live (lv_taken (snd (live_next_dial test_live test_dialing))) test_loop = [([2], [test_address])]"
  by (simp add: test_dialed_eq test_at_def test_taken_def test_dial_input_def swarm_dial_def mdns_peer_def test_loop_def
      new_event_loop_def host_step_def host_publish_status_def reply_def Let_def List.map_filter_def dial_def add_waiter_def)

text \<open>A world that the node is in after its first turn.\<close>

definition test_life ::
  "(nat, node_host) node_world \<Rightarrow> nat outside \<Rightarrow> (nat, node_host) node_world \<Rightarrow> bool"
where
  "test_life w0 ou' w \<longleftrightarrow>
     prepare test_libs test_prints () test_cli test_outside = (Inr (test_setup, w0), ou') \<and>
     reaches (run_env test_libs test_prints test_setup) (run_supervised test_libs test_prints test_cli test_setup) w0 w \<and>
     nh_live (nw_host w) = snd (live_next_dial test_live test_dialing)"

lemma test_reached: "\<exists>w0 ou' w. test_life w0 ou' w"
proof -
  obtain d ou' where p: "prepare test_libs test_prints () test_cli test_outside = (Inr (test_setup, test_node d test_listening), ou')"
    using test_prepared by blast
  obtain v s where "supervise_turn (run_env test_libs test_prints test_setup)
       (run_supervised test_libs test_prints test_cli test_setup) initial_state (test_node d test_listening) =
       (Inr (Continue s), v)" and v: "nh_live (nw_host v) = snd (live_next_dial test_live test_dialing)"
    using test_turn by blast
  then have "reaches (run_env test_libs test_prints test_setup) (run_supervised test_libs test_prints test_cli test_setup)
      (test_node d test_listening) v"
    by (intro supervised_reaches [OF supervised.turns [OF supervised.begins]])
  with p v show ?thesis unfolding test_life_def by blast
qed

theorem node_asks_swarm_witness:
  "\<exists>w0 ou' w s0. test_life w0 ou' w \<and> start_loop test_live test_outside test_setup = Inr s0 \<and>
     swarm_dials test_live (lv_taken (nh_live (nw_host w))) s0 = [([2], [test_address])] \<and>
     (\<exists>b a'. lp_peer_from_bytes (nl_libp2p test_libs) b = Inr [2] \<and>
          ma_parse (nl_multiaddr test_libs) (ma_show (nl_multiaddr test_libs) a') = Some test_address \<and>
          (verified_offer test_libs default_endpoint_policy test_setup b a' \<or>
           (b, a') \<in> configured_pairs (cf_host test_setup) \<union> reported_natively (lv_taken (nh_live (nw_host w)))))"
proof -
  obtain w0 ou' w where t: "test_life w0 ou' w" using test_reached by blast
  note r = t [unfolded test_life_def]
  have pol: "default_endpoint_policy = (if cli_allow_private_endpoints test_cli then local_testing else default_endpoint_policy)"
    by (simp add: test_cli_def)
  have d: "swarm_dials test_live (lv_taken (nh_live (nw_host w))) test_loop = [([2], [test_address])]"
    using r test_swarm_dials by simp
  have "\<forall>(q, as) \<in> set (swarm_dials test_live (lv_taken (nh_live (nw_host w))) test_loop). as \<noteq> [] \<and>
       (\<forall>a \<in> set as. \<exists>b a'. lp_peer_from_bytes (nl_libp2p test_libs) b = Inr q \<and>
          ma_parse (nl_multiaddr test_libs) (ma_show (nl_multiaddr test_libs) a') = Some a \<and>
          (verified_offer test_libs default_endpoint_policy test_setup b a' \<or>
           (b, a') \<in> configured_pairs (cf_host test_setup) \<union> reported_natively (lv_taken (nh_live (nw_host w)))))"
    using node_asks_swarm [OF conjunct1 [OF r] conjunct1 [OF conjunct2 [OF r]] pol test_live_def refl] test_starts by auto
  with d have "\<exists>b a'. lp_peer_from_bytes (nl_libp2p test_libs) b = Inr [2] \<and>
      ma_parse (nl_multiaddr test_libs) (ma_show (nl_multiaddr test_libs) a') = Some test_address \<and>
      (verified_offer test_libs default_endpoint_policy test_setup b a' \<or>
       (b, a') \<in> configured_pairs (cf_host test_setup) \<union> reported_natively (lv_taken (nh_live (nw_host w))))"
    unfolding d by (simp del: test_live_simps)
  with t test_starts d show ?thesis by blast
qed

theorem node_callers_witness:
  "\<exists>w0 ou' w. test_life w0 ou' w \<and> settled (el_log (lv_loop (nh_live (nw_host w)))) = [0, 1] \<and>
     {0, 1} = {w'. w' < lv_next_sender (nh_live (nw_host w))} \<and>
     host_connected_peers (lv_loop (nh_live (nw_host w))) = card (set (el_connected (lv_loop (nh_live (nw_host w)))))"
proof -
  obtain w0 ou' w where t: "test_life w0 ou' w" using test_reached by blast
  note r = t [unfolded test_life_def]
  have e: "settled (el_log (lv_loop (nh_live (nw_host w)))) = [0, 1]"
    "waiting (el_pending (lv_loop (nh_live (nw_host w)))) = []"
    "lv_channel (nh_live (nw_host w)) = []" "lv_withdrawn (nh_live (nw_host w)) = []"
    using r by (simp_all add: test_dialed_eq test_at_def test_log_def)
  note c = node_callers [OF conjunct1 [OF r] conjunct1 [OF conjunct2 [OF r]] refl refl refl]
  then have "{0, 1} = {w'. w' < lv_next_sender (nh_live (nw_host w))}"
    by (simp only: e) simp
  with c e(1) t show ?thesis by blast
qed


theorem node_counts_witness:
  "\<exists>w0 ou' w es. test_life w0 ou' w \<and> rt_scans (nw_telemetry w) = word_of_nat (scans_done es)"
proof -
  obtain w0 ou' w where t: "test_life w0 ou' w" using test_reached by blast
  note r = t [unfolded test_life_def]
  from reaches_observed [OF conjunct1 [OF conjunct2 [OF r]]] obtain es where
    "reaches (observed_supervisor (run_env test_libs test_prints test_setup))
       (run_supervised test_libs test_prints test_cli test_setup) (w0, []) (w, es)" by blast
  from node_counts [OF conjunct1 [OF r] this] t show ?thesis by blast
qed

end
