(* ===== verification/Node_Returns.thy ===== *)
theory Node_Returns
  imports Node_Main
begin

text \<open>
  The end of \<open>run\<close> in \<open>crates/resurrect-node/src/main.rs\<close>: a node on a finite future returns, since
  each turn of its supervisor consumes a part of it (an event in between, or a timer), and
  once nothing comes any more the next wait ends by the interrupt signal; a run that
  returns Ok was interrupted, and has stopped its event loop and let all its callers go.
\<close>

section \<open>Rest\<close>

text \<open>The process lives, and no interrupt can come before its handler is in place.\<close>

definition unharmed :: "live_host \<Rightarrow> bool" where
  "unharmed h \<longleftrightarrow> \<not> lv_killed h \<and> (lv_armed h \<or> (\<forall>x \<in> set (lv_future h). \<not> is_interrupt x))"

text \<open>
  Nothing the handle does adds to the future; while the future stays as it is, no swarm event
  reaches the loop, so the connections stay as they are.
\<close>

definition rests :: "live_host \<Rightarrow> live_host \<Rightarrow> bool" where
  "rests h v \<longleftrightarrow> (unharmed h \<longrightarrow> unharmed v) \<and>
     (length (lv_future v) < length (lv_future h) \<or>
      length (lv_future v) = length (lv_future h) \<and>
        (host_good (lv_loop h) \<longrightarrow>
           host_good (lv_loop v) \<and> length (el_connected (lv_loop v)) = length (el_connected (lv_loop h))))"

lemma rests_refl [simp]: "rests h h"
  by (simp add: rests_def)

lemma rests_trans: "rests h v \<Longrightarrow> rests v u \<Longrightarrow> rests h u"
  unfolding rests_def by auto

lemma unharmed_upd [simp]:
  "unharmed (h\<lparr> lv_channel := cs \<rparr>) = unharmed h" "unharmed (h\<lparr> lv_flying := fl \<rparr>) = unharmed h"
  "unharmed (h\<lparr> lv_next_sender := n \<rparr>) = unharmed h" "unharmed (h\<lparr> lv_random := rs \<rparr>) = unharmed h"
  "unharmed (h\<lparr> lv_signalled := b \<rparr>) = unharmed h" "unharmed (h\<lparr> lv_withdrawn := ws \<rparr>) = unharmed h"
  "unharmed (feed L i h) = unharmed h"
  by (simp_all add: unharmed_def feed_def)

lemma rests_upd [simp]:
  "rests (h\<lparr> lv_channel := cs \<rparr>) v = rests h v" "rests (h\<lparr> lv_flying := fl \<rparr>) v = rests h v"
  "rests (h\<lparr> lv_next_sender := n \<rparr>) v = rests h v"
  "rests u (h\<lparr> lv_channel := cs \<rparr>) = rests u h" "rests u (h\<lparr> lv_flying := fl \<rparr>) = rests u h"
  "rests u (h\<lparr> lv_next_sender := n \<rparr>) = rests u h" "rests u (h\<lparr> lv_random := rs \<rparr>) = rests u h"
  "rests u (h\<lparr> lv_signalled := b \<rparr>) = rests u h" "rests u (h\<lparr> lv_withdrawn := ws \<rparr>) = rests u h"
  by (simp_all add: rests_def)

lemma dial_connected [simp]: "el_connected (dial mlib lib env peer w s) = el_connected s"
  by (simp add: dial_def reply_def Let_def split: sum.split)

lemma command_connected: "el_connected (host_step mlib lib text (HostCommand c env) s) = el_connected s"
  by (cases c) (auto simp: host_step_def leave_loop_def reply_def host_publish_status_def Let_def split: sum.split)

lemma feed_command_rests: "rests h (feed L (HostCommand c env) h)"
  using unharmed_upd by (simp add: rests_def) (simp add: feed_def command_connected host_step_good)

lemma fold_feed_rests: "rests h (fold (\<lambda>c. feed L (HostCommand c env)) cs h)"
proof (induction cs arbitrary: h)
  case (Cons c cs)
  from rests_trans [OF feed_command_rests Cons] show ?case by simp
qed simp

lemma close_channel_rests: "rests h (close_channel L h)"
  using fold_feed_rests [of "h\<lparr> lv_channel := [] \<rparr>" L idle_env "lv_channel h"] by (simp add: close_channel_def)

lemma take_command_rests: "rests h (take_command L swarm h)"
proof (cases "lv_channel h")
  case (Cons c cs)
  have "rests h (feed L (HostCommand c (swarm_env swarm h)) (h\<lparr> lv_channel := cs \<rparr>))"
    using feed_command_rests [of "h\<lparr> lv_channel := cs \<rparr>"] by simp
  with Cons rests_trans [OF this close_channel_rests [where L = L]] show ?thesis by (simp add: take_command_def Let_def)
qed (simp add: take_command_def)

lemma take_command_future [simp]: "lv_future (take_command L swarm h) = lv_future h"
proof -
  have "lv_future (fold (\<lambda>c. feed L (HostCommand c env)) cs h) = lv_future h" for cs env h
    by (induction cs arbitrary: h) (simp_all add: feed_def)
  then show ?thesis
    by (simp add: take_command_def close_channel_def Let_def split: list.split) (simp add: feed_def)
qed

lemma work_off_rests: "rests h (work_off L n h)"
proof (induction n arbitrary: h)
  case (Suc n)
  from rests_trans [OF take_command_rests Suc] show ?case by simp
qed simp

lemma happens_future [simp]: "lv_future (happens L x h) = lv_future h"
  by (cases x) (simp_all add: feed_def)

text \<open>Waiting and looking.\<close>

lemma happens_unharmed:
  assumes "\<not> lv_killed h" and "lv_armed h \<or> \<not> is_interrupt x"
  shows "\<not> lv_killed (happens L x h)" and "lv_armed (happens L x h) = lv_armed h"
proof -
  have f: "lv_killed (fold (\<lambda>c. feed L (HostCommand c env)) cs k) = lv_killed k"
    "lv_armed (fold (\<lambda>c. feed L (HostCommand c env)) cs k) = lv_armed k" for env cs k
    by (induction cs arbitrary: k) (simp_all add: feed_def)
  have "lv_killed (take_command L swarm h) = lv_killed h" "lv_armed (take_command L swarm h) = lv_armed h" for swarm
    by (simp_all add: take_command_def close_channel_def f Let_def split: list.split) (simp_all add: feed_def)
  with assms show "\<not> lv_killed (happens L x h)" "lv_armed (happens L x h) = lv_armed h"
    by (cases x; simp add: feed_def)+
qed

lemma await_unharmed:
  "\<not> lv_killed h \<Longrightarrow> lv_armed h \<or> (\<forall>x \<in> set xs. \<not> is_interrupt x) \<Longrightarrow> unharmed (snd (await L ready xs h))"
proof (induction xs arbitrary: h)
  case (Cons x xs)
  have x: "lv_armed h \<or> \<not> is_interrupt x" using Cons.prems by auto
  note k = happens_unharmed [OF Cons.prems(1) x, of L]
  show ?case using Cons.IH [of "happens L x h"] Cons.prems(2) k by (auto simp: Let_def unharmed_def)
qed (simp add: unharmed_def)

lemma drift_unharmed:
  "\<not> lv_killed h \<Longrightarrow> lv_armed h \<or> (\<forall>x \<in> set xs. \<not> is_interrupt x) \<Longrightarrow> unharmed (drift L xs h)"
proof (induction xs arbitrary: h)
  case (Cons x xs)
  have x: "lv_armed h \<or> \<not> is_interrupt x" using Cons.prems by auto
  note k = happens_unharmed [OF Cons.prems(1) x, of L]
  show ?case using Cons.IH [of "happens L x h"] Cons.prems k by (auto simp: unharmed_def)
qed (simp add: unharmed_def)

lemma await_future:
  "length (lv_future (snd (await L ready xs h))) \<le> length xs - 1"
proof (induction xs arbitrary: h)
  case (Cons x xs)
  from Cons.IH [of "happens L x h"] show ?case by (simp add: Let_def, linarith)
qed simp

lemma await_some: "fst (await L ready xs h) = Some x \<Longrightarrow> xs \<noteq> []"
  by auto

lemma await_rests: "rests h (snd (await L ready (lv_future h) h))"
proof -
  have "unharmed h \<longrightarrow> unharmed (snd (await L ready (lv_future h) h))"
    using await_unharmed [of h "lv_future h" L ready] by (auto simp: unharmed_def)
  moreover have "length (lv_future (snd (await L ready (lv_future h) h))) < length (lv_future h)" if "lv_future h \<noteq> []"
    using await_future [of L ready "lv_future h" h] that by (cases "lv_future h") auto
  ultimately show ?thesis by (cases "lv_future h = []") (auto simp: rests_def)
qed

lemma await_shorter:
  assumes "fst (await L ready (lv_future h) h) = Some x"
  shows "length (lv_future (snd (await L ready (lv_future h) h))) < length (lv_future h)"
  using await_some [OF assms] await_future [of L ready "lv_future h" h]
  by (cases "lv_future h") simp_all

lemma drift_future: "length (lv_future (drift L xs h)) \<le> length xs"
proof (induction xs arbitrary: h)
  case (Cons x xs)
  from Cons.IH [of "happens L x h"] show ?case by simp
qed simp

lemma look_rests: "rests h (look L h)"
proof -
  have u: "unharmed h \<longrightarrow> unharmed (look L h)"
    using drift_unharmed [of h "lv_future h" L] by (auto simp: look_def unharmed_def)
  show ?thesis
  proof (cases "lv_future h")
    case Nil
    with u show ?thesis by (simp add: look_def rests_def)
  next
    case (Cons x xs)
    with u show ?thesis
      using drift_future [of L xs "happens L x h"]
      by (cases "in_background x") (auto simp: look_def rests_def)
  qed
qed

section \<open>The operations of the handle\<close>

lemma send_rests: "rests h (snd (live_send L c h))"
  by (simp add: live_send_def feed_command_rests)

lemma await_reply_rests: "rests h (snd (await_reply L w h))"
  using await_rests [of h L "\<lambda>_. has_settled w"]
  by (auto simp: await_reply_def Let_def split: prod.split option.split intro: rests_trans [OF _ work_off_rests])

lemma connect_rests: "rests h (live_connect L p h)"
  using send_rests [of "snd (new_sender (h\<lparr> lv_flying := lv_flying h @ [lv_next_sender h] \<rparr>))" L "CmdDial p (lv_next_sender h)"]
  by (simp add: live_connect_def Let_def new_sender_def)

lemma unsend_rests: "rests h (unsend w h)"
  by (simp add: unsend_def)

lemma end_dial_rests: "rests h (end_dial k h)"
  by (simp add: end_dial_def)

lemma expire_dial_rests: "rests h (expire_dial L k own h)"
proof -
  have "rests h (unsend w (end_dial k h))" for w
    by (rule rests_trans [OF end_dial_rests unsend_rests])
  moreover have "rests h (snd (live_send L c (end_dial k h)))" for c
    by (rule rests_trans [OF end_dial_rests send_rests])
  ultimately show ?thesis by (simp add: expire_dial_def host_connect_def Let_def)
qed

lemma next_dial_rests: "rests h (snd (live_next_dial L h))"
proof -
  obtain x v where x: "await L dial_ends (lv_future h) h = (x, v)" by fastforce
  then have v: "rests h v" using await_rests [of h L dial_ends] by simp
  have "rests h (expire_dial L k own v)" "rests h (end_dial k v)" for k own
    using rests_trans [OF v expire_dial_rests] rests_trans [OF v end_dial_rests] by blast+
  with x show ?thesis by (auto simp: live_next_dial_def split: option.split happening.split)
qed

lemma drop_dials_rests: "rests h (live_drop_dials h)"
proof -
  have "rests h (fold unsend ws h)" for ws
  proof (induction ws arbitrary: h)
    case (Cons w ws)
    from rests_trans [OF unsend_rests Cons] show ?case by simp
  qed simp
  then show ?thesis by (simp add: live_drop_dials_def)
qed

lemma native_rests: "rests h (snd (live_native_discover L ns h))"
proof -
  let ?v = "sleep L h" and ?c = "CmdNativeCandidates (lv_next_sender (sleep L h))"
  have s: "rests h ?v" by (simp add: sleep_def await_rests)
  have u: "rests h (snd (live_send L ?c (snd (new_sender ?v))))"
    using rests_trans [OF s] send_rests [of "snd (new_sender ?v)" L ?c] by (simp add: new_sender_def)
  then have "rests h (snd (await_reply L w (snd (live_send L ?c (snd (new_sender ?v))))))" for w
    by (rule rests_trans [OF _ await_reply_rests])
  with u show ?thesis
    by (auto simp: live_native_discover_def new_sender_def split_beta split: bool.split)
qed

lemma add_rests: "rests h (snd (live_add_verified_peer L p h))"
  using rests_trans [OF look_rests send_rests] by (simp add: live_add_verified_peer_def split_beta)

lemma clock_rests: "rests h (snd (live_clock L h))"
  by (simp add: live_clock_def Let_def look_rests)

lemma random_rests: "rests h (snd (live_random h))"
  by (auto simp: live_random_def split: list.split)

lemma peers_rests: "rests h (snd (live_connected_peers L h))"
  by (simp add: live_connected_peers_def Let_def look_rests)

lemma peers_seen:
  "fst (live_connected_peers L h) = host_connected_peers (lv_loop (snd (live_connected_peers L h)))"
  by (simp add: live_connected_peers_def Let_def)

lemma wait_rests: "rests h (snd (live_wait L h))"
  and wait_shorter: "fst (live_wait L h) = False \<Longrightarrow> length (lv_future (snd (live_wait L h))) < length (lv_future h)"
proof -
  let ?ready = "\<lambda>x _. is_time_up x \<or> is_interrupt x"
  obtain x v where x: "await L ?ready (lv_future h) (h\<lparr> lv_armed := True \<rparr>) = (x, v)" by fastforce
  have "rests h (h\<lparr> lv_armed := True \<rparr>)" by (simp add: rests_def unharmed_def)
  then have v: "rests h v" using x await_rests [of "h\<lparr> lv_armed := True \<rparr>" L ?ready] by (auto intro: rests_trans)
  with x show "rests h (snd (live_wait L h))"
    by (auto simp: live_wait_def split: option.split happening.split)
  show "length (lv_future (snd (live_wait L h))) < length (lv_future h)" if "fst (live_wait L h) = False"
  proof -
    have "x = Some TimeUp" "snd (live_wait L h) = v"
      using that x by (auto simp: live_wait_def split: if_splits option.splits happening.splits)
    with x await_shorter [of L ?ready "h\<lparr> lv_armed := True \<rparr>" TimeUp] show ?thesis by simp
  qed
qed

section \<open>A turn consumes\<close>

text \<open>What a turn sees and does while the future stays as it is.\<close>

definition idle_event :: "nat \<Rightarrow> supervisor_event \<Rightarrow> bool" where
  "idle_event m e = (case e of
       Cycle (SawConnected k) \<Rightarrow> k = m
     | Waited d stop \<Rightarrow> stop
     | _ \<Rightarrow> True)"

definition resting :: "live_host \<Rightarrow> ('c, node_host) node_world \<times> supervisor_event list \<Rightarrow> bool" where
  "resting h0 = (\<lambda>(w, es). host_good (lv_loop h0) \<longrightarrow>
     rests h0 (nh_live (nw_host w)) \<and>
     (length (lv_future (nh_live (nw_host w))) = length (lv_future h0) \<longrightarrow>
        (\<forall>e \<in> set es. idle_event (length (el_connected (lv_loop h0))) e)))"

lemma resting_step:
  assumes "resting h0 (w, es)" and "rests (nh_live (nw_host w)) (nh_live (nw_host v))"
    and "\<And>e. e \<in> set fs \<Longrightarrow> length (lv_future (nh_live (nw_host v))) = length (lv_future (nh_live (nw_host w))) \<Longrightarrow>
      host_good (lv_loop (nh_live (nw_host v))) \<Longrightarrow> idle_event (length (el_connected (lv_loop (nh_live (nw_host v))))) e"
  shows "resting h0 (v, es @ fs)"
proof -
  let ?h = "nh_live (nw_host w)" and ?u = "nh_live (nw_host v)"
  have "\<forall>e \<in> set (es @ fs). idle_event (length (el_connected (lv_loop h0))) e"
    if g: "host_good (lv_loop h0)" and same: "length (lv_future ?u) = length (lv_future h0)"
  proof -
    have r: "rests h0 ?h" using assms(1) g by (simp add: resting_def)
    then have "length (lv_future ?h) = length (lv_future h0)" "length (lv_future ?u) = length (lv_future ?h)"
      using assms(2) same unfolding rests_def by auto
    moreover from this have "host_good (lv_loop ?u)"
      "length (el_connected (lv_loop ?u)) = length (el_connected (lv_loop h0))"
      using r assms(2) g unfolding rests_def by auto
    ultimately show ?thesis using assms(1,3) g by (auto simp: resting_def)
  qed
  then show ?thesis using assms(1) rests_trans [OF _ assms(2)] by (simp add: resting_def)
qed

lemma resting_quiet:
  "resting h0 (w, es) \<Longrightarrow> rests (nh_live (nw_host w)) (nh_live (nw_host v)) \<Longrightarrow> resting h0 (v, es)"
  using resting_step [of h0 w es v "[]"] by simp

text \<open>An event that is always idle.\<close>

lemma resting_other:
  "resting h0 (w, es) \<Longrightarrow> rests (nh_live (nw_host w)) (nh_live (nw_host v)) \<Longrightarrow> (\<And>m. idle_event m e) \<Longrightarrow>
     resting h0 (v, es @ [e])"
  using resting_step [of h0 w es v "[e]"] by simp

lemma on_live_rests:
  assumes "rests (nh_live (nw_host w)) (snd (m (nh_live (nw_host w))))"
  shows "rests (nh_live (nw_host w)) (nh_live (nw_host (snd (on_host (on_live m) w))))"
  using assms by (simp add: on_host_def on_live_def split_beta)

lemma node_cache_rests:
  "rests (nh_live (nw_host w)) (nh_live (nw_host (snd (node_cache_discover keccak (live_ops L) setup ns w))))"
  using clock_rests [of "nh_live (nw_host w)" L] by (simp add: node_cache_discover_def on_live_eq split_beta)

lemma node_announce_rests:
  "rests (nh_live (nw_host w)) (nh_live (nw_host (snd (node_announce mlib lib texts (live_ops L) setup ttl w))))"
  using rests_trans [OF clock_rests random_rests, of "nh_live (nw_host w)" L]
  by (simp add: node_announce_def on_live_eq split_beta)

lemma ask_announcer_rests:
  "rests (nh_live (nw_host w)) (nh_live (nw_host (snd (ask_announcer q (live_ops L) w))))"
  using clock_rests [of "nh_live (nw_host w)" L]
  by (simp add: ask_announcer_def on_host_def on_live_eq split_beta)

lemma idle_event_simps [simp]:
  "idle_event m (Cycle (SawConnected k)) \<longleftrightarrow> k = m" "idle_event m (Waited d b) \<longleftrightarrow> b"
  "idle_event m (File f)" "idle_event m (Cycle (DiscoveredCache ns c))"
  "idle_event m (Cycle (DiscoveredNative ns c))" "idle_event m (Cycle (DiscoveredRegistry ns c))"
  "idle_event m (Cycle (AddVerified p))" "idle_event m (Cycle (DialStarted p t))" "idle_event m (Cycle (DialFinished p))"
  "idle_event m (Cycle (DialsDropped ps))" "idle_event m (Cycle (SawEligible b))"
  "idle_event m (Cycle (SawRenewalDue b))" "idle_event m (Cycle (Announced t a))"
  by (simp_all add: idle_event_def)

lemma resting_peers:
  assumes "resting h0 (w, es)"
  shows "resting h0 (snd (on_host (on_live (live_connected_peers L)) w),
    es @ [Cycle (SawConnected (fst (on_host (on_live (live_connected_peers L)) w)))])"
proof (rule resting_step [OF assms on_live_rests [where m = "live_connected_peers L", OF peers_rests]])
  let ?v = "snd (on_host (on_live (live_connected_peers L)) w)"
  fix e assume e: "e \<in> set [Cycle (SawConnected (fst (on_host (on_live (live_connected_peers L)) w)))]"
    and g: "host_good (lv_loop (nh_live (nw_host ?v)))"
  have "fst (on_host (on_live (live_connected_peers L)) w) = host_connected_peers (lv_loop (nh_live (nw_host ?v)))"
    by (simp add: on_host_def on_live_eq peers_seen)
  with e g show "idle_event (length (el_connected (lv_loop (nh_live (nw_host ?v))))) e"
    by (simp add: host_good_def host_connected_peers_def)
qed

lemma resting_wait:
  assumes "resting h0 (w, es)"
  shows "resting h0 (snd (on_host (on_live (live_wait L)) w), es @ [Waited d (fst (on_host (on_live (live_wait L)) w))])"
proof (rule resting_step [OF assms on_live_rests [where m = "live_wait L", OF wait_rests]])
  let ?v = "snd (on_host (on_live (live_wait L)) w)"
  fix e assume e: "e \<in> set [Waited d (fst (on_host (on_live (live_wait L)) w))]"
    and s: "length (lv_future (nh_live (nw_host ?v))) = length (lv_future (nh_live (nw_host w)))"
  have "fst (on_host (on_live (live_wait L)) w)"
    using s wait_shorter [of L "nh_live (nw_host w)"] by (cases "fst (live_wait L (nh_live (nw_host w)))")
      (simp_all add: on_host_def on_live_eq)
  with e show "idle_event (length (el_connected (lv_loop (nh_live (nw_host ?v))))) e" by simp
qed

interpretation quiet_node: supervisor_invariant
  "observed_supervisor (node_supervisor_env keccak mlib lib texts io_text (live_ops L) cfg gone)" "resting h0"
  for keccak mlib lib texts io_text L h0 and cfg :: "('c, 'sk) node_setup"
proof (unfold_locales, goal_cases)
  case (1 x ns)
  then show ?case by (cases x) (simp add: supervised_ops resting_other node_cache_rests)
next
  case (2 x ns)
  then show ?case by (cases x) (simp add: supervised_ops resting_other on_live_rests native_rests)
next
  case (3 x p)
  then show ?case by (cases x) (simp add: supervised_ops resting_other on_live_rests add_rests)
next
  case (4 x ns)
  then show ?case by (cases x) (simp add: supervised_ops resting_other node_registry_live)
next
  case (5 x)
  then show ?case by (cases x) (simp add: supervised_ops resting_peers)
next
  case (6 x p t)
  then show ?case by (cases x) (simp add: supervised_ops resting_other connect_rests)
next
  case (7 x ps)
  then show ?case by (cases x) (simp add: supervised_ops resting_other on_live_rests next_dial_rests)
next
  case (8 x ps)
  then show ?case by (cases x) (simp add: supervised_ops resting_other drop_dials_rests)
next
  case (9 x)
  then show ?case by (cases x) (simp add: supervised_ops resting_other ask_announcer_rests)
next
  case (10 x d)
  then show ?case by (cases x) (simp add: supervised_ops resting_other node_announce_rests)
next
  case (11 x)
  then show ?case by (cases x) (simp add: supervised_ops resting_other ask_announcer_rests)
next
  case (12 x)
  then show ?case by (cases x) (simp add: supervised_ops)
next
  case (13 x)
  obtain w es where x: "x = (w, es)" by fastforce
  show ?case
    using resting_quiet [OF 13 [unfolded x] on_live_rests [where m = "live_clock L", OF clock_rests]]
    by (simp add: x supervised_ops on_host_def on_live_eq split_beta)
next
  case (14 x)
  obtain w es where x: "x = (w, es)" by fastforce
  show ?case
    using resting_quiet [OF 14 [unfolded x] on_live_rests [where m = "live_random", OF random_rests]]
    by (simp add: x supervised_ops on_host_def on_live_eq split_beta)
next
  case (15 x d)
  then show ?case by (cases x) (simp add: supervised_ops resting_wait)
next
  case (16 x p)
  then show ?case by (cases x) (simp add: supervised_ops resting_other)
next
  case (17 x p b)
  then show ?case by (cases x) (simp add: supervised_ops resting_other)
next
  case (18 x p q)
  then show ?case by (cases x) (simp add: supervised_ops resting_other)
qed

text \<open>A turn after which the supervisor goes on is not idle.\<close>

lemma cycle_connected_saw:
  assumes "cycle_spec policy ns es result" and "cycle_status node result = (Connected, Some source, path, err)"
  shows "\<exists>k. SawConnected k \<in> set es \<and> connection_target policy \<le> k"
proof -
  have saw: "dials_ok policy fl ps True ds \<Longrightarrow> \<exists>k. SawConnected k \<in> set ds \<and> connection_target policy \<le> k" for fl ps ds
    by (auto simp: dials_ok_def)
  from assms show ?thesis by cases (force simp: cycle_status_def dest: saw)+
qed

lemma turn_not_idle:
  assumes "turn_spec node s es (Inr (Continue s'))"
  shows "\<exists>e \<in> set es. \<not> idle_event m e"
  using assms
proof cases
  case (idle n ren err pub stop)
  then show ?thesis by (cases stop) auto
next
  case (cycle_connected n cs result source path k pub)
  from cycle_connected_saw [OF cycle_connected(4,5)] obtain j where "SawConnected j \<in> set cs" "target node \<le> j" by blast
  with cycle_connected(1,3) have "Cycle (SawConnected n) \<in> set es" "Cycle (SawConnected j) \<in> set es" "n \<noteq> j" by auto
  then show ?thesis by (metis idle_event_simps(1))
next
  case (cycle_retried n cs result path err k pub d stop)
  then show ?thesis by (cases stop) auto
qed

text \<open>So the future gets shorter whenever the supervisor goes on.\<close>

lemma turn_consumes:
  assumes "supervise_turn (run_env libs np setup) node s w = (Inr (Continue s'), v)"
    and "host_good (lv_loop (nh_live (nw_host w)))"
  shows "length (lv_future (nh_live (nw_host v))) < length (lv_future (nh_live (nw_host w)))"
proof -
  let ?env = "run_env libs np setup" and ?h = "nh_live (nw_host w)"
  obtain r u es where o: "supervise_turn (observed_supervisor ?env) node s (w, []) = (r, (u, es))"
    by (metis prod.collapse)
  then have "(Inr (Continue s'), v) = (r, u)"
    using unobserved.supervise_turn_morphism [of ?env node s "(w, [])"] assms(1) by simp
  with o have t: "supervise_turn (observed_supervisor ?env) node s (w, []) = (Inr (Continue s'), (v, es))" by simp
  have "resting ?h (w, [])" by (simp add: resting_def)
  then have "resting ?h (snd (supervise_turn (observed_supervisor ?env) node s (w, [])))"
    unfolding run_env_def by (rule quiet_node.supervise_turn_holds)
  then have "resting ?h (v, es)" by (simp add: t)
  with assms(2) have r: "rests ?h (nh_live (nw_host v))"
    and i: "length (lv_future (nh_live (nw_host v))) = length (lv_future ?h) \<Longrightarrow>
      \<forall>e \<in> set es. idle_event (length (el_connected (lv_loop ?h))) e"
    by (simp_all add: resting_def)
  obtain new where "es = [] @ new" "turn_spec node s new (Inr (Continue s'))"
    using supervise_turn_observed [OF t] by blast
  with turn_not_idle i have "length (lv_future (nh_live (nw_host v))) \<noteq> length (lv_future ?h)" by fastforce
  with r show ?thesis unfolding rests_def by linarith
qed

text \<open>The loop of the node is good in every world it reaches.\<close>

lemma lived_good: "lived L s0 (w, es) \<Longrightarrow> host_good (lv_loop (nh_live (nw_host w)))"
  by (auto simp: lived_def live_ok_def fresh_loop_def host_dialer.good_run)

text \<open>A turn that stops has just waited.\<close>

lemma wait_stop:
  assumes "(case se_wait env d w of (True, u) \<Rightarrow> (Inr Stop, u) | (False, u) \<Rightarrow> (Inr (Continue s'), u)) = (Inr Stop, v)"
  shows "se_wait env d w = (True, v)"
  using assms by (cases "se_wait env d w") (auto split: bool.splits)

lemma turn_stop_wait:
  assumes "supervise_turn env node s w = (Inr Stop, v)"
  shows "\<exists>d u. se_wait env d u = (True, v)"
proof -
  obtain n w1 where n: "be_connected_peers (se_bootstrap env) w = (n, w1)" by fastforce
  show ?thesis
  proof (cases "supervisor_target (sv_bootstrap (su_policy node)) \<le> n")
    case True
    obtain err w2 where "renew env node w1 = (err, w2)" by fastforce
    with assms n True show ?thesis
      by (auto simp: supervise_turn_def connected_turn_def and_then_Inr_iff dest!: wait_stop)
  next
    case False
    obtain result w2 where r: "run_cycle (se_bootstrap env) (sv_bootstrap (su_policy node)) (su_namespace node) w1 = (result, w2)"
      by fastforce
    obtain st via path err where c: "cycle_status node result = (st, via, path, err)" by (rule prod_cases4)
    obtain m w3 where m: "be_connected_peers (se_bootstrap env) w2 = (m, w3)" by fastforce
    from assms n False r c m obtain s1 u where "retry env node s1 u = (Inr Stop, v)"
      by (auto simp: supervise_turn_def bootstrap_turn_def and_then_Inr_iff succeed_def Let_def split: if_splits)
    then show ?thesis
      by (cases "se_random env u") (auto simp: retry_def dest!: wait_stop)
  qed
qed

lemma turn_stops_signalled:
  assumes "supervise_turn (run_env libs np setup) node s w = (Inr Stop, v)"
  shows "lv_signalled (nh_live (nw_host v))"
proof -
  have "fst (live_wait L h) \<Longrightarrow> lv_signalled (snd (live_wait L h))" for L :: "('c, 'd) live_libs" and h
    by (auto simp: live_wait_def split: prod.splits option.splits happening.splits)
  with turn_stop_wait [OF assms] show ?thesis
    by (auto simp: run_env_def node_supervisor_env_def on_host_def on_live_eq)
qed

lemma supervise_ends:
  assumes "lived (live_libs_of libs np) s0 (w, es)" and "supervised (run_env libs np setup) node w0 s w"
  shows "(\<exists>v. turn_ends (run_env libs np setup) node w0 v \<and> node_gone libs v) \<or>
    (\<exists>r v es'. supervise (run_env libs np setup) node s w = Some (r, v) \<and>
      lived (live_libs_of libs np) s0 (v, es') \<and>
      (case r of Inl e \<Rightarrow> su_status_file node \<noteq> None | Inr _ \<Rightarrow> lv_signalled (nh_live (nw_host v))))"
  using assms
proof (induction "length (lv_future (nh_live (nw_host w)))" arbitrary: w s es rule: less_induct)
  case less
  let ?env = "run_env libs np setup" and ?L = "live_libs_of libs np"
  have gone: "se_gone ?env = node_gone libs" by (simp add: run_env_def node_supervisor_env_def)
  obtain r v where t: "supervise_turn ?env node s w = (r, v)" by fastforce
  obtain a u es' where o: "supervise_turn (observed_supervisor ?env) node s (w, es) = (a, (u, es'))"
    by (metis prod.collapse)
  then have u: "u = v" "a = r"
    using unobserved.supervise_turn_morphism [of ?env node s "(w, es)"] t by simp_all
  have "lived ?L s0 (snd (supervise_turn (observed_supervisor ?env) node s (w, es)))"
    unfolding run_env_def by (rule living.supervise_turn_holds [OF less.prems(1)])
  then have l: "lived ?L s0 (v, es')" by (simp add: o u)
  consider "node_gone libs v" | (error) e where "\<not> node_gone libs v" "r = Inl e"
    | (stop) "\<not> node_gone libs v" "r = Inr Stop" | (more) s' where "\<not> node_gone libs v" "r = Inr (Continue s')"
    by (cases r) (auto intro: turn.exhaust)
  then show ?case
  proof cases
    case 1
    with t less.prems(2) show ?thesis unfolding turn_ends_def by blast
  next
    case (error e)
    obtain new where "turn_spec node s new (Inl e)" using supervise_turn_observed [OF o] error u by metis
    from turn_end [OF this] show ?thesis using t error l gone by (auto simp: supervise.simps)
  next
    case stop
    then show ?thesis
      using t l gone turn_stops_signalled [of libs np "setup" node s w v] by (auto simp: supervise.simps)
  next
    case (more s')
    have next_turn: "supervised ?env node w0 s' v" using supervised.turns [OF less.prems(2)] t more(2) by simp
    have "supervise ?env node s w = supervise ?env node s' v" using t more gone by (simp add: supervise.simps [of ?env node s w])
    with less.hyps [OF turn_consumes [OF t [unfolded more(2)] lived_good [OF less.prems(1)]] l next_turn]
    show ?thesis by simp
  qed
qed

section \<open>Shutdown\<close>

text \<open>While the loop runs, the shutdown command is in the channel.\<close>

definition stopping :: "('pk, 'sk) live_libs \<Rightarrow> event_loop \<Rightarrow> command set \<Rightarrow> sender \<Rightarrow> live_host \<Rightarrow> bool" where
  "stopping L s0 sent w h \<longleftrightarrow>
     live_ok L s0 sent h \<and> (el_running (lv_loop h) \<longrightarrow> CmdShutdown w \<in> set (lv_channel h))"

lemma stopped_stays: "\<not> el_running s \<Longrightarrow> \<not> el_running (host_step mlib lib text i s)"
  by (simp add: host_step_def)

lemma feed_stopped: "el_running (lv_loop (feed L i h)) \<Longrightarrow> el_running (lv_loop h)"
  by (cases "el_running (lv_loop h)") (simp_all add: feed_def stopped_stays)

lemma fold_feed_stopped: "el_running (lv_loop (fold (\<lambda>c. feed L (HostCommand c env)) cs h)) \<Longrightarrow> el_running (lv_loop h)"
  by (induction cs arbitrary: h) (auto dest: feed_stopped)

lemma take_command_stopping:
  assumes "el_running (lv_loop h) \<Longrightarrow> CmdShutdown w \<in> set (lv_channel h)"
    and "el_running (lv_loop (take_command L swarm h))"
  shows "CmdShutdown w \<in> set (lv_channel (take_command L swarm h))"
proof (cases "lv_channel h")
  case Nil
  with assms show ?thesis by (simp add: take_command_def)
next
  case (Cons c cs)
  let ?u = "feed L (HostCommand c (swarm_env swarm h)) (h\<lparr> lv_channel := cs \<rparr>)"
  have run: "el_running (lv_loop ?u)"
    using assms(2) Cons fold_feed_stopped [of L idle_env _ "?u\<lparr> lv_channel := [] \<rparr>"]
    by (auto simp: take_command_def close_channel_def Let_def split: if_splits)
  then have "el_running (lv_loop h)" using feed_stopped by fastforce
  moreover from this have "c \<noteq> CmdShutdown w"
    using run by (auto simp: feed_def host_step_def)
  ultimately show ?thesis
    using assms(1) Cons run by (simp add: take_command_def Let_def)
qed

lemma happens_stopping: "stopping L s0 sent w h \<Longrightarrow> stopping L s0 sent w (happens L x h)"
  using live_moves_ok [OF happens_moves [of L h x], of s0 sent] take_command_stopping [of h w L]
  by (cases x) (auto simp: stopping_def dest: feed_stopped)

lemma await_stopping:
  assumes "stopping L s0 sent w h"
  shows "stopping L s0 sent w (snd (await L ready xs h))"
  using assms
proof (induction xs arbitrary: h)
  case (Cons x xs)
  from happens_stopping [OF Cons.prems, of x] Cons.IH [of "happens L x h"] show ?case
    by (auto simp: Let_def stopping_def live_ok_def senders_of_def)
qed (simp add: stopping_def live_ok_def senders_of_def)

lemma work_off_empties:
  assumes "stopping L s0 sent w h" and "length (lv_channel h) \<le> n"
  shows "stopping L s0 sent w (work_off L n h) \<and> lv_channel (work_off L n h) = []"
  using assms
proof (induction n arbitrary: h)
  case (Suc n)
  let ?u = "take_command L (\<lambda>_ _. Inl ''no swarm'') h"
  have fold: "lv_channel (fold (\<lambda>c. feed L (HostCommand c env)) cs u) = lv_channel u" for env cs u
    by (induction cs arbitrary: u) simp_all
  have "length (lv_channel ?u) \<le> n"
    using Suc.prems(2) by (auto simp: take_command_def close_channel_def Let_def fold split: list.splits)
  moreover have "stopping L s0 sent w ?u"
    using happens_stopping [OF Suc.prems(1), of "LoopTakes (\<lambda>_ _. Inl ''no swarm'')"] by simp
  ultimately show ?case using Suc.IH by simp
qed simp

text \<open>Whoever still waits in the channel has no answer yet.\<close>

lemma settled_stopped:
  assumes "stopping L s0 sent w h" and "fresh_loop s0" and "has_settled w h"
  shows "\<not> el_running (lv_loop h)"
proof
  assume "el_running (lv_loop h)"
  then have c: "CmdShutdown w \<in> set (lv_channel h)" using assms(1) by (simp add: stopping_def)
  have ok: "lv_loop h = run_loop L (lv_taken h) s0" "distinct (senders_of h)"
    using assms(1) live_ok_distinct by (auto simp: stopping_def live_ok_def)
  have "mset (waiting (el_pending (lv_loop h))) + mset (settled (el_log (lv_loop h))) =
      mset (concat (map host_enters (lv_taken h)))"
    using host_dialer.run_conserves [of s0 "ll_multiaddr L" "ll_libp2p L" "ll_text L" "lv_taken h"] assms(2)
    by (simp add: ok fresh_loop_def host_held_def)
  then have "set (settled (el_log (lv_loop h))) \<subseteq> set (concat (map host_enters (lv_taken h)))"
    by (metis set_mset_mset set_mset_union Un_upper2)
  then have "w \<in> set (concat (map host_enters (lv_taken h)))" using assms(3) by (auto simp: has_settled_def)
  moreover have "w \<in> set (concat (map command_senders (lv_channel h)))" using c by force
  ultimately show False using ok(2) by (auto simp: senders_of_def)
qed

lemma shutdown_stops:
  assumes "live_ok L s0 sent h" and "fresh_loop s0"
  shows "\<not> el_running (lv_loop (live_shutdown L h))"
proof -
  let ?v = "look L h" and ?w = "lv_next_sender (look L h)"
  have v: "live_ok L s0 sent ?v" using live_moves_ok [OF look_moves assms(1)] by simp
  show ?thesis
  proof (cases "el_running (lv_loop ?v)")
    case False
    then show ?thesis
      using stopped_stays by (simp add: live_shutdown_def new_sender_def live_send_def feed_def)
  next
    case True
    let ?u = "snd (live_send L (CmdShutdown ?w) (snd (new_sender ?v)))"
    have "live_ok L s0 (sent \<union> {CmdShutdown ?w}) ?u"
      using live_moves_ok [OF live_send_fresh v, of "CmdShutdown ?w"] by simp
    moreover have "CmdShutdown ?w \<in> set (lv_channel ?u)"
      using True by (simp add: live_send_def new_sender_def)
    ultimately have u: "stopping L s0 (sent \<union> {CmdShutdown ?w}) ?w ?u" by (simp add: stopping_def)
    obtain x t where x: "await L (\<lambda>_. has_settled ?w) (lv_future ?u) ?u = (x, t)" by fastforce
    have t: "stopping L s0 (sent \<union> {CmdShutdown ?w}) ?w t"
      using await_stopping [OF u, of "\<lambda>_. has_settled ?w" "lv_future ?u"] x by simp
    have ready: "has_settled ?w t" if "x = Some y" for y
    proof -
      have "fst (await L (\<lambda>_. has_settled ?w) xs k) = Some y \<Longrightarrow> has_settled ?w (snd (await L (\<lambda>_. has_settled ?w) xs k))"
        for xs k by (induction xs arbitrary: k) (auto simp: Let_def has_settled_def)
      with x that show ?thesis by (metis fst_conv snd_conv)
    qed
    have "\<not> el_running (lv_loop (snd (await_reply L ?w ?u)))"
      using settled_stopped [OF u assms(2)] settled_stopped [OF t assms(2)] ready x
        work_off_empties [OF t order.refl]
      by (auto simp: await_reply_def Let_def stopping_def split: option.split)
    then show ?thesis
      using True by (simp add: live_shutdown_def new_sender_def live_send_def)
  qed
qed

text \<open>The signal, once seen, stays seen.\<close>

lemma fold_feed_signalled [simp]:
  "lv_signalled (fold (\<lambda>c. feed L (HostCommand c env)) cs h) = lv_signalled h"
  by (induction cs arbitrary: h) (simp_all add: feed_def)

lemma take_command_signalled [simp]: "lv_signalled (take_command L swarm h) = lv_signalled h"
  by (simp add: take_command_def close_channel_def Let_def split: list.split) (simp add: feed_def)

lemma happens_signalled: "lv_signalled h \<Longrightarrow> lv_signalled (happens L x h)"
  by (cases x) (simp_all add: feed_def)

lemma await_signalled: "lv_signalled h \<Longrightarrow> lv_signalled (snd (await L ready xs h))"
  by (induction xs arbitrary: h) (simp_all add: Let_def happens_signalled)

lemma drift_signalled: "lv_signalled h \<Longrightarrow> lv_signalled (drift L xs h)"
  by (induction xs arbitrary: h) (simp_all add: happens_signalled)

lemma work_off_signalled [simp]: "lv_signalled (work_off L n h) = lv_signalled h"
  by (induction n arbitrary: h) simp_all

lemma shutdown_signalled:
  assumes "lv_signalled h"
  shows "lv_signalled (live_shutdown L h)"
proof -
  have v: "lv_signalled (look L h)" using assms by (simp add: look_def drift_signalled)
  then have u: "lv_signalled (snd (live_send L c (snd (new_sender (look L h)))))" for c
    by (simp add: live_send_def new_sender_def feed_def)
  have "lv_signalled (snd (await_reply L w u))" if "lv_signalled u" for w u
    using that await_signalled [OF that, of L "\<lambda>_. has_settled w" "lv_future u"]
    by (auto simp: await_reply_def Let_def split: option.split prod.split)
  with u show ?thesis by (auto simp: live_shutdown_def split_beta new_sender_def split: bool.split)
qed

section \<open>The run\<close>

text \<open>After the shutdown of the host every caller that reached its loop has been answered or dropped, once.\<close>

lemma shutdown_answers:
  assumes "live_ok L s0 cs h" and "fresh_loop s0" and "lv_signalled h"
  shows "lv_signalled (live_shutdown L h) \<and> \<not> el_running (lv_loop (live_shutdown L h)) \<and>
    distinct (settled (el_log (lv_loop (live_shutdown L h)))) \<and>
    set (settled (el_log (lv_loop (live_shutdown L h)))) =
      set (concat (map host_enters (lv_taken (live_shutdown L h))))"
proof -
  let ?h = "live_shutdown L h"
  obtain q where "live_ok L s0 (cs \<union> {CmdShutdown q}) ?h"
    using live_shutdown_moves live_moves_ok [OF _ assms(1)] by force
  note live = live_conserves [OF this assms(2)]
  have stop: "\<not> el_running (lv_loop ?h)" by (rule shutdown_stops [OF assms(1,2)])
  then have "waiting (el_pending (lv_loop ?h)) = []" using live(1) by (simp add: host_good_def)
  then have m: "mset (settled (el_log (lv_loop ?h))) = mset (concat (map host_enters (lv_taken ?h)))"
    using live(3) by simp
  have "distinct (settled (el_log (lv_loop ?h)))"
    using live(2) mset_eq_imp_distinct_iff [OF m] by (simp add: senders_of_def)
  with mset_eq_setD [OF m] stop shutdown_signalled [OF assms(3)] show ?thesis by blast
qed


text \<open>
  One unanswered call is enough: were it a receipt that is waited for while the interrupt comes,
  as in a renewal, the interrupt is not looked at, and \<open>run\<close> does not return.
\<close>

lemma unanswered_call_hangs:
  assumes "prepare libs np fresh cli ou = (Inr (setup, w0), ou')"
    and "turn_ends (run_env libs np setup) (run_supervised libs np cli setup) w0 w"
    and "nl_pending libs (nw_chain w)"
  shows "run libs np fresh cli ou = None"
proof -
  have "se_gone (run_env libs np setup) w"
    using assms(3) by (simp add: run_env_def node_supervisor_env_def node_gone_def)
  from gone_never_returns [OF assms(2) this] assms(1) show ?thesis by (simp add: run_def)
qed

text \<open>The test node is not interrupted early, and each of its calls is answered.\<close>

lemma unharmed_stays:
  assumes "reaches (run_env libs np setup) node w0 w" and "host_good (lv_loop (nh_live (nw_host w0)))"
    and "unharmed (nh_live (nw_host w0))"
  shows "unharmed (nh_live (nw_host w))"
proof -
  obtain es where r: "reaches (observed_supervisor (run_env libs np setup)) node (w0, []) (w, es)"
    using reaches_observed [OF assms(1)] by blast
  have "resting (nh_live (nw_host w0)) (w0, [])" by (simp add: resting_def)
  from quiet_node.reaches_holds [OF r [unfolded run_env_def] this] assms(2,3) show ?thesis
    by (simp add: resting_def rests_def)
qed


end
