(* ===== verification/Core_Tests.thy ===== *)
theory Core_Tests
  imports Core_Sample
begin

text \<open>
  The unit tests of \<open>crates/resurrect-core\<close>, run on the model: each test is the conjunction of
  its assertions, over its own fixtures, and is proved to pass. What a test takes from packages
  (the hash, the text of 32-byte values, the JSON library) is an argument, so that it passes
  whatever they compute, under the hypothesis stated. Tests of JSON text are tests of that package
  and are left out.
\<close>

section \<open>Namespaces\<close>

text \<open>The known hash of one preimage, and its text, are what the two packages compute.\<close>

definition derives_stable_namespace :: "(bytes \<Rightarrow> b256) \<Rightarrow> (b256 \<Rightarrow> string) \<Rightarrow> bool" where
  "derives_stable_namespace keccak show_b256 \<longleftrightarrow>
     namespace_display show_b256 (derive keccak ''example-network'' 1) =
       ''0x80b9e2baaf4a666ec32337c351ad59485b3a43eca09a5f372e2f84b981123c88''"

definition known_hash :: "(bytes \<Rightarrow> b256) \<Rightarrow> (b256 \<Rightarrow> string) \<Rightarrow> bool" where
  "known_hash keccak show_b256 \<longleftrightarrow>
     keccak (string_bytes ''resurrect:example-network:1'') =
       0x80b9e2baaf4a666ec32337c351ad59485b3a43eca09a5f372e2f84b981123c88 \<and>
     show_b256 0x80b9e2baaf4a666ec32337c351ad59485b3a43eca09a5f372e2f84b981123c88 =
       ''0x80b9e2baaf4a666ec32337c351ad59485b3a43eca09a5f372e2f84b981123c88''"

lemma stable_preimage: "derive_preimage ''example-network'' 1 = ''resurrect:example-network:1''"
  by (simp add: derive_preimage_def decimal.simps digit_char_def char_of_eq_iff)

lemma stable_namespace: "known_hash keccak show_b256 \<Longrightarrow> derives_stable_namespace keccak show_b256"
  by (simp add: known_hash_def derives_stable_namespace_def namespace_display_def derive_def stable_preimage)

text \<open>Serde hands the text over as a JSON string; the packages read back what they wrote.\<close>

definition serde_round_trip_uses_canonical_hex :: "(bytes \<Rightarrow> b256) \<Rightarrow> (b256 \<Rightarrow> string) \<Rightarrow> (string \<Rightarrow> b256 option) \<Rightarrow> bool" where
  "serde_round_trip_uses_canonical_hex keccak show_b256 parse_b256 \<longleftrightarrow>
     (let ns = derive keccak ''resurrect-test'' 1; json = namespace_serialize show_b256 ns
      in namespace_deserialize parse_b256 (\<lambda>_. ''invalid hex'') json = Inr ns \<and> take 2 json = ''0x'')"

lemma serde_round_trip:
  "(\<And>w. parse_b256 (show_b256 w) = Some w) \<Longrightarrow> (\<And>w. take 2 (show_b256 w) = ''0x'') \<Longrightarrow>
     serde_round_trip_uses_canonical_hex keccak show_b256 parse_b256"
  by (simp add: serde_round_trip_uses_canonical_hex_def namespace_serde Let_def)
    (simp add: namespace_serialize_def namespace_display_def)

definition rejects_short_namespace :: "(string \<Rightarrow> b256 option) \<Rightarrow> bool" where
  "rejects_short_namespace parse_b256 \<longleftrightarrow> namespace_from_str parse_b256 ''0x01'' = Inl InvalidHex"

lemma short_namespace_rejected:
  "(\<And>s b. parse_b256 s = Some b \<Longrightarrow> length s \<in> {64, 66}) \<Longrightarrow> rejects_short_namespace parse_b256"
  by (cases "parse_b256 ''0x01''") (fastforce simp: rejects_short_namespace_def namespace_from_str_def)+

section \<open>Descriptors\<close>

definition descriptor_fixture :: "(bytes \<Rightarrow> b256) \<Rightarrow> network_descriptor" where
  "descriptor_fixture keccak =
     \<lparr> nd_resurrect_version = 1,
       nd_registry = \<lparr> rd_chain_id = 1, rd_address = 0x1111111111111111111111111111111111111111,
         rd_deployment_block = 42, rd_max_ttl_seconds = MAX_TTL_SECONDS \<rparr>,
       nd_namespace = derive keccak ''test'' 1, nd_accepted_record_types = [2, 1] \<rparr>"

definition ethereum_mainnet_constructor_pins_published_deployment :: "(bytes \<Rightarrow> b256) \<Rightarrow> bool" where
  "ethereum_mainnet_constructor_pins_published_deployment keccak \<longleftrightarrow>
     (case ethereum_mainnet (derive keccak ''canonical-deployment-test'' 1) [2] of
        Inl _ \<Rightarrow> False
      | Inr d \<Rightarrow>
          rd_chain_id (nd_registry d) = 1 \<and>
          rd_address (nd_registry d) = 0x136c191B5e6541532E42Ecd7C719C29D7ecdf468 \<and>
          rd_deployment_block (nd_registry d) = 25943058 \<and>
          rd_max_ttl_seconds (nd_registry d) = MAX_TTL_SECONDS \<and>
          validate d = Inr ())"

lemma mainnet_pinned: "ethereum_mainnet_constructor_pins_published_deployment keccak"
  by (simp add: ethereum_mainnet_constructor_pins_published_deployment_def ethereum_mainnet_def validate_def
      ethereum_mainnet_registry_def ETHEREUM_MAINNET_CHAIN_ID_def ETHEREUM_MAINNET_REGISTRY_ADDRESS_def
      ETHEREUM_MAINNET_REGISTRY_DEPLOYMENT_BLOCK_def)

definition validates_version_ttl_codecs_and_chain :: "(bytes \<Rightarrow> b256) \<Rightarrow> bool" where
  "validates_version_ttl_codecs_and_chain keccak \<longleftrightarrow>
     (let d = descriptor_fixture keccak
      in validate (d\<lparr> nd_resurrect_version := 2 \<rparr>) = Inl (UnsupportedVersion 2) \<and>
         (case validate (d\<lparr> nd_registry := (nd_registry d)\<lparr> rd_max_ttl_seconds := 1 \<rparr> \<rparr>) of
            Inl (UnexpectedMaxTtl _ _) \<Rightarrow> True | _ \<Rightarrow> False) \<and>
         validate (d\<lparr> nd_accepted_record_types := [2, 2] \<rparr>) = Inl (DuplicateRecordType 2) \<and>
         (case verify_chain_id d 10 of Inl (DescriptorWrongChain _ _) \<Rightarrow> True | _ \<Rightarrow> False))"

lemma descriptor_validated: "validates_version_ttl_codecs_and_chain keccak"
  by (simp add: validates_version_ttl_codecs_and_chain_def descriptor_fixture_def validate_def
      verify_chain_id_def RESURRECT_VERSION_def MAX_TTL_SECONDS_def)

section \<open>Announcements\<close>

definition candidate_fixture :: "u8 \<Rightarrow> u64 \<Rightarrow> peer_candidate" where
  "candidate_fixture i sequence =
     \<lparr> pc_record_type = 2, pc_peer_id = [i], pc_sequence = sequence,
       pc_endpoints = [\<lparr> ep_address = ''/ip4/192.0.2.'' @ decimal (unat i) @ ''/tcp/4001'' \<rparr>],
       pc_raw_signed_record = [i], pc_expires_at = 100, pc_source = ResurrectRegistry,
       pc_announcement_block = Some sequence, pc_announcement_log_index = Some 0 \<rparr>"

text \<open>The codec indexes its input, which validation keeps from being empty.\<close>

definition codec_fixture :: "u32 \<Rightarrow> peer_codec" where
  "codec_fixture decoded_type =
     \<lparr> codec_record_type = RECORD_TYPE_LIBP2P,
       decode_and_verify = (\<lambda>raw _. Inr ((candidate_fixture (hd raw) 1)\<lparr> pc_record_type := decoded_type \<rparr>)) \<rparr>"

definition announcement_fixture :: "namespace \<Rightarrow> announcement" where
  "announcement_fixture ns =
     \<lparr> an_namespace = ns, an_record_type = RECORD_TYPE_LIBP2P, an_valid_until = 101,
       an_peer_record = [1], an_block_number = 10, an_log_index = 2,
       an_block_hash = Some 0x0303030303030303030303030303030303030303030303030303030303030303 \<rparr>"

definition policy_fixture :: "namespace \<Rightarrow> announcement_policy" where
  "policy_fixture ns =
     \<lparr> ap_expected_namespace = ns, ap_accepted_record_types = [RECORD_TYPE_LIBP2P], ap_chain_time = 100,
       ap_max_record_bytes = DEFAULT_MAX_RECORD_BYTES, ap_max_endpoints = DEFAULT_MAX_ENDPOINTS_PER_RECORD,
       ap_dial_context = NativeServer \<rparr>"

definition announcement_validation_filters_before_and_after_codec :: "(bytes \<Rightarrow> b256) \<Rightarrow> bool" where
  "announcement_validation_filters_before_and_after_codec keccak \<longleftrightarrow>
     (let ns = derive keccak ''validation-test'' 1;
          codecs = register new_registry (codec_fixture RECORD_TYPE_LIBP2P)
      in (case validate_announcement codecs (announcement_fixture ns) (policy_fixture ns) of
            Inl _ \<Rightarrow> False
          | Inr valid \<Rightarrow> pc_expires_at valid = 101 \<and> pc_announcement_block valid = Some 10) \<and>
         validate_announcement codecs (announcement_fixture (derive keccak ''other'' 1)) (policy_fixture ns) =
           Inl WrongNamespace \<and>
         (case validate_announcement codecs ((announcement_fixture ns)\<lparr> an_valid_until := 100 \<rparr>)
             (policy_fixture ns) of Inl (Expired _ _) \<Rightarrow> True | _ \<Rightarrow> False) \<and>
         validate_announcement codecs ((announcement_fixture ns)\<lparr> an_peer_record := [] \<rparr>) (policy_fixture ns) =
           Inl (InvalidRecordSize 0))"

lemmas fixture_defs = candidate_fixture_def codec_fixture_def announcement_fixture_def policy_fixture_def
  RECORD_TYPE_LIBP2P_def DEFAULT_MAX_RECORD_BYTES_def DEFAULT_MAX_ENDPOINTS_PER_RECORD_def
  new_registry_def register_def

lemma announcements_filtered:
  "derive keccak ''other'' 1 \<noteq> derive keccak ''validation-test'' 1 \<Longrightarrow>
     announcement_validation_filters_before_and_after_codec keccak"
  by (simp add: announcement_validation_filters_before_and_after_codec_def Let_def validate_announcement_def fixture_defs)

definition rejects_unregistered_and_mismatched_codecs :: "(bytes \<Rightarrow> b256) \<Rightarrow> bool" where
  "rejects_unregistered_and_mismatched_codecs keccak \<longleftrightarrow>
     (let ns = derive keccak ''validation-test'' 1
      in validate_announcement new_registry (announcement_fixture ns) (policy_fixture ns) =
           Inl (UnsupportedRecordType 2) \<and>
         validate_announcement (register new_registry (codec_fixture 1)) (announcement_fixture ns)
           (policy_fixture ns) = Inl (CodecTypeMismatch 2 1))"

lemma codecs_rejected: "rejects_unregistered_and_mismatched_codecs keccak"
  by (simp add: rejects_unregistered_and_mismatched_codecs_def Let_def validate_announcement_def fixture_defs)

section \<open>The candidate store\<close>

text \<open>Inserting in order: the outcome of each insertion, and the store left.\<close>

fun outcomes ::
  "(bytes \<Rightarrow> b256) \<Rightarrow> peer_candidate list \<Rightarrow> candidate_store \<Rightarrow> candidate_insert list \<times> candidate_store"
where
  "outcomes keccak [] store = ([], store)"
| "outcomes keccak (c # cs) store =
     (let (store', outcome) = store_insert keccak store c; (rest, final) = outcomes keccak cs store'
      in (outcome # rest, final))"

definition newer_sequence_wins_and_older_late_record_is_stale :: "(bytes \<Rightarrow> b256) \<Rightarrow> bool" where
  "newer_sequence_wins_and_older_late_record_is_stale keccak \<longleftrightarrow>
     (case outcomes keccak [candidate_fixture 1 2, candidate_fixture 1 3, candidate_fixture 1 1]
         (store_new default_store_config) of
        (results, store) \<Rightarrow>
          results = [Inserted, Replaced, Stale] \<and> map_option pc_sequence (store_get store 2 [1]) = Some 3)"

lemma key_fixture: "identity_key (candidate_fixture i n) = [0, 0, 0, 2, i]"
  by (simp add: identity_key_def candidate_fixture_def be_bytes_def upt_rec)

lemma newer_wins: "newer_sequence_wins_and_older_late_record_is_stale keccak"
  by (simp add: newer_sequence_wins_and_older_late_record_is_stale_def store_insert_def store_new_def put_def
      identity_key_def store_get_def be_bytes_def upt_rec freshness_of_def less_freshness_def opt_default_def
      candidate_fixture_def default_store_config_def DEFAULT_MAX_ACTIVE_CANDIDATES_def Let_def)

definition same_sequence_uses_newest_chain_position :: "(bytes \<Rightarrow> b256) \<Rightarrow> bool" where
  "same_sequence_uses_newest_chain_position keccak \<longleftrightarrow>
     (let first = (candidate_fixture 1 1)\<lparr> pc_announcement_block := Some 10 \<rparr>;
          second = first\<lparr> pc_announcement_block := Some 11 \<rparr>
      in fst (outcomes keccak [first, second] (store_new default_store_config)) = [Inserted, Replaced])"

lemma newest_position: "same_sequence_uses_newest_chain_position keccak"
  by (simp add: same_sequence_uses_newest_chain_position_def Let_def store_insert_def store_new_def put_def
      identity_key_def freshness_of_def less_freshness_def opt_default_def candidate_fixture_def
      default_store_config_def DEFAULT_MAX_ACTIVE_CANDIDATES_def)

definition spam_is_deterministically_bounded_and_order_independent :: "(bytes \<Rightarrow> b256) \<Rightarrow> bool" where
  "spam_is_deterministically_bounded_and_order_independent keccak \<longleftrightarrow>
     (let config = \<lparr> csc_max_candidates = 16,
            csc_sampling_seed = 0x0707070707070707070707070707070707070707070707070707070707070707 \<rparr>;
          ids = map word_of_nat [0..<256] :: u8 list;
          fwd = insert_all keccak (store_new config) (map (\<lambda>i. candidate_fixture i 1) ids);
          reverse = insert_all keccak (store_new config) (map (\<lambda>i. candidate_fixture i 1) (rev ids))
      in store_len fwd = 16 \<and>
         map pc_peer_id (store_ranked keccak fwd) = map pc_peer_id (store_ranked keccak reverse))"

lemma spam_bounded:
  assumes inj: "inj_on (score keccak \<lparr> csc_max_candidates = 16,
      csc_sampling_seed = 0x0707070707070707070707070707070707070707070707070707070707070707 \<rparr>)
    (range (\<lambda>i :: u8. [0, 0, 0, 2, i]))"
  shows "spam_is_deterministically_bounded_and_order_independent keccak"
proof -
  let ?config = "\<lparr> csc_max_candidates = 16,
    csc_sampling_seed = 0x0707070707070707070707070707070707070707070707070707070707070707 \<rparr>"
  let ?ids = "map word_of_nat [0..<256] :: u8 list"
  let ?cs = "\<lambda>ids. map (\<lambda>i. candidate_fixture i 1) ids"
  let ?store = "\<lambda>ids. insert_all keccak (store_new ?config) (?cs ids)"
  have c: "cs_config (?store ids) = ?config" for ids by (simp add: store_new_def)
  have all: "i \<in> set ?ids" for i :: u8
    using unat_less_pow [of i] by (auto intro!: image_eqI [of _ _ "unat i"] simp del: upt_Suc)
  then have full: "set ?ids = UNIV" by blast
  have "identity_key ` set (?cs ids) = range (\<lambda>i :: u8. [0, 0, 0, 2, i])" if "set ids = UNIV" for ids
    using that by (simp add: image_image key_fixture)
  from this [OF full] this [of "rev ?ids"] full
  have keys: "identity_key ` set (?cs ?ids) = range (\<lambda>i :: u8. [0, 0, 0, 2, i])"
    "identity_key ` set (?cs (rev ?ids)) = range (\<lambda>i :: u8. [0, 0, 0, 2, i])" by (simp_all only: set_rev)
  note smp = sampled_of_new [OF inj [folded keys(1)]] sampled_of_new [OF inj [folded keys(2)]]
  have "card (range (\<lambda>i :: u8. [0, 0, 0, 2, i])) = 256"
    by (subst card_image) (auto intro: injI simp: card_word)
  with sampled_len [OF smp(1)] have "store_len (?store ?ids) = 16"
    by (simp only: keys(1) c) simp
  moreover have "store_ranked keccak (?store ?ids) = store_ranked keccak (?store (rev ?ids))"
  proof (rule ranked_order_independent [OF smp])
    show "set (?cs ?ids) = set (?cs (rev ?ids))" by (simp only: set_map set_rev)
    show "cs_config (?store ?ids) = cs_config (?store (rev ?ids))" by (simp only: c)
    show "inj_on (score keccak (cs_config (?store ?ids))) (identity_key ` set (?cs ?ids))"
      using inj by (simp only: c keys)
    show "inj_on (\<lambda>c. (identity_key c, freshness_of c)) (set (?cs ?ids))"
      by (auto simp: inj_on_def key_fixture simp del: upt_Suc)
  qed
  ultimately show ?thesis
    by (simp add: spam_is_deterministically_bounded_and_order_independent_def Let_def del: upt_Suc)
qed

end
