(* ===== verification/Eth_Tests.thy ===== *)
theory Eth_Tests
  imports Eth_Scan_Chain Eth_Alloy
begin

text \<open>
  The tests of \<open>crates/resurrect-ethereum/src/scanner.rs\<close>, run on the model over the provider and
  the codec of Eth_Mock: each test is the conjunction of its assertions and is proved to pass by
  evaluating its scans block by block, whatever the hash is. The world of a scan is the list of
  log ranges that the provider was asked for. The two tests of \<open>alloy_provider.rs\<close> follow.
\<close>

section \<open>Evaluating scans of the mock\<close>

definition serves_days :: "mock_provider \<Rightarrow> bool" where
  "serves_days m \<longleftrightarrow> (\<forall>n < 100. find (\<lambda>b. bi_number b = n) (mp_blocks m) = Some (mock_block_at n))"

lemma mock_simps:
  "rp_chain_id (mock m) w = (Inr (mp_chain_id m), w)"
  "rp_registry_constants (mock m) a w = (Inr test_registry_constants, w)"
  "rp_block (mock m) (Number n) w = (Inr (find (\<lambda>b. bi_number b = n) (mp_blocks m)), w)"
  "rp_announcements (mock m) a ns f t w =
     (if mp_max_range m < t - f + 1 then Inl (RangeLimit ''test limit'')
      else Inr (filter (in_range f t) (mp_announcements m)), w @ [(f, t)])"
  by (simp_all add: mock_def succeed_def)

lemma day_simps [simp]: "bi_number (mock_block_at n) = n" "bi_timestamp (mock_block_at n) = n * 86400"
  by (simp_all add: mock_block_at_def)

lemma mock_search:
  assumes "serves_days m"
  shows "find_start_block (mock m) 0 100 864000 w = (Inr 10, w)"
    and "find_start_block (mock m) 0 98 691200 w = (Inr 8, w)"
    and "find_start_block (mock m) 0 88 0 w = (Inr 0, w)"
proof -
  have day: "find (\<lambda>b. bi_number b = n) (mp_blocks m) = Some (mock_block_at n)" if "n < 100" for n
    using assms that by (simp add: serves_days_def)
  show "find_start_block (mock m) 0 100 864000 w = (Inr 10, w)"
    by (simp add: find_start_block_def search_loop.simps mock_simps day)
  show "find_start_block (mock m) 0 98 691200 w = (Inr 8, w)"
    by (simp add: find_start_block_def search_loop.simps mock_simps day)
  show "find_start_block (mock m) 0 88 0 w = (Inr 0, w)"
    by (simp add: find_start_block_def search_loop.simps mock_simps day)
qed

lemma test_validated_any:
  assumes "ap_expected_namespace policy = ns" "ap_accepted_record_types policy = [RECORD_TYPE_LIBP2P]"
    and "ap_chain_time policy < 8640001" "2 \<le> ap_max_record_bytes policy" "1 \<le> ap_max_endpoints policy"
  shows "validate_announcement test_codecs (test_announcement ns block [i, n]) policy = Inr (test_candidate i n block)"
  using assms by (auto simp: test_candidate_def validate_announcement_def test_codecs_def register_def test_decode_def
      string_bytes_def)


lemma test_serves_days [simp]: "serves_days (test_provider events)"
  by (simp add: serves_days_def test_provider_def find_block order.strict_implies_order del: upt_Suc)

lemma serves_days_simps [simp]:
  "serves_days (m\<lparr> mp_chain_id := c \<rparr>) = serves_days m" "serves_days (m\<lparr> mp_max_range := r \<rparr>) = serves_days m"
  "serves_days (m\<lparr> mp_supports_finality := b \<rparr>) = serves_days m"
  by (simp_all add: serves_days_def)

lemma test_heads:
  "sc_use_finality_tags config \<Longrightarrow> confirmed_head (mock (test_provider events)) config w = (Inr (mock_block_at 100), w)"
  "sc_use_finality_tags config \<Longrightarrow>
     confirmed_head (mock ((test_provider events)\<lparr> mp_max_range := r \<rparr>)) config w = (Inr (mock_block_at 100), w)"
  by (simp_all add: confirmed_head_def try_tag_def mock_def test_provider_def succeed_def last_map)

lemma fallback_heads:
  "sc_fallback_confirmations config \<le> 100 \<Longrightarrow> 0 < sc_fallback_confirmations config \<Longrightarrow>
   confirmed_head (mock ((test_provider events)\<lparr> mp_supports_finality := False \<rparr>)) config w =
     (Inr (mock_block_at (100 - sc_fallback_confirmations config)), w)"
  "\<not> sc_use_finality_tags config \<Longrightarrow> sc_fallback_confirmations config \<le> 100 \<Longrightarrow>
   0 < sc_fallback_confirmations config \<Longrightarrow>
   confirmed_head (mock (test_provider events)) config w =
     (Inr (mock_block_at (100 - sc_fallback_confirmations config)), w)"
proof -
  have le: "100 - n \<le> 100" if "n \<le> 100" for n :: u64
    using that by (simp add: word_le_nat_alt unat_sub_le)
  show "sc_fallback_confirmations config \<le> 100 \<Longrightarrow> 0 < sc_fallback_confirmations config \<Longrightarrow>
   confirmed_head (mock ((test_provider events)\<lparr> mp_supports_finality := False \<rparr>)) config w =
     (Inr (mock_block_at (100 - sc_fallback_confirmations config)), w)"
  "\<not> sc_use_finality_tags config \<Longrightarrow> sc_fallback_confirmations config \<le> 100 \<Longrightarrow>
   0 < sc_fallback_confirmations config \<Longrightarrow>
   confirmed_head (mock (test_provider events)) config w =
     (Inr (mock_block_at (100 - sc_fallback_confirmations config)), w)"
    by (simp_all add: confirmed_head_def try_tag_def fallback_head_def mock_def test_provider_def proc_defs last_map
        saturating_sub_def find_block le ok_or_def del: upt_Suc)
qed

lemma test_provider_simps [simp]:
  "mp_chain_id (test_provider events) = 31337" "mp_announcements (test_provider events) = events"
  "mp_max_range (test_provider events) = 3"
  by (simp_all add: test_provider_def)

lemma test_descriptor_simps [simp]:
  "rd_chain_id (nd_registry (test_descriptor ns)) = 31337"
  "rd_deployment_block (nd_registry (test_descriptor ns)) = 0"
  "rd_max_ttl_seconds (nd_registry (test_descriptor ns)) = MAX_TTL_SECONDS"
  "nd_namespace (test_descriptor ns) = ns"
  "nd_accepted_record_types (test_descriptor ns) = [RECORD_TYPE_LIBP2P]"
  by (simp_all add: test_descriptor_def)

lemma unsupported_type [simp]: "(999 :: u32) \<noteq> RECORD_TYPE_LIBP2P"
  by (simp add: RECORD_TYPE_LIBP2P_def)

lemma cutoff:
  "saturating_sub 8640000 (ucast MAX_TTL_SECONDS :: u64) = 864000"
  "saturating_sub 8467200 (ucast MAX_TTL_SECONDS :: u64) = 691200"
  "saturating_sub 7603200 (ucast MAX_TTL_SECONDS :: u64) = 0"
  by (simp_all add: saturating_sub_def MAX_TTL_SECONDS_def)

lemma policy_simps [simp]:
  "ap_expected_namespace (scan_policy config (test_descriptor ns) c h) = ns"
  "ap_accepted_record_types (scan_policy config (test_descriptor ns) c h) = [RECORD_TYPE_LIBP2P]"
  "ap_chain_time (scan_policy config (test_descriptor ns) c h) = bi_timestamp h"
  "ap_max_record_bytes (scan_policy config d c h) = unat (rc_max_record_bytes c)"
  "ap_max_endpoints (scan_policy config d c h) = sc_max_endpoints_per_record config"
  by (simp_all add: scan_policy_def)

lemma process_rejected:
  assumes "an_valid_until a \<le> ap_chain_time policy \<or> an_namespace a \<noteq> ap_expected_namespace policy \<or>
    an_record_type a \<notin> set (ap_accepted_record_types policy) \<or> an_peer_record a = string_bytes ''invalid''"
  shows "process_announcement keccak test_codecs policy progress a =
    progress\<lparr> sp_logs_processed := sp_logs_processed progress + 1,
      sp_records_rejected := sp_records_rejected progress + 1 \<rparr>"
proof -
  have "\<exists>e. validate_announcement test_codecs a policy = Inl e"
    using assms by (auto simp: validate_announcement_def test_codecs_def register_def test_decode_def
        new_registry_def split: option.splits)
  then show ?thesis by (auto simp: process_announcement_def Let_def)
qed

lemma process_inserted:
  assumes "ap_expected_namespace policy = ns" "ap_accepted_record_types policy = [RECORD_TYPE_LIBP2P]"
    and "ap_chain_time policy < 8640001" "2 \<le> ap_max_record_bytes policy" "1 \<le> ap_max_endpoints policy"
  shows "process_announcement keccak test_codecs policy progress (test_announcement ns block [i, n]) =
    progress\<lparr> sp_logs_processed := sp_logs_processed progress + 1,
      sp_candidates := fst (store_insert keccak (sp_candidates progress) (test_candidate i n block)) \<rparr>"
  using assms by (simp add: process_announcement_def test_validated_any Let_def)

lemmas scan_start = scan_def and_then_def lift_res_def proc_err_def mock_simps test_validate ensure_def succeed_def
  test_constants detect_reorg_def cutoff mock_search scan_logs_def default_scanner_config_def Let_def

lemmas scan_eval = scan_loop.simps chunk_end_def saturating_add_def saturating_sub_def mock_simps in_range_def
  is_range_limit_def DEFAULT_MAX_LOGS_PER_SCAN_def process_inserted process_rejected
  DEFAULT_MAX_ENDPOINTS_PER_RECORD_def succeed_def Let_def

lemma length_ranked: "length (store_ranked keccak s) = store_len s"
  by (simp add: store_ranked_def store_len_def)

lemmas store_eval = length_ranked store_len_def store_insert_def store_new_def put_def scan_store_config_def
  less_freshness_def DEFAULT_MAX_ACTIVE_CANDIDATES_def Let_def

section \<open>The tests\<close>

abbreviation local_id :: bytes where
  "local_id \<equiv> string_bytes ''local''"

abbreviation scanner_ns :: "(bytes \<Rightarrow> b256) \<Rightarrow> namespace" where
  "scanner_ns keccak \<equiv> derive keccak ''scanner'' 1"

definition scans_only_ttl_window_and_reduces_chunks :: "(bytes \<Rightarrow> b256) \<Rightarrow> bool" where
  "scans_only_ttl_window_and_reduces_chunks keccak \<longleftrightarrow>
     (let ns = derive keccak ''scanner'' 1;
          config = default_scanner_config\<lparr> sc_initial_chunk_size := 20, sc_minimum_chunk_size := 1 \<rparr>
      in case scan keccak (mock (test_provider [test_announcement ns 50 [1, 1]])) test_codecs config
           (test_descriptor ns) (string_bytes ''local'') None [] of
           (Inl _, _) \<Rightarrow> False
         | (Inr report, ranges) \<Rightarrow>
             sr_start_block report = 10 \<and> 0 < sr_chunk_reductions report \<and>
             length (sr_candidates report) = 1 \<and> list_all (\<lambda>(f, t). 10 \<le> f) ranges)"

lemma window_scanned: "scans_only_ttl_window_and_reduces_chunks keccak"
  by (simp add: scans_only_ttl_window_and_reduces_chunks_def scan_start test_heads)
    (simp add: scan_eval, simp add: store_eval)

definition filters_invalid_expired_and_deduplicates_sequences :: "(bytes \<Rightarrow> b256) \<Rightarrow> bool" where
  "filters_invalid_expired_and_deduplicates_sequences keccak \<longleftrightarrow>
     (let ns = scanner_ns keccak;
          expired = (test_announcement ns 60 [3, 1])\<lparr> an_valid_until := 100 * 86400 \<rparr>;
          wrong_namespace = (test_announcement (derive keccak ''other'' 1) 61 [4, 1])
            \<lparr> an_valid_until := 100 * 86400 + 1 \<rparr>;
          unsupported = (test_announcement ns 62 [5, 1])\<lparr> an_record_type := 999 \<rparr>;
          provider = test_provider [test_announcement ns 50 [1, 1], test_announcement ns 51 [1, 2],
            test_announcement ns 52 (string_bytes ''invalid''), expired, wrong_namespace, unsupported];
          config = default_scanner_config\<lparr> sc_initial_chunk_size := 3, sc_minimum_chunk_size := 1 \<rparr>
      in case scan keccak (mock provider) test_codecs config (test_descriptor ns) local_id None [] of
           (Inl _, _) \<Rightarrow> False
         | (Inr report, _) \<Rightarrow>
             sr_logs_processed report = 6 \<and> sr_records_rejected report = 4 \<and>
             length (sr_candidates report) = 1 \<and> pc_sequence (sr_candidates report ! 0) = 2)"

lemma ranked_single: "cs_candidates s = [(k, c)] \<Longrightarrow> store_ranked keccak s = [c]"
  by (simp add: store_ranked_def)

lemma logs_filtered:
  "derive keccak ''other'' 1 \<noteq> scanner_ns keccak \<Longrightarrow> filters_invalid_expired_and_deduplicates_sequences keccak"
  by (simp add: filters_invalid_expired_and_deduplicates_sequences_def scan_start test_heads)
    (simp add: scan_eval, simp add: store_eval ranked_single)

definition rejects_wrong_chain_before_scanning_logs :: "(bytes \<Rightarrow> b256) \<Rightarrow> bool" where
  "rejects_wrong_chain_before_scanning_logs keccak \<longleftrightarrow>
     (case scan keccak (mock ((test_provider [])\<lparr> mp_chain_id := 1 \<rparr>)) test_codecs default_scanner_config
         (test_descriptor (scanner_ns keccak)) local_id None [] of
        (Inl (ScanWrongChain _ _), ranges) \<Rightarrow> ranges = [] | _ \<Rightarrow> False)"

lemma wrong_chain_rejected: "rejects_wrong_chain_before_scanning_logs keccak"
  by (simp add: rejects_wrong_chain_before_scanning_logs_def scan_start fail_def)

definition falls_back_to_confirmations_without_finality_tags :: "(bytes \<Rightarrow> b256) \<Rightarrow> bool" where
  "falls_back_to_confirmations_without_finality_tags keccak \<longleftrightarrow>
     (let config = default_scanner_config\<lparr> sc_initial_chunk_size := 3, sc_minimum_chunk_size := 1,
            sc_fallback_confirmations := 12 \<rparr>
      in case scan keccak (mock ((test_provider [])\<lparr> mp_supports_finality := False \<rparr>)) test_codecs config
           (test_descriptor (scanner_ns keccak)) local_id None [] of
           (Inl _, _) \<Rightarrow> False
         | (Inr report, _) \<Rightarrow> bi_number (sr_head report) = 88)"

lemma confirmations_used: "falls_back_to_confirmations_without_finality_tags keccak"
  by (simp add: falls_back_to_confirmations_without_finality_tags_def scan_start fallback_heads)
    (simp add: scan_eval)

definition can_explicitly_use_confirmations_on_development_chains :: "(bytes \<Rightarrow> b256) \<Rightarrow> bool" where
  "can_explicitly_use_confirmations_on_development_chains keccak \<longleftrightarrow>
     (let config = default_scanner_config\<lparr> sc_initial_chunk_size := 3, sc_minimum_chunk_size := 1,
            sc_fallback_confirmations := 2, sc_use_finality_tags := False \<rparr>
      in case scan keccak (mock (test_provider [])) test_codecs config
           (test_descriptor (scanner_ns keccak)) local_id None [] of
           (Inl _, _) \<Rightarrow> False
         | (Inr report, _) \<Rightarrow> bi_number (sr_head report) = 98)"

lemma confirmations_chosen: "can_explicitly_use_confirmations_on_development_chains keccak"
  by (simp add: can_explicitly_use_confirmations_on_development_chains_def scan_start fallback_heads)
    (simp add: scan_eval)

definition enforces_raw_log_processing_cap :: "(bytes \<Rightarrow> b256) \<Rightarrow> bool" where
  "enforces_raw_log_processing_cap keccak \<longleftrightarrow>
     (let ns = scanner_ns keccak;
          events = map (\<lambda>block. test_announcement ns block [ucast block, 1]) (map word_of_nat [10..<30]);
          config = default_scanner_config\<lparr> sc_initial_chunk_size := 100, sc_minimum_chunk_size := 1,
            sc_max_logs_per_scan := 5 \<rparr>
      in case scan keccak (mock ((test_provider events)\<lparr> mp_max_range := 100 \<rparr>)) test_codecs config
           (test_descriptor ns) local_id None [] of
           (Inl _, _) \<Rightarrow> False
         | (Inr report, _) \<Rightarrow> sr_logs_processed report = 5 \<and> length (sr_candidates report) = 5)"

lemma cap_enforced: "enforces_raw_log_processing_cap keccak"
  by (simp add: enforces_raw_log_processing_cap_def upt_rec scan_start test_heads)
    (simp add: scan_eval, simp add: store_eval)

definition rejects_descriptor_deployed_after_head :: "(bytes \<Rightarrow> b256) \<Rightarrow> bool" where
  "rejects_descriptor_deployed_after_head keccak \<longleftrightarrow>
     (let d = test_descriptor (scanner_ns keccak);
          late = d\<lparr> nd_registry := (nd_registry d)\<lparr> rd_deployment_block := 101 \<rparr> \<rparr>
      in case scan keccak (mock (test_provider [])) test_codecs default_scanner_config late local_id None [] of
           (Inl (DeploymentAfterHead _ _), _) \<Rightarrow> True | _ \<Rightarrow> False)"

lemma late_deployment_rejected: "rejects_descriptor_deployed_after_head keccak"
  by (simp add: rejects_descriptor_deployed_after_head_def scan_start test_heads fail_def
      validate_def test_descriptor_def verify_constants_def RESURRECT_VERSION_def DEFAULT_MAX_RECORD_BYTES_def)

definition detects_reorg_and_rebuilds_candidate_view :: "(bytes \<Rightarrow> b256) \<Rightarrow> bool" where
  "detects_reorg_and_rebuilds_candidate_view keccak \<longleftrightarrow>
     (let ns = scanner_ns keccak;
          provider = test_provider [test_announcement ns 50 [1, 1]];
          config = default_scanner_config\<lparr> sc_initial_chunk_size := 3, sc_minimum_chunk_size := 1 \<rparr>;
          reorged = provider\<lparr> mp_blocks := (mp_blocks provider)[100 := (mp_blocks provider ! 100)
            \<lparr> bi_hash := 0xaaaaaaaaaaaaaaaaaaaaaaaaaaaaaaaaaaaaaaaaaaaaaaaaaaaaaaaaaaaaaaaa \<rparr>] \<rparr>
      in case scan keccak (mock provider) test_codecs config (test_descriptor ns) local_id None [] of
           (Inl _, _) \<Rightarrow> False
         | (Inr report, ranges) \<Rightarrow>
             (case scan keccak (mock reorged) test_codecs config (test_descriptor ns) local_id
                 (Some (sr_checkpoint report)) ranges of
                (Inl _, _) \<Rightarrow> False
              | (Inr second, _) \<Rightarrow> sr_reorg_detected second \<and> length (sr_candidates second) = 1))"

text \<open>The chain after the reorganization: its last block has another hash.\<close>

lemma find_append: "find P (xs @ ys) = (case find P xs of None \<Rightarrow> find P ys | Some x \<Rightarrow> Some x)"
  by (induction xs) auto

lemma days_split:
  "map (mock_block_at \<circ> word_of_nat) [0..<101] = map (mock_block_at \<circ> word_of_nat) [0..<100] @ [mock_block_at 100]"
  by (subst upt_Suc_append [of 0 100, simplified]) simp_all

lemma reorged_days:
  defines "reorged h \<equiv> (map (mock_block_at \<circ> word_of_nat) [0..<100] @ [(mock_block_at 100)\<lparr> bi_hash := h \<rparr>])"
  shows "n < 100 \<Longrightarrow> find (\<lambda>b. bi_number b = n) (reorged h) = Some (mock_block_at n)"
    and "find (\<lambda>b. bi_number b = 100) (reorged h) = Some ((mock_block_at 100)\<lparr> bi_hash := h \<rparr>)"
proof -
  have old: "find (\<lambda>b. bi_number b = n) (map (mock_block_at \<circ> word_of_nat) [0..<100] @ [mock_block_at 100]) =
      (if n \<le> 100 then Some (mock_block_at n) else None)" for n
    using find_block [of n] by (simp only: days_split)
  show "n < 100 \<Longrightarrow> find (\<lambda>b. bi_number b = n) (reorged h) = Some (mock_block_at n)"
    using old [of n] by (auto simp: reorged_def find_append simp del: upt_Suc split: option.splits if_splits)
  have "find (\<lambda>b. bi_number b = 100) (map (mock_block_at \<circ> word_of_nat) [0..<100]) = None"
    by (simp add: find_None_iff upt_rec)
  then show "find (\<lambda>b. bi_number b = 100) (reorged h) = Some ((mock_block_at 100)\<lparr> bi_hash := h \<rparr>)"
    by (simp add: reorged_def find_append del: upt_Suc)
qed

lemma one_record_scanned:
  assumes "serves_days m" "mp_chain_id m = 31337" "mp_max_range m = 3"
    and "mp_announcements m = [test_announcement ns 50 [1, 1]]"
    and "\<And>config w. sc_use_finality_tags config \<Longrightarrow> confirmed_head (mock m) config w = (Inr block, w)"
    and "bi_number block = 100" "bi_timestamp block = 8640000"
    and "\<And>w. detect_reorg (mock m) previous w = (Inr reorged, w)"
  shows "\<exists>report v. scan keccak (mock m) test_codecs
      (default_scanner_config\<lparr> sc_initial_chunk_size := 3, sc_minimum_chunk_size := 1 \<rparr>)
      (test_descriptor ns) local_id previous w = (Inr report, v) \<and>
    sr_reorg_detected report = reorged \<and> length (sr_candidates report) = 1 \<and>
    sr_checkpoint report = \<lparr> ck_number = 100, ck_hash = bi_hash block \<rparr>"
  by (simp add: scan_def and_then_def lift_res_def proc_err_def mock_simps test_validate ensure_def succeed_def
      test_constants cutoff mock_search scan_logs_def default_scanner_config_def Let_def assms)
    (simp add: scan_eval assms, simp add: store_eval)

lemma reorg_detected: "detects_reorg_and_rebuilds_candidate_view keccak"
proof -
  let ?h = "0xaaaaaaaaaaaaaaaaaaaaaaaaaaaaaaaaaaaaaaaaaaaaaaaaaaaaaaaaaaaaaaaa :: b256"
  let ?block = "(mock_block_at 100)\<lparr> bi_hash := ?h \<rparr>" and ?ns = "scanner_ns keccak"
  have hash: "?h \<noteq> bi_hash (mock_block_at 100)" by (simp add: mock_block_at_def repeated_hash_def upt_rec)
  define m where "m = test_provider [test_announcement ?ns 50 [1, 1]]"
  define m' where "m' = m\<lparr> mp_blocks := (mp_blocks m)[100 := (mp_blocks m ! 100)\<lparr> bi_hash := ?h \<rparr>] \<rparr>"
  have blocks: "mp_blocks m' = map (mock_block_at \<circ> word_of_nat) [0..<100] @ [?block]"
    unfolding m'_def m_def test_provider_def by (simp add: days_split nth_append list_update_append del: upt_Suc)
  have head: "confirmed_head (mock m) config w = (Inr (mock_block_at 100), w)"
    "confirmed_head (mock m') config w = (Inr ?block, w)" if "sc_use_finality_tags config" for config w
    using that by (simp_all add: m_def test_heads)
      (simp add: confirmed_head_def try_tag_def mock_def blocks succeed_def, simp add: m'_def m_def test_provider_def)
  have first: "detect_reorg (mock m) None w = (Inr False, w)" for w by (simp add: detect_reorg_def succeed_def)
  have second: "detect_reorg (mock m') (Some \<lparr> ck_number = 100, ck_hash = bi_hash (mock_block_at 100) \<rparr>) w = (Inr True, w)" for w
    using hash by (simp add: detect_reorg_def proc_defs mock_simps blocks reorged_days del: upt_Suc)
  obtain report v where 1: "scan keccak (mock m) test_codecs
      (default_scanner_config\<lparr> sc_initial_chunk_size := 3, sc_minimum_chunk_size := 1 \<rparr>)
      (test_descriptor ?ns) local_id None [] = (Inr report, v)"
    "sr_checkpoint report = \<lparr> ck_number = 100, ck_hash = bi_hash (mock_block_at 100) \<rparr>"
    using one_record_scanned [of m ?ns "mock_block_at 100" None False keccak "[]"] head(1) first by (auto simp: m_def)
  obtain report' v' where 2: "scan keccak (mock m') test_codecs
      (default_scanner_config\<lparr> sc_initial_chunk_size := 3, sc_minimum_chunk_size := 1 \<rparr>)
      (test_descriptor ?ns) local_id (Some (sr_checkpoint report)) v = (Inr report', v')"
    "sr_reorg_detected report'" "length (sr_candidates report') = 1"
    using one_record_scanned [of m' ?ns ?block "Some (sr_checkpoint report)" True keccak v] head(2) second 1(2) blocks
    by (auto simp: serves_days_def reorged_days simp del: upt_Suc) (auto simp: m'_def m_def)
  show ?thesis
    unfolding detects_reorg_and_rebuilds_candidate_view_def Let_def m_def [symmetric] m'_def [symmetric]
    using 1 2 by simp
qed

section \<open>The JSON-RPC provider\<close>

text \<open>The URL parser gives a URL's scheme; the client is never called.\<close>

definition rejects_non_http_urls_without_leaking_credentials ::
  "(string \<Rightarrow> string + string) \<Rightarrow> (string \<Rightarrow> ('w, 'p) eth_rpc) \<Rightarrow> bool"
where
  "rejects_non_http_urls_without_leaking_credentials parse client \<longleftrightarrow>
     (case read_only parse client ''file:///tmp/node.ipc'' of Inl (Configuration _) \<Rightarrow> True | _ \<Rightarrow> False)"

definition read_only_provider_refuses_publication_before_network_io ::
  "(string \<Rightarrow> string + string) \<Rightarrow> (string \<Rightarrow> ('w, 'p) eth_rpc) \<Rightarrow> 'w \<Rightarrow> bool"
where
  "read_only_provider_refuses_publication_before_network_io parse client w \<longleftrightarrow>
     (case read_only parse client ''http://127.0.0.1:1'' of
        Inl _ \<Rightarrow> False
      | Inr provider \<Rightarrow> rp_announce provider 0 (Namespace 0) 2 1 [1] w = (Inl ReadOnly, w))"

lemma non_http_rejected:
  "parse ''file:///tmp/node.ipc'' = Inr ''file'' \<Longrightarrow> rejects_non_http_urls_without_leaking_credentials parse client"
  by (simp add: rejects_non_http_urls_without_leaking_credentials_def read_only_def parse_url_def)

lemma publication_refused:
  "parse ''http://127.0.0.1:1'' = Inr ''http'' \<Longrightarrow>
     read_only_provider_refuses_publication_before_network_io parse client w"
  by (simp add: read_only_provider_refuses_publication_before_network_io_def read_only_def parse_url_def
      alloy_provider_def alloy_announce_def proc_defs)

end
