(* ===== verification/Bootstrap_Tests.thy ===== *)
theory Bootstrap_Tests
  imports Bootstrap
begin

text \<open>
  The tests of \<open>crates/resurrect-bootstrap/src/lib.rs\<close>, run on the model: its in-memory sources,
  connectors and publisher as one environment, and each test as the conjunction of its
  assertions, proved to pass by evaluating the cycle. What the test doubles count is the world;
  its clock only advances when a dial ends by its timeout.
\<close>

section \<open>The test doubles\<close>

record counter_world =
  tw_added :: "bytes list"
  tw_connected :: nat
  tw_announced :: bool
  tw_dial_timeout :: duration
  tw_elapsed :: duration

definition fresh_world :: counter_world where
  "fresh_world = \<lparr> tw_added = [], tw_connected = 0, tw_announced = False, tw_dial_timeout = 0, tw_elapsed = 0 \<rparr>"

record source_double =
  ts_peers :: "peer_candidate list"
  ts_fail :: bool

definition default_source :: source_double where
  "default_source = \<lparr> ts_peers = [], ts_fail = False \<rparr>"

definition source_discover :: "source_double \<Rightarrow> namespace \<Rightarrow> (counter_world, bootstrap_error, peer_candidate list) proc" where
  "source_discover source ns = (if ts_fail source then fail (Discovery ''expected'') else succeed (ts_peers source))"

definition source_add_verified :: "peer_candidate \<Rightarrow> (counter_world, bootstrap_error, unit) proc" where
  "source_add_verified peer w = (Inr (), w\<lparr> tw_added := tw_added w @ [pc_peer_id peer] \<rparr>)"

datatype test_connector = Connector bool | HangingConnector

text \<open>A connector that answers does so at once; one that hangs leaves its dial to the timeout.\<close>

fun connector_connect :: "test_connector \<Rightarrow> peer_candidate \<Rightarrow> duration \<Rightarrow> counter_world \<Rightarrow> counter_world" where
  "connector_connect (Connector succeeds) peer timeout w =
     (if succeeds then w\<lparr> tw_connected := tw_connected w + 1 \<rparr> else w)"
| "connector_connect HangingConnector peer timeout w = w\<lparr> tw_dial_timeout := timeout \<rparr>"

fun connector_next :: "test_connector \<Rightarrow> peer_candidate list \<Rightarrow> counter_world \<Rightarrow> nat \<times> counter_world" where
  "connector_next (Connector succeeds) flying w = (0, w)"
| "connector_next HangingConnector flying w = (0, w\<lparr> tw_elapsed := tw_elapsed w + tw_dial_timeout w \<rparr>)"

fun connector_connected :: "test_connector \<Rightarrow> counter_world \<Rightarrow> nat \<times> counter_world" where
  "connector_connected (Connector succeeds) w = (tw_connected w, w)"
| "connector_connected HangingConnector w = (0, w)"

definition publisher_announce :: "duration \<Rightarrow> (counter_world, bootstrap_error, unit) proc" where
  "publisher_announce ttl w = (Inr (), w\<lparr> tw_announced := True \<rparr>)"

definition controller ::
  "source_double \<Rightarrow> source_double \<Rightarrow> source_double \<Rightarrow> test_connector \<Rightarrow> bool \<Rightarrow> counter_world bootstrap_env"
where
  "controller cache native registry connector eligible =
     \<lparr> be_cache_discover = source_discover cache, be_native_discover = source_discover native,
       be_add_verified_peer = source_add_verified, be_registry_discover = source_discover registry,
       be_connected_peers = connector_connected connector, be_connect = connector_connect connector,
       be_next_dial = connector_next connector, be_drop_dials = (\<lambda>_ w. w),
       be_eligible = (\<lambda>w. (eligible, w)), be_renewal_due = (\<lambda>w. (False, w)),
       be_announce = publisher_announce \<rparr>"

definition peer_fixture :: "u8 \<Rightarrow> peer_candidate" where
  "peer_fixture i =
     \<lparr> pc_record_type = 2, pc_peer_id = [i], pc_sequence = 1,
       pc_endpoints = [\<lparr> ep_address = ''/ip4/127.0.0.1/tcp/4001'' \<rparr>], pc_raw_signed_record = [i],
       pc_expires_at = - 1, pc_source = ResurrectRegistry, pc_announcement_block = None,
       pc_announcement_log_index = None \<rparr>"

definition short_policy :: bootstrap_policy where
  "short_policy = default_bootstrap_policy
     \<lparr> bp_minimum_successful_peers := 1, bp_per_dial_timeout := from_millis 10 \<rparr>"

section \<open>The tests\<close>

definition follows_cache_native_registry_order_and_stops_connected :: bool where
  "follows_cache_native_registry_order_and_stops_connected \<longleftrightarrow>
     (let cache = default_source\<lparr> ts_fail := True \<rparr>;
          registry = default_source\<lparr> ts_peers := [peer_fixture 1] \<rparr>
      in case run_cycle (controller cache default_source registry (Connector True) True) short_policy
           (Namespace 0) fresh_world of
           (Inl _, _) \<Rightarrow> False
         | (Inr outcome, w) \<Rightarrow>
             bo_state outcome = Connected \<and> bo_connected_via outcome = Some ResurrectScan \<and>
             \<not> bo_announced outcome \<and> tw_added w = [[1]])"

definition isolated_eligible_node_announces_and_backs_off :: bool where
  "isolated_eligible_node_announces_and_backs_off \<longleftrightarrow>
     (case run_cycle (controller default_source default_source default_source (Connector False) True)
         short_policy (Namespace 0) fresh_world of
        (Inl _, _) \<Rightarrow> False
      | (Inr outcome, w) \<Rightarrow> bo_state outcome = Backoff \<and> bo_announced outcome \<and> tw_announced w)"

definition light_node_never_announces_when_isolated :: bool where
  "light_node_never_announces_when_isolated \<longleftrightarrow>
     (case run_cycle (controller default_source default_source default_source (Connector False) False)
         short_policy (Namespace 0) fresh_world of
        (Inl _, _) \<Rightarrow> False
      | (Inr outcome, w) \<Rightarrow> \<not> bo_announced outcome \<and> \<not> tw_announced w)"

definition dead_record_timeout_cannot_stall_later_discovery_cycles :: bool where
  "dead_record_timeout_cannot_stall_later_discovery_cycles \<longleftrightarrow>
     (let registry = default_source\<lparr> ts_peers := [peer_fixture 1] \<rparr>;
          bounded = short_policy\<lparr> bp_per_dial_timeout := from_millis 1 \<rparr>
      in case run_cycle (controller default_source default_source registry HangingConnector False) bounded
           (Namespace 0) fresh_world of
           (Inl _, _) \<Rightarrow> False
         | (Inr outcome, w) \<Rightarrow> tw_elapsed w \<le> from_millis 100 \<and> bo_state outcome = Backoff)"

lemmas cycle_eval = run_cycle_def controller_def default_source_def source_discover_def source_add_verified_def
  fresh_world_def short_policy_def default_bootstrap_policy_def connection_target_def connected_outcome_def
  dial_found_def dial_candidates_def dial_loop.simps refill_def remove_nth_def add_verified_peers_def
  promote_def publisher_announce_def proc_defs Let_def

lemma order_followed: "follows_cache_native_registry_order_and_stops_connected"
  by (simp add: follows_cache_native_registry_order_and_stops_connected_def cycle_eval) (simp add: peer_fixture_def)

lemma isolated_announces: "isolated_eligible_node_announces_and_backs_off"
  by (simp add: isolated_eligible_node_announces_and_backs_off_def cycle_eval)

lemma light_node_silent: "light_node_never_announces_when_isolated"
  by (simp add: light_node_never_announces_when_isolated_def cycle_eval)

lemma dead_record_bounded: "dead_record_timeout_cannot_stall_later_discovery_cycles"
  by (simp add: dead_record_timeout_cannot_stall_later_discovery_cycles_def cycle_eval from_millis_def)

end
