(* ===== verification/Libp2p_Tests.thy ===== *)
theory Libp2p_Tests
  imports Libp2p_Behaviour
begin

text \<open>
  The tests of \<open>crates/resurrect-libp2p\<close>, run on the model: each is the conjunction of its
  assertions and is proved to pass. The libraries stay arguments, with what a test takes from
  them as its hypothesis: how a multiaddr text parses, that a fresh key signs, that a changed
  signature is not valid. An \<open>unwrap\<close> that would panic fails its test.
\<close>

section \<open>Addresses\<close>

text \<open>What the multiaddr package makes of the texts in the tests.\<close>

definition tcp4 :: "ipv4 \<Rightarrow> multiaddr" where
  "tcp4 ip = [Ip4 ip, Tcp 4001]"

definition test_wss :: multiaddr where
  "test_wss = [OtherProtocol ''dns4/example.com'', Tcp 443, Wss ''/'']"

abbreviation local_address :: string where
  "local_address \<equiv> ''/ip4/127.0.0.1/tcp/4001''"

definition reads_addresses :: "multiaddr_lib \<Rightarrow> bool" where
  "reads_addresses mlib \<longleftrightarrow>
     ma_parse mlib local_address = Some (tcp4 (ip4 127 0 0 1)) \<and>
     ma_parse mlib ''/ip4/10.0.0.1/tcp/4001'' = Some (tcp4 (ip4 10 0 0 1)) \<and>
     ma_parse mlib ''/ip4/0.0.0.0/tcp/4001'' = Some (tcp4 0) \<and>
     ma_parse mlib ''/ip4/8.8.8.8/tcp/4001'' = Some (tcp4 (ip4 8 8 8 8)) \<and>
     ma_parse mlib ''/ip6/::ffff:127.0.0.1/tcp/4001'' = Some [Ip6 0xFFFF7F000001, Tcp 4001] \<and>
     ma_parse mlib ''/dns4/example.com/tcp/443/wss'' = Some test_wss \<and>
     ma_parse mlib ''not-a-multiaddress'' = None \<and>
     ma_show mlib (tcp4 (ip4 8 8 8 8)) = ''/ip4/8.8.8.8/tcp/4001''"

lemma test_octets:
  "octet (ip4 8 8 8 8) 0 = 8" "octet (ip4 8 8 8 8) 1 = 8" "octet (ip4 8 8 8 8) 2 = 8" "octet (ip4 8 8 8 8) 3 = 8"
  by (simp_all add: octet_nat unat_ip4)

lemma default_accepts:
  "accepts default_endpoint_policy (tcp4 (ip4 8 8 8 8)) e NativeServer"
  "\<not> accepts default_endpoint_policy (tcp4 (ip4 8 8 8 8)) e Browser"
  "\<not> accepts default_endpoint_policy (tcp4 (ip4 127 0 0 1)) e NativeServer"
  "\<not> accepts default_endpoint_policy (tcp4 (ip4 10 0 0 1)) e NativeServer"
  "\<not> accepts default_endpoint_policy (tcp4 0) e NativeServer"
  "accepts default_endpoint_policy test_wss e Browser"
  "accepts local_testing (tcp4 (ip4 127 0 0 1)) e NativeServer"
  "\<not> accepts local_testing (tcp4 0) e NativeServer"
  by (simp_all add: accepts_spec permitted_def transport_protocol_def browser_protocol_def
      default_endpoint_policy_def local_testing_def accept_ip_def is_global_ipv4_def is_private_def
      is_multicast4_def is_documentation_def tcp4_def test_wss_def ip4_def octet_nat)

lemma mapped_rejected: "\<not> accepts default_endpoint_policy [Ip6 0xFFFF7F000001, Tcp 4001] e NativeServer"
proof -
  have "to_ipv4_mapped 0xFFFF7F000001 = Some (ip4 127 0 0 1)"
    by (simp add: to_ipv4_mapped_def segment_def ip4_def)
  then show ?thesis
    by (simp add: accepts_spec permitted_def default_endpoint_policy_def accept_ip_def is_global_ipv6_def
        is_global_ipv4_def ip4_def octet_nat)
qed

definition rejects_non_global_addresses_by_default :: "multiaddr_lib \<Rightarrow> bool" where
  "rejects_non_global_addresses_by_default mlib \<longleftrightarrow>
     (case (ma_parse mlib ''/ip4/127.0.0.1/tcp/4001'', ma_parse mlib ''/ip4/10.0.0.1/tcp/4001'',
         ma_parse mlib ''/ip4/0.0.0.0/tcp/4001'', ma_parse mlib ''/ip6/::ffff:127.0.0.1/tcp/4001'') of
        (Some loopback, Some private, Some unspecified, Some mapped_loopback) \<Rightarrow>
          \<not> accepts default_endpoint_policy loopback None NativeServer \<and>
          \<not> accepts default_endpoint_policy private None NativeServer \<and>
          \<not> accepts default_endpoint_policy unspecified None NativeServer \<and>
          \<not> accepts default_endpoint_policy mapped_loopback None NativeServer
      | _ \<Rightarrow> False)"

lemma non_global_rejected: "reads_addresses mlib \<Longrightarrow> rejects_non_global_addresses_by_default mlib"
  by (simp add: rejects_non_global_addresses_by_default_def reads_addresses_def default_accepts mapped_rejected
      del: One_nat_def)

definition local_test_policy_still_rejects_unspecified :: "multiaddr_lib \<Rightarrow> bool" where
  "local_test_policy_still_rejects_unspecified mlib \<longleftrightarrow>
     (case (ma_parse mlib ''/ip4/127.0.0.1/tcp/4001'', ma_parse mlib ''/ip4/0.0.0.0/tcp/4001'') of
        (Some loopback, Some unspecified) \<Rightarrow>
          accepts local_testing loopback None NativeServer \<and>
          \<not> accepts local_testing unspecified None NativeServer
      | _ \<Rightarrow> False)"

lemma unspecified_rejected: "reads_addresses mlib \<Longrightarrow> local_test_policy_still_rejects_unspecified mlib"
  by (simp add: local_test_policy_still_rejects_unspecified_def reads_addresses_def default_accepts del: One_nat_def)

definition browser_context_requires_secure_browser_transport :: "multiaddr_lib \<Rightarrow> bool" where
  "browser_context_requires_secure_browser_transport mlib \<longleftrightarrow>
     (case (ma_parse mlib ''/ip4/8.8.8.8/tcp/4001'', ma_parse mlib ''/dns4/example.com/tcp/443/wss'') of
        (Some tcp, Some wss) \<Rightarrow>
          \<not> accepts default_endpoint_policy tcp None Browser \<and> accepts default_endpoint_policy wss None Browser
      | _ \<Rightarrow> False)"

lemma browser_secured: "reads_addresses mlib \<Longrightarrow> browser_context_requires_secure_browser_transport mlib"
  by (simp add: browser_context_requires_secure_browser_transport_def reads_addresses_def default_accepts)

section \<open>The ENR codec\<close>

text \<open>A record built and signed by the \<open>enr\<close> package: its decoder reads back what was built.\<close>

definition test_enr :: "bytes \<Rightarrow> enr" where
  "test_enr node =
     \<lparr> enr_ip4 = Some (ip4 8 8 8 8), enr_tcp4 = Some 4001, enr_udp4 = None, enr_ip6 = None,
       enr_tcp6 = None, enr_udp6 = None, enr_seq = 42, enr_node_id = node \<rparr>"

definition flip_byte :: "nat \<Rightarrow> bytes \<Rightarrow> bytes" where
  "flip_byte i bs = bs[i := bs ! i XOR 1]"

definition signs_enr :: "enr_decoder \<Rightarrow> bytes \<Rightarrow> bool" where
  "signs_enr decode raw \<longleftrightarrow>
     raw \<noteq> [] \<and> length raw \<le> MAX_ENR_BYTES \<and> (\<exists>node. decode raw = Inr (test_enr node, [])) \<and>
     (\<exists>e. decode (flip_byte (length raw - 1) raw) = Inl e)"

definition accepts_valid_raw_enr :: "multiaddr_lib \<Rightarrow> enr_decoder \<Rightarrow> bytes \<Rightarrow> bool" where
  "accepts_valid_raw_enr mlib decode raw \<longleftrightarrow>
     (case decode_and_verify (enr_codec mlib decode default_endpoint_policy) raw NativeServer of
        Inl _ \<Rightarrow> False
      | Inr decoded \<Rightarrow>
          pc_sequence decoded = 42 \<and> ep_address (pc_endpoints decoded ! 0) = ''/ip4/8.8.8.8/tcp/4001'')"

definition rejects_invalid_signature_and_oversize :: "multiaddr_lib \<Rightarrow> enr_decoder \<Rightarrow> bytes \<Rightarrow> bool" where
  "rejects_invalid_signature_and_oversize mlib decode raw \<longleftrightarrow>
     (let codec = enr_codec mlib decode default_endpoint_policy
      in (case decode_and_verify codec (flip_byte (length raw - 1) raw) NativeServer of
            Inl _ \<Rightarrow> True | Inr _ \<Rightarrow> False) \<and>
         decode_and_verify codec (replicate 301 0) NativeServer = Inl (InvalidSize 301))"

definition rejects_enr_for_browser_context :: "multiaddr_lib \<Rightarrow> enr_decoder \<Rightarrow> bytes \<Rightarrow> bool" where
  "rejects_enr_for_browser_context mlib decode raw \<longleftrightarrow>
     decode_and_verify (enr_codec mlib decode default_endpoint_policy) raw Browser =
       Inl (NoUsableEndpoint Browser)"

lemma test_decimals: "decimal 8 = ''8''" "decimal 4001 = ''4001''"
  by (simp_all add: decimal.simps digit_char_def char_of_eq_iff)

lemma ipv4_text_8888: "ipv4_text (ip4 8 8 8 8) = ''8.8.8.8''"
  by (simp add: ipv4_text_def test_octets test_decimals del: One_nat_def)

lemma enr_tests:
  assumes "reads_addresses mlib" and "signs_enr decode raw"
  shows "accepts_valid_raw_enr mlib decode raw"
    and "rejects_invalid_signature_and_oversize mlib decode raw"
    and "rejects_enr_for_browser_context mlib decode raw"
proof -
  obtain node e where "decode raw = Inr (test_enr node, [])"
    and "decode (flip_byte (length raw - 1) raw) = Inl e" and "raw \<noteq> []" "length raw \<le> 300"
    using assms(2) by (auto simp: signs_enr_def MAX_ENR_BYTES_def)
  moreover have "ma_parse mlib ''/ip4/8.8.8.8/tcp/4001'' = Some (tcp4 (ip4 8 8 8 8))"
    "ma_show mlib (tcp4 (ip4 8 8 8 8)) = ''/ip4/8.8.8.8/tcp/4001''"
    using assms(1) by (simp_all add: reads_addresses_def)
  ultimately show "accepts_valid_raw_enr mlib decode raw"
    "rejects_invalid_signature_and_oversize mlib decode raw"
    "rejects_enr_for_browser_context mlib decode raw"
    by (simp_all add: accepts_valid_raw_enr_def rejects_invalid_signature_and_oversize_def
        rejects_enr_for_browser_context_def enr_codec_def decode_enr_def enr_endpoints_def push_if_def
        push_endpoint_def test_enr_def shown_endpoints_def default_accepts ipv4_text_8888 test_decimals
        MAX_ENR_BYTES_def flip_byte_def Let_def split: sum.split)
qed

lemma test_enr_signed:
  "signs_enr (\<lambda>b. if b = [0] then Inr (test_enr [], []) else Inl ''signature'') [0]"
  by (auto simp: signs_enr_def MAX_ENR_BYTES_def flip_byte_def)

section \<open>Signed peer records\<close>

definition signs_and_verifies_peer_record :: "multiaddr_lib \<Rightarrow> ('pk, 'sk) libp2p_lib \<Rightarrow> 'sk \<Rightarrow> bool" where
  "signs_and_verifies_peer_record mlib lib key \<longleftrightarrow>
     (case ma_parse mlib local_address of None \<Rightarrow> False | Some address \<Rightarrow>
      case sign_peer_record mlib lib key 42 [address] of Inl _ \<Rightarrow> False | Inr raw \<Rightarrow>
      case decode_and_verify (libp2p_codec mlib lib local_testing 16) raw NativeServer of
        Inl _ \<Rightarrow> False
      | Inr decoded \<Rightarrow>
          pc_peer_id decoded = lp_peer_of_key lib (lp_public lib key) \<and> pc_sequence decoded = 42 \<and>
          ep_address (pc_endpoints decoded ! 0) = ma_show mlib address)"

definition rejects_tampered_signature_and_malformed_envelope ::
  "multiaddr_lib \<Rightarrow> ('pk, 'sk) libp2p_lib \<Rightarrow> 'sk \<Rightarrow> bool"
where
  "rejects_tampered_signature_and_malformed_envelope mlib lib key \<longleftrightarrow>
     (case ma_parse mlib local_address of None \<Rightarrow> False | Some address \<Rightarrow>
      case sign_peer_record mlib lib key 42 [address] of Inl _ \<Rightarrow> False | Inr raw \<Rightarrow>
      case lp_decode_envelope lib raw of Inl _ \<Rightarrow> False | Inr envelope \<Rightarrow>
        decode_and_verify (libp2p_codec mlib lib local_testing 16)
          (lp_encode_envelope lib (envelope\<lparr> env_signature := flip_byte 0 (env_signature envelope) \<rparr>)) NativeServer =
          Inl InvalidSignature \<and>
        (case decode_and_verify (libp2p_codec mlib lib default_endpoint_policy DEFAULT_MAX_ENDPOINTS_PER_RECORD)
            [0xff, 0xff] NativeServer of Inl _ \<Rightarrow> True | Inr _ \<Rightarrow> False))"

definition rejects_peer_id_key_mismatch :: "multiaddr_lib \<Rightarrow> ('pk, 'sk) libp2p_lib \<Rightarrow> 'sk \<Rightarrow> 'sk \<Rightarrow> bool" where
  "rejects_peer_id_key_mismatch mlib lib key other \<longleftrightarrow>
     (case ma_parse mlib local_address of None \<Rightarrow> False | Some address \<Rightarrow>
      case seal_payload lib key (lp_encode_message lib
          \<lparr> pm_peer_id = lp_peer_of_key lib (lp_public lib other), pm_sequence = 1,
            pm_addresses = [ma_to_bytes mlib address] \<rparr>) of Inl _ \<Rightarrow> False | Inr raw \<Rightarrow>
        decode_and_verify (libp2p_codec mlib lib local_testing 16) raw NativeServer = Inl IdentityMismatch)"

definition browser_ignores_non_browser_endpoint :: "multiaddr_lib \<Rightarrow> ('pk, 'sk) libp2p_lib \<Rightarrow> 'sk \<Rightarrow> bool" where
  "browser_ignores_non_browser_endpoint mlib lib key \<longleftrightarrow>
     (let codec = libp2p_codec mlib lib default_endpoint_policy DEFAULT_MAX_ENDPOINTS_PER_RECORD
      in (case ma_parse mlib ''/ip4/8.8.8.8/tcp/4001'' of None \<Rightarrow> False | Some tcp \<Rightarrow>
          case sign_peer_record mlib lib key 1 [tcp] of Inl _ \<Rightarrow> False | Inr raw \<Rightarrow>
            decode_and_verify codec raw Browser = Inl (NoUsableEndpoint Browser)) \<and>
         (case ma_parse mlib ''/dns4/example.com/tcp/443/wss'' of None \<Rightarrow> False | Some wss \<Rightarrow>
          case sign_peer_record mlib lib key 2 [wss] of Inl _ \<Rightarrow> False | Inr raw \<Rightarrow>
          case decode_and_verify codec raw Browser of
            Inl _ \<Rightarrow> False
          | Inr decoded \<Rightarrow> ep_address (pc_endpoints decoded ! 0) = ma_show mlib wss))"

definition signing_rejects_resource_limit_violations :: "multiaddr_lib \<Rightarrow> ('pk, 'sk) libp2p_lib \<Rightarrow> 'sk \<Rightarrow> bool" where
  "signing_rejects_resource_limit_violations mlib lib key \<longleftrightarrow>
     sign_peer_record mlib lib key 1 [] = Inl NoEndpoints \<and>
     (case ma_parse mlib local_address of None \<Rightarrow> False | Some address \<Rightarrow>
        sign_peer_record mlib lib key 1 (replicate 17 address) = Inl (SignTooManyEndpoints 16))"

text \<open>
  What the tests take from the signature, protobuf and multiaddr packages: they are lawful, a
  key signs the small payloads of the tests, a signature with a changed byte is not valid and
  is as long as before, two bytes of ones are no envelope, and the two generated keys are
  those of two peers.
\<close>

definition test_addresses :: "multiaddr set" where
  "test_addresses = {tcp4 (ip4 127 0 0 1), tcp4 (ip4 8 8 8 8), test_wss}"

definition signing_keys :: "multiaddr_lib \<Rightarrow> ('pk, 'sk) libp2p_lib \<Rightarrow> 'sk \<Rightarrow> 'sk \<Rightarrow> bool" where
  "signing_keys mlib lib key other \<longleftrightarrow> lawful_libp2p lib \<and>
     lp_peer_of_key lib (lp_public lib other) \<noteq> lp_peer_of_key lib (lp_public lib key) \<and>
     (\<forall>a \<in> test_addresses. ma_from_bytes mlib (ma_to_bytes mlib a) = Some a) \<and>
     (\<forall>owner \<in> {key, other}. \<forall>n. \<forall>a \<in> test_addresses. \<exists>raw.
        seal_payload lib key (lp_encode_message lib \<lparr> pm_peer_id = lp_peer_of_key lib (lp_public lib owner),
          pm_sequence = n, pm_addresses = [ma_to_bytes mlib a] \<rparr>) = Inr raw) \<and>
     (\<forall>m sig. lp_sign lib key m = Inr sig \<longrightarrow> \<not> lp_verify lib (lp_public lib key) m (flip_byte 0 sig)) \<and>
     (\<forall>e. length (lp_encode_envelope lib (e\<lparr> env_signature := flip_byte 0 (env_signature e) \<rparr>)) =
        length (lp_encode_envelope lib e)) \<and>
     (\<exists>e. lp_decode_envelope lib [0xff, 0xff] = Inl e)"

lemma test_key_signs:
  assumes "signing_keys mlib lib key other" and "a \<in> test_addresses"
  shows "\<exists>raw. sign_peer_record mlib lib key n [a] = Inr raw"
proof -
  from assms obtain raw where "seal_payload lib key (lp_encode_message lib
      \<lparr> pm_peer_id = lp_peer_of_key lib (lp_public lib key), pm_sequence = n, pm_addresses = [ma_to_bytes mlib a] \<rparr>) = Inr raw"
    unfolding signing_keys_def by blast
  then show ?thesis by (simp add: sign_peer_record_def DEFAULT_MAX_ENDPOINTS_PER_RECORD_def)
qed

lemma test_addresses_in:
  "tcp4 (ip4 127 0 0 1) \<in> test_addresses" "tcp4 (ip4 8 8 8 8) \<in> test_addresses" "test_wss \<in> test_addresses"
  by (simp_all add: test_addresses_def)

lemma test_key_decodes:
  assumes "signing_keys mlib lib key other" and "sign_peer_record mlib lib key n [a] = Inr raw"
    and "a \<in> test_addresses" and "1 \<le> cap"
  shows "decode_and_verify (libp2p_codec mlib lib policy cap) raw ctx =
    (if accepts policy a (Some (lp_peer_of_key lib (lp_public lib key))) ctx
     then Inr \<lparr> pc_record_type = RECORD_TYPE_LIBP2P, pc_peer_id = lp_peer_of_key lib (lp_public lib key),
       pc_sequence = n, pc_endpoints = [\<lparr> ep_address = ma_show mlib a \<rparr>], pc_raw_signed_record = raw,
       pc_expires_at = 0, pc_source = ResurrectRegistry, pc_announcement_block = None,
       pc_announcement_log_index = None \<rparr>
     else Inl (NoUsableEndpoint ctx))"
  using signed_record_decodes [of lib mlib key n "[a]" raw cap policy ctx] assms
  by (auto simp: signing_keys_def)

lemma test_seal:
  assumes "seal_payload lib key payload = Inr raw"
  obtains sig where "lp_sign lib key (signing_input LIBP2P_PEER_RECORD_PAYLOAD_TYPE payload) = Inr sig"
    and "raw = lp_encode_envelope lib \<lparr> env_public_key = lp_encode_key lib (lp_public lib key),
      env_payload_type = LIBP2P_PEER_RECORD_PAYLOAD_TYPE, env_payload = payload, env_signature = sig \<rparr>"
    and "length raw \<le> MAX_ENVELOPE_BYTES"
  using assms by (auto simp: seal_payload_def res_bind_Inr_iff Let_def not_less split: if_splits)

lemma peer_record_signed:
  assumes "reads_addresses mlib" and "signing_keys mlib lib key other"
  shows "signs_and_verifies_peer_record mlib lib key"
proof -
  let ?a = "tcp4 (ip4 127 0 0 1)"
  obtain raw where raw: "sign_peer_record mlib lib key 42 [?a] = Inr raw"
    using test_key_signs [OF assms(2) test_addresses_in(1), of 42] by auto
  have "ma_parse mlib local_address = Some ?a" using assms(1) by (simp add: reads_addresses_def)
  with raw test_key_decodes [OF assms(2) raw test_addresses_in(1), of 16 local_testing NativeServer] show ?thesis
    by (simp add: signs_and_verifies_peer_record_def default_accepts del: One_nat_def)
qed

lemma browser_endpoint_chosen:
  assumes "reads_addresses mlib" and "signing_keys mlib lib key other"
  shows "browser_ignores_non_browser_endpoint mlib lib key"
proof -
  obtain tcp wss where raw: "sign_peer_record mlib lib key 1 [tcp4 (ip4 8 8 8 8)] = Inr tcp"
      "sign_peer_record mlib lib key 2 [test_wss] = Inr wss"
    using test_key_signs [OF assms(2) test_addresses_in(2), of 1] test_key_signs [OF assms(2) test_addresses_in(3), of 2]
    by auto
  have "ma_parse mlib ''/ip4/8.8.8.8/tcp/4001'' = Some (tcp4 (ip4 8 8 8 8))"
    "ma_parse mlib ''/dns4/example.com/tcp/443/wss'' = Some test_wss"
    using assms(1) by (simp_all add: reads_addresses_def)
  with raw test_key_decodes [OF assms(2) raw(1) test_addresses_in(2)]
    test_key_decodes [OF assms(2) raw(2) test_addresses_in(3)] show ?thesis
    by (simp add: browser_ignores_non_browser_endpoint_def default_accepts DEFAULT_MAX_ENDPOINTS_PER_RECORD_def)
qed

lemma signing_limited: "reads_addresses mlib \<Longrightarrow> signing_rejects_resource_limit_violations mlib lib key"
  by (simp add: signing_rejects_resource_limit_violations_def reads_addresses_def sign_peer_record_def
      DEFAULT_MAX_ENDPOINTS_PER_RECORD_def del: One_nat_def)

lemma mismatch_rejected:
  assumes "reads_addresses mlib" and "signing_keys mlib lib key other"
  shows "rejects_peer_id_key_mismatch mlib lib key other"
proof -
  let ?m = "\<lparr> pm_peer_id = lp_peer_of_key lib (lp_public lib other), pm_sequence = 1,
      pm_addresses = [ma_to_bytes mlib (tcp4 (ip4 127 0 0 1))] \<rparr>"
  from assms(2) test_addresses_in(1) obtain raw where raw: "seal_payload lib key (lp_encode_message lib ?m) = Inr raw"
    unfolding signing_keys_def by blast
  obtain sig where "lp_sign lib key (signing_input LIBP2P_PEER_RECORD_PAYLOAD_TYPE (lp_encode_message lib ?m)) = Inr sig"
    and "raw = lp_encode_envelope lib \<lparr> env_public_key = lp_encode_key lib (lp_public lib key),
      env_payload_type = LIBP2P_PEER_RECORD_PAYLOAD_TYPE, env_payload = lp_encode_message lib ?m, env_signature = sig \<rparr>"
    and "length raw \<le> MAX_ENVELOPE_BYTES"
    using test_seal [OF raw] .
  moreover have "ma_parse mlib local_address = Some (tcp4 (ip4 127 0 0 1))"
    using assms(1) by (simp add: reads_addresses_def)
  ultimately show ?thesis
    using raw assms(2) by (auto simp: rejects_peer_id_key_mismatch_def libp2p_codec_def decode_libp2p_def
        signing_keys_def lawful_libp2p_def LIBP2P_PEER_RECORD_PAYLOAD_TYPE_def Let_def)
qed

lemma tampering_rejected:
  assumes "reads_addresses mlib" and "signing_keys mlib lib key other"
  shows "rejects_tampered_signature_and_malformed_envelope mlib lib key"
proof -
  let ?a = "tcp4 (ip4 127 0 0 1)"
  let ?m = "\<lparr> pm_peer_id = lp_peer_of_key lib (lp_public lib key), pm_sequence = 42,
      pm_addresses = [ma_to_bytes mlib ?a] \<rparr>"
  have law: "lawful_libp2p lib" and bad: "\<exists>e. lp_decode_envelope lib [0xff, 0xff] = Inl e"
    and same: "length (lp_encode_envelope lib (e\<lparr> env_signature := flip_byte 0 (env_signature e) \<rparr>)) =
        length (lp_encode_envelope lib e)" for e
    using assms(2) by (simp_all add: signing_keys_def)
  obtain raw where raw: "sign_peer_record mlib lib key 42 [?a] = Inr raw"
    using test_key_signs [OF assms(2) test_addresses_in(1), of 42] by auto
  then have "seal_payload lib key (lp_encode_message lib ?m) = Inr raw"
    by (simp add: sign_peer_record_def DEFAULT_MAX_ENDPOINTS_PER_RECORD_def)
  from test_seal [OF this] obtain sig where
    sig: "lp_sign lib key (signing_input LIBP2P_PEER_RECORD_PAYLOAD_TYPE (lp_encode_message lib ?m)) = Inr sig"
    and r: "raw = lp_encode_envelope lib \<lparr> env_public_key = lp_encode_key lib (lp_public lib key),
      env_payload_type = LIBP2P_PEER_RECORD_PAYLOAD_TYPE, env_payload = lp_encode_message lib ?m, env_signature = sig \<rparr>"
    and len: "length raw \<le> MAX_ENVELOPE_BYTES" .
  let ?e = "\<lparr> env_public_key = lp_encode_key lib (lp_public lib key),
    env_payload_type = LIBP2P_PEER_RECORD_PAYLOAD_TYPE, env_payload = lp_encode_message lib ?m, env_signature = sig \<rparr>"
  have "decode_and_verify (libp2p_codec mlib lib local_testing 16)
      (lp_encode_envelope lib (?e\<lparr> env_signature := flip_byte 0 sig \<rparr>)) NativeServer = Inl InvalidSignature"
    using law same [of ?e] len r sig assms(2)
    by (simp add: libp2p_codec_def decode_libp2p_def signing_keys_def lawful_libp2p_def
        LIBP2P_PEER_RECORD_PAYLOAD_TYPE_def)
  moreover obtain e where "decode_and_verify (libp2p_codec mlib lib default_endpoint_policy
      DEFAULT_MAX_ENDPOINTS_PER_RECORD) [0xff, 0xff] NativeServer = Inl e"
    using bad by (auto simp: libp2p_codec_def decode_libp2p_def MAX_ENVELOPE_BYTES_def)
  moreover have "ma_parse mlib local_address = Some ?a" using assms(1) by (simp add: reads_addresses_def)
  moreover have "lp_decode_envelope lib raw = Inr ?e" using law r by (simp add: lawful_libp2p_def)
  ultimately show ?thesis
    using raw by (auto simp: rejects_tampered_signature_and_malformed_envelope_def simp del: One_nat_def split: sum.split)
qed

text \<open>Packages of which all of this holds.\<close>

definition test_mlib :: multiaddr_lib where
  "test_mlib =
     \<lparr> ma_parse = (\<lambda>s. if s = ''/ip4/127.0.0.1/tcp/4001'' then Some (tcp4 (ip4 127 0 0 1))
         else if s = ''/ip4/10.0.0.1/tcp/4001'' then Some (tcp4 (ip4 10 0 0 1))
         else if s = ''/ip4/0.0.0.0/tcp/4001'' then Some (tcp4 0)
         else if s = ''/ip4/8.8.8.8/tcp/4001'' then Some (tcp4 (ip4 8 8 8 8))
         else if s = ''/ip6/::ffff:127.0.0.1/tcp/4001'' then Some [Ip6 0xFFFF7F000001, Tcp 4001]
         else if s = ''/dns4/example.com/tcp/443/wss'' then Some test_wss else None),
       ma_show = (\<lambda>_. ''/ip4/8.8.8.8/tcp/4001''),
       ma_from_bytes = (\<lambda>b. if b = [1] then Some (tcp4 (ip4 127 0 0 1)) else if b = [2] then Some (tcp4 (ip4 8 8 8 8))
         else Some test_wss),
       ma_to_bytes = (\<lambda>a. if a = tcp4 (ip4 127 0 0 1) then [1] else if a = tcp4 (ip4 8 8 8 8) then [2] else [3]),
       ma_ipv6_text = (\<lambda>_. ''::'') \<rparr>"

text \<open>Sequence numbers are of fixed width, so that every payload of the tests is small.\<close>

definition test_lib :: "(bool, bool) libp2p_lib" where
  "test_lib =
     \<lparr> lp_decode_envelope = lp_decode_envelope toy_lib, lp_encode_envelope = lp_encode_envelope toy_lib,
       lp_decode_message = (\<lambda>bs. case Option.bind (toy_take (drop 8 bs)) (\<lambda>(p, r1).
           Option.bind (read_uvarint r1) (\<lambda>(n, r2). map_option (\<lambda>as.
             \<lparr> pm_peer_id = p, pm_sequence = of_be_bytes (take 8 bs), pm_addresses = as \<rparr>) (toy_fields n r2)))
         of None \<Rightarrow> Inl ''message'' | Some m \<Rightarrow> Inr m),
       lp_encode_message = (\<lambda>m. be_bytes 8 (pm_sequence m) @ toy_field (pm_peer_id m) @
           append_uvarint [] (length (pm_addresses m)) @ concat (map toy_field (pm_addresses m))),
       lp_decode_key = (\<lambda>b. Inr (b = [1])), lp_encode_key = (\<lambda>k. if k then [1] else [0]),
       lp_verify = (\<lambda>k m s. s = 0 # m), lp_peer_of_key = (\<lambda>k. if k then [1] else [0]),
       lp_peer_from_bytes = Inr, lp_public = (\<lambda>s. s), lp_sign = (\<lambda>s m. Inr (0 # m)) \<rparr>"

lemma of_be_bytes_8 [simp]: "of_be_bytes (be_bytes 8 w) = (w :: u64)"
  by (rule bit_word_eqI) (simp add: bit_of_be_bytes be_bytes_bit [of _ 8 w])

lemma test_packages: "reads_addresses test_mlib" "signing_keys test_mlib test_lib True False"
proof -
  show "reads_addresses test_mlib" by (simp add: reads_addresses_def test_mlib_def)
  have law: "lawful_libp2p test_lib"
    using toy_lawful by (simp add: lawful_libp2p_def test_lib_def read_append_uvarint)
  have ne: "tcp4 (ip4 8 8 8 8) \<noteq> tcp4 (ip4 127 0 0 1)" "test_wss \<noteq> tcp4 a" for a
    by (simp_all add: tcp4_def ip4_def test_wss_def)
  have f: "ma_to_bytes test_mlib a = [hd (ma_to_bytes test_mlib a)]" for a by (simp add: test_mlib_def)
  have "\<exists>raw. seal_payload test_lib True (lp_encode_message test_lib
      \<lparr> pm_peer_id = lp_peer_of_key test_lib (lp_public test_lib owner), pm_sequence = n,
        pm_addresses = [[b]] \<rparr>) = Inr raw" for owner n b
    by (auto simp: seal_payload_def test_lib_def toy_lib_def toy_field_def
        signing_input_def append_uvarint_nil [of "_ @ _"] append_uvarint_nil [of "_ # _"] uvarint_small
        LIBP2P_PEER_RECORD_DOMAIN_def LIBP2P_PEER_RECORD_PAYLOAD_TYPE_def string_bytes_def MAX_ENVELOPE_BYTES_def)
  then have seal: "\<exists>raw. seal_payload test_lib True (lp_encode_message test_lib
      \<lparr> pm_peer_id = lp_peer_of_key test_lib (lp_public test_lib owner), pm_sequence = n,
        pm_addresses = [ma_to_bytes test_mlib a] \<rparr>) = Inr raw" for owner n a
    by (subst f)
  have addresses: "\<forall>a \<in> test_addresses. ma_from_bytes test_mlib (ma_to_bytes test_mlib a) = Some a"
    using ne by (simp add: test_addresses_def test_mlib_def del: One_nat_def)
  have len: "length (lp_encode_envelope test_lib (e\<lparr> env_signature := flip_byte 0 (env_signature e) \<rparr>)) =
      length (lp_encode_envelope test_lib e)" for e
    by (simp add: test_lib_def toy_lib_def toy_field_def flip_byte_def)
  have bad: "\<exists>e. lp_decode_envelope test_lib [0xff, 0xff] = Inl e"
    by (simp add: test_lib_def toy_lib_def toy_take_def)
  have peers: "lp_peer_of_key test_lib (lp_public test_lib False) \<noteq> lp_peer_of_key test_lib (lp_public test_lib True)"
    by (simp add: test_lib_def)
  have flip: "\<not> lp_verify test_lib (lp_public test_lib True) m (flip_byte 0 sig)"
    if "lp_sign test_lib True m = Inr sig" for m sig
    using that by (auto simp: test_lib_def flip_byte_def)
  show "signing_keys test_mlib test_lib True False"
    unfolding signing_keys_def using law addresses bad peers by (intro conjI allI ballI impI seal len flip) simp_all
qed

section \<open>The behaviour\<close>

text \<open>
  A spawned \<open>connect\<close> sends its request once the test yields, before the behaviour is polled
  again. Its answer is read when the test awaits it: what the log holds for its sender, or
  nothing by the time its timeout ends. The peer and the libraries are arguments.
\<close>

definition behaviour_candidate :: "peer_id \<Rightarrow> string \<Rightarrow> peer_candidate" where
  "behaviour_candidate p address =
     \<lparr> pc_record_type = RECORD_TYPE_LIBP2P, pc_peer_id = p, pc_sequence = 1,
       pc_endpoints = [\<lparr> ep_address = address \<rparr>], pc_raw_signed_record = [1], pc_expires_at = - 1,
       pc_source = ResurrectRegistry, pc_announcement_block = None, pc_announcement_log_index = None \<rparr>"

definition spawn_connect :: "peer_candidate \<Rightarrow> behaviour \<Rightarrow> behaviour" where
  "spawn_connect peer b = send_dial \<lparr> dr_peer = peer, dr_outcome = 0 \<rparr> b"

fun answer_to :: "sender \<Rightarrow> 'a dial_effect list \<Rightarrow> 'a option" where
  "answer_to w [] = None"
| "answer_to w (e # es) = (case e of Answered v a \<Rightarrow> if v = w then Some a else answer_to w es | _ \<Rightarrow> answer_to w es)"

definition dialing_result :: "behaviour \<Rightarrow> bool" where
  "dialing_result b = connect True (map_option Some (answer_to 0 (bh_log b)))"

definition a_registry_candidate_becomes_a_swarm_dial :: "multiaddr_lib \<Rightarrow> ('pk, 'sk) libp2p_lib \<Rightarrow> peer_id \<Rightarrow> bool" where
  "a_registry_candidate_becomes_a_swarm_dial mlib lib p \<longleftrightarrow>
     (case poll mlib lib 1 (spawn_connect (behaviour_candidate p local_address) (connector 8)) of
        (Some (DialPeer dialed _), b1) \<Rightarrow> dialed = p \<and>
          (case poll mlib lib 1 b1 of
             (Some (GenerateEvent (DialingEvent dialed)), b2) \<Rightarrow> dialed = p \<and>
               (let b3 = on_swarm_event (ConnectionEstablished p) b2
                in dialing_result b3 \<and> length (bh_connected b3) = 1)
           | _ \<Rightarrow> False)
      | _ \<Rightarrow> False)"

definition connectivity_is_published_before_the_controller_is_woken ::
  "multiaddr_lib \<Rightarrow> ('pk, 'sk) libp2p_lib \<Rightarrow> peer_id \<Rightarrow> bool"
where
  "connectivity_is_published_before_the_controller_is_woken mlib lib p \<longleftrightarrow>
     (case poll mlib lib 1 (spawn_connect (behaviour_candidate p local_address) (connector 8)) of
        (None, _) \<Rightarrow> False
      | (Some _, b1) \<Rightarrow>
          (let b2 = on_swarm_event (ConnectionEstablished p) b1
           in (dialing_result b2, connected_peers b2) = (True, 1)))"

definition a_dial_failure_releases_the_controller :: "multiaddr_lib \<Rightarrow> ('pk, 'sk) libp2p_lib \<Rightarrow> peer_id \<Rightarrow> bool" where
  "a_dial_failure_releases_the_controller mlib lib p \<longleftrightarrow>
     (case poll mlib lib 1 (spawn_connect (behaviour_candidate p local_address) (connector 8)) of
        (None, _) \<Rightarrow> False
      | (Some _, b1) \<Rightarrow>
          (let b2 = on_swarm_event (DialFailure (Some p)) b1
           in \<not> dialing_result b2 \<and> length (bh_connected b2) = 0))"

definition a_silent_transport_cannot_stall_the_cycle :: "multiaddr_lib \<Rightarrow> ('pk, 'sk) libp2p_lib \<Rightarrow> peer_id \<Rightarrow> bool" where
  "a_silent_transport_cannot_stall_the_cycle mlib lib p \<longleftrightarrow>
     (case poll mlib lib 1 (spawn_connect (behaviour_candidate p local_address) (connector 8)) of
        (None, _) \<Rightarrow> False
      | (Some _, b1) \<Rightarrow> \<not> dialing_result b1)"

definition an_already_connected_peer_is_not_redialed :: "multiaddr_lib \<Rightarrow> ('pk, 'sk) libp2p_lib \<Rightarrow> peer_id \<Rightarrow> bool" where
  "an_already_connected_peer_is_not_redialed mlib lib p \<longleftrightarrow>
     (case poll_all mlib lib (map Poll (replicate 50 1)) (spawn_connect (behaviour_candidate p local_address)
         (on_swarm_event (ConnectionEstablished p) (connector 8))) of
        (actions, b) \<Rightarrow> actions = [] \<and> dialing_result b)"

definition undialable_candidates_are_rejected_without_touching_the_swarm ::
  "multiaddr_lib \<Rightarrow> ('pk, 'sk) libp2p_lib \<Rightarrow> peer_id \<Rightarrow> bool"
where
  "undialable_candidates_are_rejected_without_touching_the_swarm mlib lib p \<longleftrightarrow>
     list_all (\<lambda>(rejected, expected).
         case poll mlib lib 1 (spawn_connect rejected (connector 8)) of
           (Some (GenerateEvent (RejectedEvent rejection)), b) \<Rightarrow> rejection = expected \<and> \<not> dialing_result b
         | _ \<Rightarrow> False)
       [((behaviour_candidate p local_address)\<lparr> pc_record_type := 1 \<rparr>, UnsupportedRecordType),
        ((behaviour_candidate p local_address)\<lparr> pc_peer_id := [0xff] \<rparr>, InvalidPeerId),
        (behaviour_candidate p ''not-a-multiaddress'', NoDialableEndpoint)]"

definition closing_the_last_connection_lowers_the_reported_count :: "peer_id \<Rightarrow> bool" where
  "closing_the_last_connection_lowers_the_reported_count p \<longleftrightarrow>
     (let b1 = on_swarm_event (ConnectionEstablished p) (connector 8);
          b2 = on_swarm_event (ConnectionClosed p 0) b1
      in connected_peers b1 = 1 \<and> connected_peers b2 = 0)"

definition a_dropped_swarm_fails_dials_instead_of_hanging :: bool where
  "a_dropped_swarm_fails_dials_instead_of_hanging \<longleftrightarrow> \<not> connect False None"

text \<open>What the peer-id package makes of a generated identity, and of a byte that is none.\<close>

definition test_identity :: "('pk, 'sk) libp2p_lib \<Rightarrow> peer_id \<Rightarrow> bool" where
  "test_identity lib p \<longleftrightarrow> lp_peer_from_bytes lib p = Inr p \<and> (\<exists>e. lp_peer_from_bytes lib [0xff] = Inl e)"

lemmas behaviour_eval = poll_def room_def spawn_connect_def behaviour_candidate_def connector_def send_dial_def accept_def
  dial_addresses_def push_action_def on_swarm_event_def publish_def resolve_def answer_all_def add_waiter_def
  dialing_result_def connect_def answer_def reject_def connected_peers_def List.map_filter_def Let_def

lemma behaviour_tests:
  assumes "reads_addresses mlib" and "test_identity lib p"
  shows "a_registry_candidate_becomes_a_swarm_dial mlib lib p"
    and "connectivity_is_published_before_the_controller_is_woken mlib lib p"
    and "a_dial_failure_releases_the_controller mlib lib p"
    and "a_silent_transport_cannot_stall_the_cycle mlib lib p"
    and "an_already_connected_peer_is_not_redialed mlib lib p"
    and "undialable_candidates_are_rejected_without_touching_the_swarm mlib lib p"
proof -
  have a: "ma_parse mlib local_address = Some (tcp4 (ip4 127 0 0 1))" "ma_parse mlib ''not-a-multiaddress'' = None"
    using assms(1) by (simp_all add: reads_addresses_def)
  obtain e where i: "lp_peer_from_bytes lib p = Inr p" "lp_peer_from_bytes lib [0xff] = Inl e"
    using assms(2) by (auto simp: test_identity_def)
  show "a_registry_candidate_becomes_a_swarm_dial mlib lib p"
    by (simp add: a_registry_candidate_becomes_a_swarm_dial_def behaviour_eval a i)
  show "connectivity_is_published_before_the_controller_is_woken mlib lib p"
    by (simp add: connectivity_is_published_before_the_controller_is_woken_def behaviour_eval a i)
  show "a_dial_failure_releases_the_controller mlib lib p"
    by (simp add: a_dial_failure_releases_the_controller_def behaviour_eval a i)
  show "a_silent_transport_cannot_stall_the_cycle mlib lib p"
    by (simp add: a_silent_transport_cannot_stall_the_cycle_def behaviour_eval a i)
  show "an_already_connected_peer_is_not_redialed mlib lib p"
    by (simp add: an_already_connected_peer_is_not_redialed_def behaviour_step_def behaviour_eval a i eval_nat_numeral)
  show "undialable_candidates_are_rejected_without_touching_the_swarm mlib lib p"
    by (simp add: undialable_candidates_are_rejected_without_touching_the_swarm_def behaviour_eval a i RECORD_TYPE_LIBP2P_def)
qed

lemma count_lowered: "closing_the_last_connection_lowers_the_reported_count p"
  by (simp add: closing_the_last_connection_lowers_the_reported_count_def behaviour_eval)

lemma dropped_swarm_fails: a_dropped_swarm_fails_dials_instead_of_hanging
  by (simp add: a_dropped_swarm_fails_dials_instead_of_hanging_def connect_def)

lemma test_identity_toy:
  "test_identity (toy_lib\<lparr> lp_peer_from_bytes := (\<lambda>b. if b = [0xff] then Inl ''peer'' else Inr b) \<rparr>) [1]"
  by (simp add: test_identity_def)

end
