(* ===== verification/Node_Tests.thy ===== *)
theory Node_Tests
  imports Node_Live Node_Config Supervisor_Runs Libp2p_Tests Core_Tests
begin

text \<open>
  The tests of \<open>crates/resurrect-node\<close>, run on the model: each is the conjunction of its
  assertions and is proved to pass, whatever the packages, the clock and the random numbers
  are that it takes as arguments. The network of the tests with two hosts is their schedule.
  Not here: the file mode of the identity.
\<close>

section \<open>The supervisor\<close>

definition backoff_is_exponential_and_capped :: bool where
  "backoff_is_exponential_and_capped \<longleftrightarrow>
     (let initial = from_secs 2; maximum = from_secs 9
      in exponential_backoff initial maximum 0 = initial \<and>
         exponential_backoff initial maximum 2 = from_secs 8 \<and>
         exponential_backoff initial maximum 3 = maximum \<and>
         exponential_backoff initial maximum (- 1) = maximum)"

lemmas backoff_eval = exponential_backoff_def checked_shl_def duration_saturating_mul_def duration_max_def from_secs_def

lemma backoff_capped: backoff_is_exponential_and_capped
  by (simp add: backoff_is_exponential_and_capped_def backoff_eval Let_def)

definition isolated_backoff_jitter_stays_within_half_to_full_exponential_delay :: "(u32 \<Rightarrow> nat) \<Rightarrow> bool" where
  "isolated_backoff_jitter_stays_within_half_to_full_exponential_delay pick \<longleftrightarrow>
     (let initial = from_secs 2; maximum = from_secs 9
      in list_all (\<lambda>attempt.
           let base = exponential_backoff initial maximum attempt;
               actual = backoff_with_jitter (pick attempt) initial maximum attempt
           in base div 2 \<le> actual \<and> actual \<le> base) (map word_of_nat [0..<16]))"

lemma jitter_within: "isolated_backoff_jitter_stays_within_half_to_full_exponential_delay pick"
  by (simp add: isolated_backoff_jitter_stays_within_half_to_full_exponential_delay_def Let_def
      backoff_with_jitter_range list_all_iff)

section \<open>The identity\<close>

definition persists_stable_identity ::
  "'sk key_lib \<Rightarrow> ('pk, 'sk) libp2p_lib \<Rightarrow> string option \<Rightarrow> 'sk \<Rightarrow> 'sk \<Rightarrow> string \<Rightarrow> bool"
where
  "persists_stable_identity keys lib parent fresh1 fresh2 path \<longleftrightarrow>
     (case load_or_create_identity keys parent fresh1 path \<lparr> dk_files = Map.empty, dk_future = [] \<rparr> of
        (Inl _, _) \<Rightarrow> False
      | (Inr first, d) \<Rightarrow>
          (case load_or_create_identity keys parent fresh2 path d of
             (Inl _, _) \<Rightarrow> False
           | (Inr second, _) \<Rightarrow>
               lp_peer_of_key lib (lp_public lib first) = lp_peer_of_key lib (lp_public lib second)))"

lemma identity_persisted:
  "kl_to_protobuf keys fresh1 = Inr b \<Longrightarrow> kl_from_protobuf keys b = Inr fresh1 \<Longrightarrow>
     persists_stable_identity keys lib parent fresh1 fresh2 path"
  by (cases parent) (simp_all add: persists_stable_identity_def load_or_create_identity_def read_file_def tick_def
      create_identity_def create_dir_all_def write_private_file_def create_new_def write_all_def sync_all_def proc_defs)

definition rejects_corrupt_identity :: "'sk key_lib \<Rightarrow> string option \<Rightarrow> 'sk \<Rightarrow> string \<Rightarrow> bool" where
  "rejects_corrupt_identity keys parent fresh path \<longleftrightarrow>
     (case load_or_create_identity keys parent fresh path
         \<lparr> dk_files = [path \<mapsto> string_bytes ''not a key''], dk_future = [] \<rparr> of
        (Inl (IdentityDecode _), _) \<Rightarrow> True | _ \<Rightarrow> False)"

lemma corrupt_identity_rejected:
  "kl_from_protobuf keys (string_bytes ''not a key'') = Inl e \<Longrightarrow> rejects_corrupt_identity keys parent fresh path"
  by (simp add: rejects_corrupt_identity_def load_or_create_identity_def read_file_def tick_def)

section \<open>The command line\<close>

text \<open>
  What the parser makes of the arguments of the tests: those given, the defaults for the others,
  or nothing when the annotations are not met.
\<close>

definition parsed :: "cli \<Rightarrow> cli option" where
  "parsed given = (if descriptor_source given then Some given else None)"

abbreviation rpc_cli :: cli where
  "rpc_cli \<equiv> default_cli ''https://ethereum.example''"

definition application_cli :: "string \<Rightarrow> cli option" where
  "application_cli application =
     parsed (rpc_cli\<lparr> cli_application := Some application, cli_major_version := Some 1 \<rparr>)"

abbreviation NAMESPACE :: string where
  "NAMESPACE \<equiv> ''0x80b9e2baaf4a666ec32337c351ad59485b3a43eca09a5f372e2f84b981123c88''"

definition accepts_canonical_mainnet_shortcut_with_explicit_namespace ::
  "(string \<Rightarrow> b256 option) \<Rightarrow> (b256 \<Rightarrow> string) \<Rightarrow> bool"
where
  "accepts_canonical_mainnet_shortcut_with_explicit_namespace parse_b256 show_b256 \<longleftrightarrow>
     (case namespace_from_str parse_b256 NAMESPACE of Inl _ \<Rightarrow> False | Inr ns \<Rightarrow>
      case parsed (rpc_cli\<lparr> cli_namespace := Some ns \<rparr>) of None \<Rightarrow> False | Some cli \<Rightarrow>
        cli_descriptor cli = None \<and>
        map_option (namespace_display show_b256) (cli_namespace cli) = Some NAMESPACE \<and>
        cli_application cli = None \<and> cli_major_version cli = None)"

lemma shortcut_accepted:
  "parse_b256 NAMESPACE = Some w \<Longrightarrow> show_b256 w = NAMESPACE \<Longrightarrow>
     accepts_canonical_mainnet_shortcut_with_explicit_namespace parse_b256 show_b256"
  by (simp add: accepts_canonical_mainnet_shortcut_with_explicit_namespace_def namespace_from_str_def parsed_def
      descriptor_source_def default_cli_def namespace_display_def)

definition requires_one_complete_and_unambiguous_descriptor_source :: "namespace \<Rightarrow> bool" where
  "requires_one_complete_and_unambiguous_descriptor_source ns \<longleftrightarrow>
     list_all (\<lambda>given. parsed given = None)
       [rpc_cli,
        rpc_cli\<lparr> cli_descriptor := Some ''network.json'', cli_namespace := Some ns \<rparr>,
        rpc_cli\<lparr> cli_application := Some ''example-network'' \<rparr>,
        rpc_cli\<lparr> cli_major_version := Some 1 \<rparr>,
        rpc_cli\<lparr> cli_namespace := Some ns, cli_application := Some ''example-network'',
          cli_major_version := Some 1 \<rparr>]"

lemma one_source_required: "requires_one_complete_and_unambiguous_descriptor_source ns"
  by (simp add: requires_one_complete_and_unambiguous_descriptor_source_def parsed_def descriptor_source_def
      default_cli_def)

definition derives_namespace_from_application_and_major_version ::
  "('w, 'p, 'pk, 'sk, 'signer) node_libs \<Rightarrow> (b256 \<Rightarrow> string) \<Rightarrow> disk \<Rightarrow> bool"
where
  "derives_namespace_from_application_and_major_version libs show_b256 d \<longleftrightarrow>
     (case application_cli ''example-network'' of None \<Rightarrow> False | Some cli \<Rightarrow>
      case fst (load_descriptor libs cli d) of Inl _ \<Rightarrow> False | Inr descriptor \<Rightarrow>
        namespace_display show_b256 (nd_namespace descriptor) = NAMESPACE)"

definition rejects_empty_application_identifier :: "('w, 'p, 'pk, 'sk, 'signer) node_libs \<Rightarrow> disk \<Rightarrow> bool" where
  "rejects_empty_application_identifier libs d \<longleftrightarrow>
     (case application_cli [] of None \<Rightarrow> False | Some cli \<Rightarrow>
      case fst (load_descriptor libs cli d) of Inl _ \<Rightarrow> True | Inr _ \<Rightarrow> False)"

lemmas cli_eval = application_cli_def parsed_def descriptor_source_def default_cli_def load_descriptor_def
  cli_namespace_of_def lift_res_def

lemma application_derived:
  "known_hash (nl_keccak libs) show_b256 \<Longrightarrow> derives_namespace_from_application_and_major_version libs show_b256 d"
  by (simp add: derives_namespace_from_application_and_major_version_def cli_eval ethereum_mainnet_def
      ethereum_mainnet_registry_def validate_def)
    (simp add: known_hash_def namespace_display_def derive_def stable_preimage)

lemma empty_application_rejected: "rejects_empty_application_identifier libs d"
  by (simp add: rejects_empty_application_identifier_def cli_eval)

section \<open>Configured peers\<close>

definition configured_peer_requires_terminal_peer_id :: "multiaddr_lib \<Rightarrow> host_text \<Rightarrow> bool" where
  "configured_peer_requires_terminal_peer_id mlib text \<longleftrightarrow>
     (case ma_parse mlib local_address of None \<Rightarrow> False | Some address \<Rightarrow>
      case split_configured_peer text address of Inl (InvalidConfiguredPeer _) \<Rightarrow> True | _ \<Rightarrow> False)"

lemma peer_id_required: "reads_addresses mlib \<Longrightarrow> configured_peer_requires_terminal_peer_id mlib text"
  by (simp add: configured_peer_requires_terminal_peer_id_def reads_addresses_def split_configured_peer_def tcp4_def)

section \<open>The cache\<close>

text \<open>
  The codec of the tests admits eight endpoints of any address. Time passes between storing
  and loading.
\<close>

definition cache_codecs :: "multiaddr_lib \<Rightarrow> ('pk, 'sk) libp2p_lib \<Rightarrow> codec_registry" where
  "cache_codecs mlib lib = register new_registry (libp2p_codec mlib lib local_testing 8)"

definition cache_fixture :: "multiaddr_lib \<Rightarrow> ('pk, 'sk) libp2p_lib \<Rightarrow> cache_config" where
  "cache_fixture mlib lib = open_cache (cache_codecs mlib lib) [RECORD_TYPE_LIBP2P] NativeServer 16"

definition persists_and_revalidates_signed_records ::
  "(bytes \<Rightarrow> b256) \<Rightarrow> multiaddr_lib \<Rightarrow> ('pk, 'sk) libp2p_lib \<Rightarrow> 'sk \<Rightarrow> duration option \<Rightarrow> duration option \<Rightarrow> bool"
where
  "persists_and_revalidates_signed_records keccak mlib lib key clock later \<longleftrightarrow>
     (case ma_parse mlib local_address of None \<Rightarrow> False | Some address \<Rightarrow>
      case sign_peer_record mlib lib key 7 [address] of Inl _ \<Rightarrow> False | Inr raw \<Rightarrow>
      case cache_unix_time clock of Inl _ \<Rightarrow> False | Inr now \<Rightarrow>
        (let candidate = \<lparr> pc_record_type = RECORD_TYPE_LIBP2P, pc_peer_id = lp_peer_of_key lib (lp_public lib key),
               pc_sequence = 7, pc_endpoints = [\<lparr> ep_address = ma_show mlib address \<rparr>],
               pc_raw_signed_record = raw, pc_expires_at = now + 600, pc_source = ResurrectRegistry,
               pc_announcement_block = Some 12, pc_announcement_log_index = Some 1 \<rparr>;
             ns = derive keccak ''cache-test'' 1
         in case store_verified ns [candidate] (initialize None) of
              (Inl _, _) \<Rightarrow> False
            | (Inr _, db) \<Rightarrow>
                (case cache_discover keccak (cache_fixture mlib lib) cache_error_text (cache_unix_time later) ns db of
                   (Inl _, _) \<Rightarrow> False
                 | (Inr loaded, _) \<Rightarrow>
                     length loaded = 1 \<and> pc_sequence (loaded ! 0) = 7 \<and> pc_source (loaded ! 0) = LocalCache)))"

lemma secs_value: "n < 2 ^ 63 \<Longrightarrow> unat (as_secs (from_secs n)) = n"
  by (simp add: as_secs_def from_secs_def unsigned_of_nat take_bit_nat_eq_self)

text \<open>A signed record is short enough to be announced and cached, and then validates.\<close>

lemma test_key_short:
  assumes "signing_keys mlib lib key other" and "sign_peer_record mlib lib key n [a] = Inr raw"
    and "a \<in> test_addresses" and "accepts local_testing a (Some (lp_peer_of_key lib (lp_public lib key))) NativeServer"
  shows "raw \<noteq> []" and "length raw \<le> DEFAULT_MAX_RECORD_BYTES"
  using test_key_decodes [OF assms(1-3), of 8 local_testing NativeServer] assms(4)
  by (auto simp: libp2p_codec_def decode_libp2p_def MAX_ENVELOPE_BYTES_def DEFAULT_MAX_RECORD_BYTES_def split: if_splits)

lemma test_key_announced:
  assumes "signing_keys mlib lib key other" and "sign_peer_record mlib lib key n [a] = Inr raw"
    and "a \<in> test_addresses" and "accepts local_testing a (Some (lp_peer_of_key lib (lp_public lib key))) NativeServer"
    and "now < until"
  shows "validate_announcement (cache_codecs mlib lib)
      \<lparr> an_namespace = ns, an_record_type = RECORD_TYPE_LIBP2P, an_valid_until = until, an_peer_record = raw,
        an_block_number = block, an_log_index = log, an_block_hash = None \<rparr>
      \<lparr> ap_expected_namespace = ns, ap_accepted_record_types = [RECORD_TYPE_LIBP2P], ap_chain_time = now,
        ap_max_record_bytes = DEFAULT_MAX_RECORD_BYTES, ap_max_endpoints = DEFAULT_MAX_ENDPOINTS_PER_RECORD,
        ap_dial_context = NativeServer \<rparr> =
    Inr \<lparr> pc_record_type = RECORD_TYPE_LIBP2P, pc_peer_id = lp_peer_of_key lib (lp_public lib key),
      pc_sequence = n, pc_endpoints = [\<lparr> ep_address = ma_show mlib a \<rparr>], pc_raw_signed_record = raw,
      pc_expires_at = until, pc_source = ResurrectRegistry, pc_announcement_block = Some block,
      pc_announcement_log_index = Some log \<rparr>"
  using test_key_decodes [OF assms(1-3), of 8 local_testing NativeServer] test_key_short [OF assms(1-4)] assms(4,5)
  by (simp add: validate_announcement_def cache_codecs_def register_def libp2p_codec_def
      DEFAULT_MAX_ENDPOINTS_PER_RECORD_def)

lemma records_persisted:
  assumes "reads_addresses mlib" and "signing_keys mlib lib key other"
    and clock: "clock = Some (from_secs n)" "later = Some (from_secs m)" "m < n + 600" "n + 600 < 2 ^ 63"
  shows "persists_and_revalidates_signed_records keccak mlib lib key clock later"
proof -
  let ?a = "tcp4 (ip4 127 0 0 1)" and ?ns = "derive keccak ''cache-test'' 1"
  let ?now = "as_secs (from_secs n) :: u64" and ?later = "as_secs (from_secs m) :: u64"
  have parse: "ma_parse mlib local_address = Some ?a" using assms(1) by (simp add: reads_addresses_def)
  obtain raw where raw: "sign_peer_record mlib lib key 7 [?a] = Inr raw"
    using test_key_signs [OF assms(2) test_addresses_in(1), of 7] by auto
  have secs: "unat ?now = n" "unat ?later = m" "unat (?now + 600) = n + 600"
    using clock(3,4) secs_value [of n] secs_value [of m] by (simp_all add: unat_word_ariths)
  then have late: "?later < ?now + 600" using clock(3) by (simp add: word_less_nat_alt)
  have lawful: "lawful_registry (cache_codecs mlib lib)"
    by (simp add: cache_codecs_def lawful_register signed.verifying_codec_axioms)
  note ann = test_key_announced [OF assms(2) raw test_addresses_in(1) default_accepts(7) late, of ?ns 12 1]
    test_key_short(2) [OF assms(2) raw test_addresses_in(1) default_accepts(7)]
  obtain db where "store_verified ?ns [\<lparr> pc_record_type = RECORD_TYPE_LIBP2P,
      pc_peer_id = lp_peer_of_key lib (lp_public lib key), pc_sequence = 7,
      pc_endpoints = [\<lparr> ep_address = ma_show mlib ?a \<rparr>], pc_raw_signed_record = raw,
      pc_expires_at = ?now + 600, pc_source = ResurrectRegistry, pc_announcement_block = Some 12,
      pc_announcement_log_index = Some 1 \<rparr>] [] = (Inr (), db)"
    and "cache_discover keccak (cache_fixture mlib lib) cache_error_text (Inr ?later) ?ns db =
      (Inr [\<lparr> pc_record_type = RECORD_TYPE_LIBP2P, pc_peer_id = lp_peer_of_key lib (lp_public lib key), pc_sequence = 7,
        pc_endpoints = [\<lparr> ep_address = ma_show mlib ?a \<rparr>], pc_raw_signed_record = raw,
        pc_expires_at = ?now + 600, pc_source = LocalCache, pc_announcement_block = Some 12,
        pc_announcement_log_index = Some 1 \<rparr>], db)"
    using stored_candidate_returns [where types = "[RECORD_TYPE_LIBP2P]" and now = ?later and ns = ?ns and keccak = keccak
        and n = 16 and error_text = cache_error_text, OF lawful ann(1)] ann(2) late secs clock(4)
    by (auto simp: fits_def opt_default_def cache_fixture_def DEFAULT_MAX_ENDPOINTS_PER_RECORD_def)
  with parse raw clock(1,2) show ?thesis
    by (simp add: persists_and_revalidates_signed_records_def cache_unix_time_def initialize_def Let_def del: One_nat_def)
qed

definition rejects_tampered_and_expired_rows ::
  "(bytes \<Rightarrow> b256) \<Rightarrow> multiaddr_lib \<Rightarrow> ('pk, 'sk) libp2p_lib \<Rightarrow> duration option \<Rightarrow> bool"
where
  "rejects_tampered_and_expired_rows keccak mlib lib clock \<longleftrightarrow>
     (let ns = derive keccak ''cache-test'' 1;
          db = initialize None @ [\<lparr> cr_namespace = as_b256 ns, cr_record_type = 2, cr_peer_id = [1], cr_sequence = 1,
            cr_raw_signed_record = [0], cr_expires_at = 1, cr_announcement_block = Some 1,
            cr_announcement_log_index = Some 1 \<rparr>]
      in fst (cache_discover keccak (cache_fixture mlib lib) cache_error_text (cache_unix_time clock) ns db) = Inr [] \<and>
         fst (prune_expired (cache_unix_time clock) db) = Inr 0)"

lemmas cache_eval = cache_discover_def load_def load_rows_def read_row_def optional_u64_def cache_fixture_def open_cache_def
  cache_codecs_def register_def validate_announcement_def row_announcement_def cache_policy_def libp2p_codec_def
  initialize_def traverse.simps

lemma rows_rejected:
  assumes "clock = Some (from_secs n)" and "1 \<le> n" and "n < 2 ^ 63"
  shows "rejects_tampered_and_expired_rows keccak mlib lib clock"
proof -
  note n = secs_value [OF assms(3)]
  then have "1 \<le> as_secs (from_secs n)" "uint (as_secs (from_secs n)) = int n" using assms(2)
    by (simp_all add: word_le_nat_alt uint_nat)
  with n assms show ?thesis
    by (simp add: rejects_tampered_and_expired_rows_def cache_eval cache_unix_time_def RECORD_TYPE_LIBP2P_def
        store_ranked_def store_new_def prune_expired_def to_i64_def Let_def split: namespace.split)
qed

section \<open>The announcer\<close>

definition announcer_descriptor :: "(bytes \<Rightarrow> b256) \<Rightarrow> network_descriptor" where
  "announcer_descriptor keccak =
     \<lparr> nd_resurrect_version = 1,
       nd_registry = \<lparr> rd_chain_id = 31337, rd_address = 0, rd_deployment_block = 0,
         rd_max_ttl_seconds = MAX_TTL_SECONDS \<rparr>,
       nd_namespace = derive keccak ''announcer'' 1, nd_accepted_record_types = [RECORD_TYPE_LIBP2P] \<rparr>"

text \<open>
  The random number drawn is an argument, and so are the clock's readings. With a lifetime of a
  minute the renewal may fall on the next second, so the test needs its last reading to be
  in the second of the announcement.
\<close>

definition eligible_announcer_signs_and_tracks_renewal ::
  "(bytes \<Rightarrow> b256) \<Rightarrow> multiaddr_lib \<Rightarrow> ('pk, 'sk) libp2p_lib \<Rightarrow> error_texts \<Rightarrow> 'sk \<Rightarrow> nat \<Rightarrow>
   duration option \<Rightarrow> duration option \<Rightarrow> duration option \<Rightarrow> bool"
where
  "eligible_announcer_signs_and_tracks_renewal keccak mlib lib texts key pick created announced later \<longleftrightarrow>
     (case ma_parse mlib local_address of None \<Rightarrow> False | Some address \<Rightarrow>
      case unix_time created of Inl _ \<Rightarrow> False | Inr now \<Rightarrow>
        (let provider = recording_provider now 31337
               \<lparr> rc_version = 1, rc_max_ttl = MAX_TTL_SECONDS, rc_max_record_bytes = 4096 \<rparr>;
             config = \<lparr> ac_descriptor = announcer_descriptor keccak, ac_keypair = key, ac_addresses = [address],
               ac_eligible = True, ac_renewal_interval = from_secs 600 \<rparr>;
             announcer = new_announcer (sequence_now created) no_telemetry
         in renewal_due config (unix_time created) announcer \<and>
            (case announce mlib lib texts provider config (unix_time announced) pick (from_secs 60) ([], announcer) of
               (Inl _, _) \<Rightarrow> False
             | (Inr _, records, s) \<Rightarrow>
                 \<not> renewal_due config (unix_time later) s \<and> length records = 1 \<and>
                 ts_announcements (snapshot (na_telemetry s)) = 1)))"

definition announcer_rejects_wrong_chain_and_registry_constants_before_writing ::
  "(bytes \<Rightarrow> b256) \<Rightarrow> multiaddr_lib \<Rightarrow> ('pk, 'sk) libp2p_lib \<Rightarrow> error_texts \<Rightarrow> 'sk \<Rightarrow> nat \<Rightarrow> duration option \<Rightarrow> bool"
where
  "announcer_rejects_wrong_chain_and_registry_constants_before_writing keccak mlib lib texts key pick clock \<longleftrightarrow>
     (case ma_parse mlib local_address of None \<Rightarrow> False | Some address \<Rightarrow>
      case unix_time clock of Inl _ \<Rightarrow> False | Inr now \<Rightarrow>
        list_all (\<lambda>provider.
          let config = \<lparr> ac_descriptor = announcer_descriptor keccak, ac_keypair = key, ac_addresses = [address],
                ac_eligible = True, ac_renewal_interval = from_secs 600 \<rparr>
          in case announce mlib lib texts provider config (unix_time clock) pick (from_secs 60)
               ([], new_announcer (sequence_now clock) no_telemetry) of
               (Inl _, records, _) \<Rightarrow> records = []
             | (Inr _, _) \<Rightarrow> False)
          [recording_provider now 1
             \<lparr> rc_version = 1, rc_max_ttl = MAX_TTL_SECONDS, rc_max_record_bytes = 4096 \<rparr>,
           recording_provider now 31337
             \<lparr> rc_version = 2, rc_max_ttl = MAX_TTL_SECONDS, rc_max_record_bytes = 4096 \<rparr>])"

definition renewal_jitter_is_symmetric_bounded_and_before_expiry :: "nat list \<Rightarrow> nat \<Rightarrow> bool" where
  "renewal_jitter_is_symmetric_bounded_and_before_expiry picks pick1 \<longleftrightarrow>
     list_all (\<lambda>pick.
       let delay = jittered_renewal pick (14 * 24 * 60 * 60) (30 * 24 * 60 * 60)
       in 13 * 24 * 60 * 60 \<le> delay \<and> delay \<le> 15 * 24 * 60 * 60 \<and> delay < 30 * 24 * 60 * 60) picks \<and>
     jittered_renewal pick1 1 1 = 1"

lemmas announce_eval = announce_def announce_checks_def announcer_descriptor_def recording_provider_def new_announcer_def
  and_then_def proc_err_def lift_res_def ensure_def succeed_def check_ttl_def verify_chain_id_def
  check_constants_def RESURRECT_VERSION_def DEFAULT_MAX_RECORD_BYTES_def MAX_TTL_SECONDS_def from_secs_def

lemma announcer_announces:
  assumes "reads_addresses mlib" and "signing_keys mlib lib key other" and "created \<noteq> None"
    and clock: "announced = Some (from_secs n)" "later = Some (from_secs m)" "m \<le> n" "n < 2 ^ 63"
  shows "eligible_announcer_signs_and_tracks_renewal keccak mlib lib texts key pick created announced later"
proof -
  let ?a = "tcp4 (ip4 127 0 0 1)" and ?after = "jittered_renewal pick 30 60"
  obtain raw where raw: "sign_peer_record mlib lib key (sequence_now created) [?a] = Inr raw"
    using test_key_signs [OF assms(2) test_addresses_in(1), of "sequence_now created"] by auto
  have "1 \<le> unat ?after" "unat ?after < 60"
    by (rule jittered_value [where pick = pick and base = 30 and ttl = 60]; simp)+
  then have "unat (saturating_add (as_secs (from_secs n)) ?after) = n + unat ?after"
    using clock(4) secs_value [of n] by (simp add: unat_saturating_add)
  then have "\<not> saturating_add (as_secs (from_secs n)) ?after \<le> as_secs (from_secs m)"
    using clock(3,4) secs_value [of m] \<open>1 \<le> unat ?after\<close> by (simp add: word_le_nat_alt)
  moreover have "unat (as_secs (from_secs 60)) = 60" by (simp add: secs_value)
  moreover have "as_secs (from_secs 600) = 600" by (simp add: as_secs_def from_secs_def)
  ultimately show ?thesis
    using assms(1,3) raw clock(1,2)
    by (auto simp: eligible_announcer_signs_and_tracks_renewal_def reads_addresses_def unix_time_def
        renewal_due_def snapshot_def no_telemetry_def announce_eval Let_def)
qed

lemma announcer_rejects:
  "reads_addresses mlib \<Longrightarrow> clock \<noteq> None \<Longrightarrow>
     announcer_rejects_wrong_chain_and_registry_constants_before_writing keccak mlib lib texts key pick clock"
  by (auto simp: announcer_rejects_wrong_chain_and_registry_constants_before_writing_def reads_addresses_def
      unix_time_def announce_eval as_secs_def)

lemma jitter_bounded: "renewal_jitter_is_symmetric_bounded_and_before_expiry picks pick1"
proof -
  have "13 * 24 * 60 * 60 \<le> jittered_renewal pick (14 * 24 * 60 * 60) (30 * 24 * 60 * 60) \<and>
      jittered_renewal pick (14 * 24 * 60 * 60) (30 * 24 * 60 * 60) \<le> 15 * 24 * 60 * 60 \<and>
      jittered_renewal pick (14 * 24 * 60 * 60) (30 * 24 * 60 * 60) < 30 * 24 * 60 * 60" for pick
    by (rule jittered_value [where pick = pick and base = "14 * 24 * 60 * 60" and ttl = "30 * 24 * 60 * 60"])
      (auto simp: word_le_nat_alt word_less_nat_alt)
  moreover have "jittered_renewal pick1 1 1 = 1" by (simp add: jittered_renewal_def saturating_sub_def)
  ultimately show ?thesis
    by (simp only: renewal_jitter_is_symmetric_bounded_and_before_expiry_def list_all_iff Let_def) blast
qed

section \<open>Two hosts\<close>

text \<open>
  The network between the hosts is their schedule: the swarm of a host reports the address it
  is bound to, and a dial of the peer at the address where it listens is accepted and becomes
  a connection.
\<close>

definition local_config :: "multiaddr \<Rightarrow> host_config" where
  "local_config listen_address =
     \<lparr> hc_listen_addresses = [listen_address], hc_configured_peers = [], hc_enable_mdns = False,
       hc_idle_connection_timeout = from_secs 30 \<rparr>"

definition reaches_peer :: "peer_id \<Rightarrow> multiaddr \<Rightarrow> peer_id \<Rightarrow> multiaddr list \<Rightarrow> string + unit" where
  "reaches_peer peer bound p addresses =
     (if p = peer \<and> bound \<in> set addresses then Inr () else Inl ''unreachable'')"

definition started_live ::
  "('pk, 'sk) live_libs \<Rightarrow> peer_id \<Rightarrow> host_config \<Rightarrow> multiaddr \<Rightarrow> happening list \<Rightarrow>
   (host_status \<times> live_host) option"
where
  "started_live L peer config bound later =
     (case start (ll_text L) (Inr ()) (\<lambda>_. True) peer config of
        Inl _ \<Rightarrow> None
      | Inr loop \<Rightarrow>
          (case live_wait_for_listener L
              (new_live_host loop None [] (SwarmReports (NewListenAddr bound) # later)) of
             (Inl _, _) \<Rightarrow> None
           | (Inr status, host) \<Rightarrow> Some (status, host)))"

definition connect_returns :: "('pk, 'sk) live_libs \<Rightarrow> peer_candidate \<Rightarrow> live_host \<Rightarrow> bool \<times> live_host" where
  "connect_returns L peer h =
     (case await_reply L (lv_next_sender h) (live_connect L peer h) of
        (received, v) \<Rightarrow>
          (fst (host_connect True (Some (case received of Some (DialReply r) \<Rightarrow> Some r | _ \<Rightarrow> None))), end_dial (length (lv_flying h)) v))"

definition ask_native ::
  "('pk, 'sk) live_libs \<Rightarrow> live_host \<Rightarrow> (host_error + peer_candidate list) \<times> live_host"
where
  "ask_native L h =
     (case new_sender h of (w, h1) \<Rightarrow>
      case live_send L (CmdNativeCandidates w) h1 of (sent, h2) \<Rightarrow>
      case await_reply L w h2 of (received, h3) \<Rightarrow>
        (request_native sent (case received of Some (NativeReply peers) \<Rightarrow> Some peers | _ \<Rightarrow> None), h3))"

definition listening_candidate :: "peer_id \<Rightarrow> host_status \<Rightarrow> peer_candidate" where
  "listening_candidate peer status =
     \<lparr> pc_record_type = RECORD_TYPE_LIBP2P, pc_peer_id = peer, pc_sequence = 1,
       pc_endpoints = [\<lparr> ep_address = hs_listen_addresses status ! 0 \<rparr>], pc_raw_signed_record = [1],
       pc_expires_at = - 1, pc_source = ResurrectRegistry, pc_announcement_block = None,
       pc_announcement_log_index = None \<rparr>"

definition two_hosts_complete_authenticated_dial ::
  "('pk, 'sk) live_libs \<Rightarrow> peer_id \<Rightarrow> peer_id \<Rightarrow> multiaddr \<Rightarrow> multiaddr \<Rightarrow> bool"
where
  "two_hosts_complete_authenticated_dial L peer_a peer_b bound_a bound_b \<longleftrightarrow>
     (case started_live L peer_a (local_config [Ip4 (ip4 127 0 0 1), Tcp 0]) bound_a [] of
        None \<Rightarrow> False
      | Some (status_a, host_a) \<Rightarrow>
     (case started_live L peer_b (local_config [Ip4 (ip4 127 0 0 1), Tcp 0]) bound_b
         [LoopTakes (reaches_peer peer_a bound_a), SwarmReports (HostConnectionEstablished peer_a)] of
        None \<Rightarrow> False
      | Some (_, host_b) \<Rightarrow>
     (case connect_returns L (listening_candidate peer_a status_a) host_b of
        (ok, host_b) \<Rightarrow>
          ok \<and> length (hs_connected_peers (el_status (lv_loop host_b))) = 1 \<and>
          \<not> el_running (lv_loop (live_shutdown L host_b)) \<and> \<not> el_running (lv_loop (live_shutdown L host_a)))))"

definition two_hosts_complete_authenticated_websocket_dial ::
  "('pk, 'sk) live_libs \<Rightarrow> multiaddr \<Rightarrow> peer_id \<Rightarrow> peer_id \<Rightarrow> multiaddr \<Rightarrow> multiaddr \<Rightarrow> bool"
where
  "two_hosts_complete_authenticated_websocket_dial L ws peer_a peer_b bound_a bound_b \<longleftrightarrow>
     (case started_live L peer_a ((local_config [Ip4 (ip4 127 0 0 1), Tcp 0])\<lparr> hc_listen_addresses := [ws] \<rparr>)
         bound_a [] of
        None \<Rightarrow> False
      | Some (status_a, host_a) \<Rightarrow>
     (case started_live L peer_b (local_config [Ip4 (ip4 127 0 0 1), Tcp 0]) bound_b
         [LoopTakes (reaches_peer peer_a bound_a), SwarmReports (HostConnectionEstablished peer_a)] of
        None \<Rightarrow> False
      | Some (_, host_b) \<Rightarrow>
     (case connect_returns L (listening_candidate peer_a status_a) host_b of
        (ok, host_b) \<Rightarrow>
          ok \<and> hs_connected_peers (el_status (lv_loop host_b)) = [ht_peer (ll_text L) peer_a] \<and>
          \<not> el_running (lv_loop (live_shutdown L host_b)) \<and> \<not> el_running (lv_loop (live_shutdown L host_a)))))"

definition configured_peer_is_a_native_candidate ::
  "('pk, 'sk) live_libs \<Rightarrow> peer_id \<Rightarrow> peer_id \<Rightarrow> multiaddr \<Rightarrow> multiaddr \<Rightarrow> bool"
where
  "configured_peer_is_a_native_candidate L peer_a peer_b bound_a bound_b \<longleftrightarrow>
     (case started_live L peer_a (local_config [Ip4 (ip4 127 0 0 1), Tcp 0]) bound_a [] of
        None \<Rightarrow> False
      | Some (status_a, host_a) \<Rightarrow>
     (case ma_parse (ll_multiaddr L) (hs_listen_addresses status_a ! 0) of
        None \<Rightarrow> False
      | Some address \<Rightarrow>
     (case started_live L peer_b
         ((local_config [Ip4 (ip4 127 0 0 1), Tcp 0])\<lparr> hc_configured_peers := [address @ [P2p peer_a]] \<rparr>) bound_b
         [LoopTakes (reaches_peer peer_a bound_a), LoopTakes (reaches_peer peer_a bound_a),
          SwarmReports (HostConnectionEstablished peer_a)] of
        None \<Rightarrow> False
      | Some (_, host_b) \<Rightarrow>
     (case ask_native L host_b of
        (Inl _, _) \<Rightarrow> False
      | (Inr candidates, host_b) \<Rightarrow>
          length candidates = 1 \<and> pc_peer_id (candidates ! 0) = peer_a \<and>
          pc_source (candidates ! 0) = discovery_source_kind.Native \<and>
          (case connect_returns L (candidates ! 0) host_b of
             (ok, host_b) \<Rightarrow>
               ok \<and> \<not> el_running (lv_loop (live_shutdown L host_b)) \<and>
               \<not> el_running (lv_loop (live_shutdown L host_a)))))))"

text \<open>The text of the listening address reads back, and the bytes of the peer are a peer id.\<close>

definition test_hosts :: "('pk, 'sk) live_libs \<Rightarrow> peer_id \<Rightarrow> multiaddr \<Rightarrow> bool" where
  "test_hosts L peer bound \<longleftrightarrow>
     bound \<noteq> [] \<and> ma_parse (ll_multiaddr L) (ht_address (ll_text L) bound) = Some bound \<and>
     lp_peer_from_bytes (ll_libp2p L) peer = Inr peer"

lemmas host_eval = started_live_def connect_returns_def ask_native_def listening_candidate_def local_config_def
  reaches_peer_def start_def new_event_loop_def new_live_host_def live_wait_for_listener_def live_connect_def
  live_send_def new_sender_def await_reply_def has_settled_def take_command_def feed_def host_step_def
  dial_def reply_def leave_loop_def host_publish_status_def complete_dials_def answer_all_def add_waiter_def
  swarm_env_def host_connect_def request_native_def native_candidates_def live_shutdown_def look_def
  split_configured_peer_def add_addresses_def List.insert_def List.map_filter_def
  close_channel_def end_dial_def remove_nth_def

lemma hosts_dial:
  "test_hosts L peer_a bound_a \<Longrightarrow> two_hosts_complete_authenticated_dial L peer_a peer_b bound_a bound_b"
  by (simp add: two_hosts_complete_authenticated_dial_def test_hosts_def host_eval Let_def)


lemma hosts_dial_websocket:
  "test_hosts L peer_a bound_a \<Longrightarrow> two_hosts_complete_authenticated_websocket_dial L ws peer_a peer_b bound_a bound_b"
  by (simp add: two_hosts_complete_authenticated_websocket_dial_def test_hosts_def host_eval Let_def)

lemma configured_peer_offered:
  "test_hosts L peer_a bound_a \<Longrightarrow> configured_peer_is_a_native_candidate L peer_a peer_b bound_a bound_b"
  by (simp add: configured_peer_is_a_native_candidate_def test_hosts_def host_eval Let_def)


lemma test_hosts_toy:
  "test_hosts \<lparr> ll_multiaddr = test_mlib, ll_libp2p = test_lib,
     ll_text = \<lparr> ht_peer = (\<lambda>_. ''12D3''), ht_address = (\<lambda>_. ''/ip4/8.8.8.8/tcp/4001'') \<rparr> \<rparr> [1] (tcp4 (ip4 8 8 8 8))"
  by (simp add: test_hosts_def test_mlib_def test_lib_def tcp4_def)

end
