(* ===== verification/Spec2Isabelle.thy ===== *)
theory Spec2Isabelle
  imports Eth_Alloy Supervisor_Returns Libp2p_Behaviour Node_Returns
    Core_Tests Eth_Tests Bootstrap_Tests Libp2p_Tests Node_Tests
begin

text \<open>
  Resurrect v1: a verified model of the Rust crates under \<open>src/crates\<close>.

  A Resurrect node that has lost all its peers finds new ones through an Ethereum registry
  contract. Seeds publish signed peer records there; an isolated node scans the registry's
  recent events, verifies the records, and dials a deterministic sample of them. The program
  is five crates: the protocol core (\<open>resurrect-core\<close>), the registry reader
  (\<open>resurrect-ethereum\<close>), the bootstrap state machine (\<open>resurrect-bootstrap\<close>), the libp2p
  codecs and swarm integration (\<open>resurrect-libp2p\<close>) and the reference node
  (\<open>resurrect-node\<close>). The development models the code of all five, and runs their unit tests.

  Conventions. A Rust struct is a record, an enum a datatype, \<open>uN\<close> an N-bit word, \<open>usize\<close> a
  natural number, a \<open>Duration\<close> its nanoseconds, a \<open>Result\<close> a sum whose left side is the error,
  a \<open>HashMap\<close> a partial function or an association list with distinct keys. An \<open>async\<close> function
  or one with effects is a procedure (\<open>proc\<close> of Resurrect_Prelude): it takes the state of the
  outside world and returns a result and the next state, and \<open>?\<close> after an \<open>await\<close> is
  \<open>and_then\<close>. Traits are records of such procedures, so a theorem about all records is one about
  all implementations, whatever they answer. Third-party packages (hashing, RLP, protobuf,
  JSON, multiaddr text, signatures, the JSON-RPC client, the swarm, the SQL engine) are
  parameters; where a theorem needs their documented behaviour it is a named hypothesis
  (\<open>lawful_libp2p\<close>, \<open>chain_view\<close>, \<open>lawful_registry\<close>) with an instance that satisfies it.

  Theories and the code they model.

  Resurrect_Prelude: machine integers, bytes, decimal text, durations, results, procedures.
  Core_Namespace (\<open>namespace.rs\<close>): derivation and text of namespaces.
  Core_Descriptor (\<open>descriptor.rs\<close>): network descriptors, their validation, canonical JSON and
  the two lossless integer encodings.
  Core_Record (\<open>peer_record.rs\<close>): candidates, identity keys, and the codec trait, whose contract
  is the locale \<open>verifying_codec\<close>, interpreted on both codecs.
  Core_Validation (\<open>validation.rs\<close>): the codec registry and \<open>validate_announcement\<close>.
  Core_Candidates, Core_Sample (\<open>validation.rs\<close>): the bounded candidate store; its
  specification is the lowest-scored sample of the freshest records, and the order of
  insertions does not matter.
  Eth_Provider, Eth_Scanner (\<open>provider.rs\<close>, \<open>scanner.rs\<close>): the provider trait, and the scan:
  constants, confirmed head, binary search for the first block, log queries whose width
  halves at range limits, reorg detection. Eth_Scan_Window, Eth_Scan_Logs, Eth_Scan and
  Eth_Scan_Chain prove it sound against any provider and complete against one that serves
  a consistent chain (locale \<open>chain_view\<close>, interpreted on the test double of Eth_Mock).
  Eth_Alloy (\<open>alloy_provider.rs\<close>, \<open>abi.rs\<close>): the JSON-RPC provider over its client.
  Bootstrap (\<open>resurrect-bootstrap/src/lib.rs\<close>): one cycle with concurrent dialing; the order
  in which dials complete is a choice of the environment. The inductive relation \<open>cycle_spec\<close>
  is its specification. Bootstrap_Morphism and Bootstrap_Answers hold what is invariant
  under a change of world (locales \<open>env_morphism\<close>, \<open>env_invariant\<close>): an observed cycle does
  what the plain one does, and its log holds only answers of its environment.
  Libp2p_Policy (\<open>endpoint_policy.rs\<close>), Libp2p_Codecs (\<open>enr_codec.rs\<close>,
  \<open>signed_peer_record.rs\<close>): acceptable addresses; decoding, verification and signing of peer
  records, varints and signing input byte by byte.
  Dial_Waiters, Libp2p_Behaviour (\<open>behaviour.rs\<close>), Node_P2p (\<open>p2p.rs\<close>): the two dialers. Both
  are state machines over one input at a time; what they send to waiting callers and publish
  is an ordered log. Their common contract is the locale \<open>dialer\<close>: every caller is answered at
  most once and otherwise still held, and a success is only reported after a positive
  connection count was published. It is interpreted on both.
  Node_Cache (\<open>cache.rs\<close>): the verified-peer cache as its rows, each SQL statement a function.
  Node_Registry (\<open>registry.rs\<close>): the registry as a discovery source, and the announcer with
  its sequence numbers and renewal times.
  Node_Supervisor, Supervisor_Runs, Supervisor_Returns (\<open>supervisor.rs\<close>): the loop around the
  cycle, its retry delays and status file; a specification of its turns and runs
  (\<open>turn_spec\<close>, \<open>run_spec\<close>) and when it returns. Supervisor_Invariants proves once what every
  run keeps of its world (locale \<open>supervisor_invariant\<close>), Supervisor_Morphism that a run in an
  observed world is the plain one with a log (locale \<open>supervisor_morphism\<close>), and
  Provider_Invariants the same for a scan and its provider (locale \<open>provider_invariant\<close>).
  Node_Identity (\<open>identity.rs\<close>): the key file, on a disk whose operations may fail.
  Node_Config (\<open>main.rs\<close>): from the command line to the configured parts of a node.
  Node_Composition (\<open>main.rs\<close>): cache, registry and announcer behind the interfaces of the
  bootstrap cycle, and the end-to-end theorem about what a configured node dials.
  Node_Live, Live_Dials (\<open>p2p.rs\<close>): the host at work: the event loop on its own task, its bounded
  command channel, and the calls of the handle that wait for it. Everything outside and every
  choice of the runtime is one list of happenings, consumed by whatever waits or looks. An
  exhausted list means that timers elapse, the loop works off its channel and the interrupt
  arrives. Live_Dials relates what the swarm is asked to dial to the commands that were sent.
  Node_Lifetime (\<open>main.rs\<close>, \<open>supervisor.rs\<close>): the supervisor over the node's parts: disk, cache
  database, registry, announcer and host as one world, with faults of the disk, of SQLite and of
  blocking tasks as inputs; the cache stays typed and the counters count.
  Node_Main, Node_Returns (\<open>main.rs\<close>): \<open>run\<close>, from the command line to the exit code. Node_Main
  keeps one invariant of a living node (\<open>lived\<close>) and reads off it what the swarm is ever asked to
  dial, how callers are answered, what the cache holds and what the counters say. Node_Returns
  proves that \<open>run\<close> returns for every schedule, and that shutdown waits for the loop.
  Core_Tests, Eth_Tests, Bootstrap_Tests, Libp2p_Tests, Node_Tests (the \<open>tests\<close> modules): each
  unit test of the repository, but for those named below, is a bool-valued definition of the
  same name, over the model's operations and its own fixtures, and is proved to pass. What a
  test generates or takes from a package is an argument, with what it relies on as a hypothesis
  (\<open>known_hash\<close>, \<open>signs_enr\<close>, \<open>signing_keys\<close>, \<open>reads_addresses\<close>, \<open>test_identity\<close>, \<open>test_hosts\<close>).
  They tie the definitions to the behaviour the repository itself checks.

  What the lemmas show. Safety against everything outside: whatever the chain, the cache
  file and the peers answer, only verified, unexpired records of accepted types with
  acceptable addresses are dialed; no transaction is sent before the chain and contract
  checks; identities, caches and status files are not overwritten or torn. Functional
  behaviour on every branch, errors included, of validation, decoding, address policy,
  the store and the scanner. Equivalence and refinement: the store refines a sample, the
  cycle and the supervisor refine their specifications, polling refines accepting in
  order. Round trips of records, descriptors and the cache. Bounds on work, delays and
  waiting. Liveness: the behaviour's queue drains, a node's \<open>run\<close> returns on every
  finite schedule, the supervisor stops under stated conditions and, with flapping connections,
  does not. The comments before the theorems
  say where the code departs from its own documentation.

  Termination and fuel. Loops with a bound in the source are total functions with a measure:
  the binary search (the width of its interval), the log loop (blocks left, then the width of
  the query), the dial loop (dials in flight and waiting), varints (their value). The
  supervisor's loop may run forever: it is a partial function, undefined when it never
  returns, and the theorems say when it does; over a host whose happenings are a finite list it
  always does (Node_Returns), because every turn consumes one until the interrupt is seen.
  The swarm's polling in Libp2p_Behaviour is bounded by a number of polls, and two per request plus those queued are proved to be
  enough. There is no other fuel.

  Not modelled. Logging, \<open>Debug\<close> output and the command-line parser (the parsed command line is
  the input of Node_Config, which has the defaults and constraints that the annotations
  state). The swarm, its transports, mDNS, identify and ping: their
  events and answers are inputs, and so is the connection handler that \<open>behaviour.rs\<close> delegates
  to a dummy. SQLite's pool and its file format: the rows are kept beside the disk, each
  statement is a function on them, and that a statement, a transaction or a blocking task may
  fail is an input. An interrupt before the supervisor first waits, which kills the process as
  for any program. Memory ordering: a step of the model is one handled event, and every order of
  steps is a schedule. The unit tests of JSON text and of file modes. The
  TypeScript packages, the Solidity contracts, the deployment scripts and the documentation are other programs; the contract appears only as the answers of the
  provider.
\<close>

end
